(* ===== verification/Prelude.thy ===== *)
theory Prelude
  imports Complex_Main "HOL-Library.Char_ord" "HOL-Library.List_Lexorder"
    "HOL-Library.Product_Lexorder" "HOL-Library.Sublist"
begin

text \<open>
  Shared vocabulary of the development: how Python values are represented, the string
  methods of the standard library that the code calls, and the generic lemmas on lists
  that the component theories share.

  \<^item> a \<open>str\<close> is a \<^typ>\<open>string\<close> whose characters are the code points U+0000 to U+00FF;
    \<open>isspace\<close>, \<open>isalnum\<close>, \<open>lower\<close> and \<open>upper\<close> follow Python on that range, but for
    \<open>upper\<close> of the three letters whose upper case lies outside it (or is two letters),
    which stay as they are;
  \<^item> a \<open>Decimal\<close> is its exact value, a \<^typ>\<open>rat\<close> (the columns are \<open>Numeric(12, 2)\<close> and
    \<open>Numeric(16, 2)\<close>, so sums stay far from the 28 digits of the default context);
  \<^item> a \<open>date\<close> is its proleptic ordinal (\<open>date.toordinal()\<close>), a \<open>time\<close> the microseconds
    since midnight and a \<open>datetime\<close> the microseconds of \<open>combine(date, time)\<close>, all \<^typ>\<open>int\<close>.
\<close>


type_synonym decimal = rat
type_synonym date = int
type_synonym time = int
type_synonym datetime = int

section \<open>Characters and strings\<close>

abbreviation char_code :: "char \<Rightarrow> nat" where
  "char_code c \<equiv> of_char c"

definition ascii_digit :: "char \<Rightarrow> bool" where
  "ascii_digit c \<longleftrightarrow> 48 \<le> char_code c \<and> char_code c \<le> 57"

text \<open>\<open>str.isdigit\<close> also holds of the superscripts.\<close>

definition py_isdigit :: "char \<Rightarrow> bool" where
  "py_isdigit c \<longleftrightarrow> ascii_digit c \<or> char_code c = 178 \<or> char_code c = 179 \<or> char_code c = 185"

definition py_isspace :: "char \<Rightarrow> bool" where
  "py_isspace c \<longleftrightarrow>
     (let n = char_code c in (9 \<le> n \<and> n \<le> 13) \<or> (28 \<le> n \<and> n \<le> 32) \<or> n = 133 \<or> n = 160)"

definition py_isalnum :: "char \<Rightarrow> bool" where
  "py_isalnum c \<longleftrightarrow>
     (let n = char_code c in
        (48 \<le> n \<and> n \<le> 57) \<or> (65 \<le> n \<and> n \<le> 90) \<or> (97 \<le> n \<and> n \<le> 122) \<or>
        n = 170 \<or> n = 178 \<or> n = 179 \<or> n = 181 \<or> n = 185 \<or> n = 186 \<or>
        (188 \<le> n \<and> n \<le> 190) \<or> (192 \<le> n \<and> n \<le> 214) \<or> (216 \<le> n \<and> n \<le> 246) \<or> 248 \<le> n)"

definition lower_char :: "char \<Rightarrow> char" where
  "lower_char c =
     (let n = char_code c in
        if (65 \<le> n \<and> n \<le> 90) \<or> (192 \<le> n \<and> n \<le> 214) \<or> (216 \<le> n \<and> n \<le> 222)
        then char_of (n + 32) else c)"

definition upper_char :: "char \<Rightarrow> char" where
  "upper_char c =
     (let n = char_code c in
        if (97 \<le> n \<and> n \<le> 122) \<or> (224 \<le> n \<and> n \<le> 246) \<or> (248 \<le> n \<and> n \<le> 254)
        then char_of (n - 32) else c)"

definition py_lower :: "string \<Rightarrow> string" where
  "py_lower s = map lower_char s"

definition py_upper :: "string \<Rightarrow> string" where
  "py_upper s = map upper_char s"

definition strip_chars :: "(char \<Rightarrow> bool) \<Rightarrow> string \<Rightarrow> string" where
  "strip_chars P s = rev (dropWhile P (rev (dropWhile P s)))"

definition py_strip :: "string \<Rightarrow> string" where
  "py_strip s = strip_chars py_isspace s"

text \<open>\<open>x or ""\<close>: a missing string and the empty string are both falsy.\<close>

definition option_list :: "'a option \<Rightarrow> 'a list" where
  "option_list x = (case x of None \<Rightarrow> [] | Some y \<Rightarrow> [y])"

lemma in_option_list [simp]: "y \<in> set (option_list x) \<longleftrightarrow> x = Some y"
  by (cases x) (auto simp: option_list_def)

definition or_empty :: "string option \<Rightarrow> string" where
  "or_empty s = (case s of None \<Rightarrow> [] | Some t \<Rightarrow> t)"

definition truthy :: "string option \<Rightarrow> bool" where
  "truthy s \<longleftrightarrow> or_empty s \<noteq> []"

lemma or_empty_simps [simp]: "or_empty None = []" "or_empty (Some s) = s"
  by (simp_all add: or_empty_def)

lemma truthy_simps [simp]: "\<not> truthy None" "truthy (Some s) \<longleftrightarrow> s \<noteq> []"
  by (simp_all add: truthy_def)

lemma truthyE: "truthy x \<Longrightarrow> (\<And>s. x = Some s \<Longrightarrow> s \<noteq> [] \<Longrightarrow> P) \<Longrightarrow> P"
  by (cases x) auto

lemma dropWhile_idem_eq: "xs = [] \<or> \<not> P (hd xs) \<Longrightarrow> dropWhile P xs = xs"
  by (cases xs) auto

lemma hd_dropWhile_not: "dropWhile P xs \<noteq> [] \<Longrightarrow> \<not> P (hd (dropWhile P xs))"
  by (induction xs) auto

lemma hd_rev_dropWhile_rev:
  "xs = [] \<or> \<not> P (hd xs) \<Longrightarrow>
   rev (dropWhile P (rev xs)) = [] \<or> \<not> P (hd (rev (dropWhile P (rev xs))))"
proof (induction xs rule: rev_induct)
  case Nil
  then show ?case by simp
next
  case (snoc x xs)
  then show ?case by (cases xs) auto
qed

lemma strip_chars_idem [simp]: "strip_chars P (strip_chars P s) = strip_chars P s"
proof -
  let ?a = "dropWhile P s"
  let ?b = "rev (dropWhile P (rev ?a))"
  have "?a = [] \<or> \<not> P (hd ?a)" using hd_dropWhile_not by blast
  then have "?b = [] \<or> \<not> P (hd ?b)" by (rule hd_rev_dropWhile_rev)
  then have 1: "dropWhile P ?b = ?b" by (rule dropWhile_idem_eq)
  have 2: "dropWhile P (dropWhile P (rev ?a)) = dropWhile P (rev ?a)"
    by (rule dropWhile_idem_eq) (use hd_dropWhile_not in blast)
  show ?thesis
    using 1 2 by (simp add: strip_chars_def)
qed

lemma py_strip_idem [simp]: "py_strip (py_strip s) = py_strip s"
  by (simp add: py_strip_def)

lemma set_strip_chars: "set (strip_chars P s) \<subseteq> set s"
proof -
  have "set (dropWhile P (rev (dropWhile P s))) \<subseteq> set (dropWhile P s)"
    using set_dropWhileD[of _ P "rev (dropWhile P s)"] by auto
  also have "\<dots> \<subseteq> set s" by (auto dest: set_dropWhileD)
  finally show ?thesis by (simp add: strip_chars_def)
qed

text \<open>\<open>s.split(c)\<close> for one character, \<open>s.split()\<close> for runs of white space, and \<open>" ".join\<close>.\<close>

fun split_on :: "char \<Rightarrow> string \<Rightarrow> string list" where
  "split_on c [] = [[]]"
| "split_on c (x # s) =
     (if x = c then [] # split_on c s
      else case split_on c s of [] \<Rightarrow> [[x]] | w # ws \<Rightarrow> (x # w) # ws)"

fun words_loop :: "string \<Rightarrow> string \<Rightarrow> string list" where
  "words_loop w [] = (if w = [] then [] else [w])"
| "words_loop w (x # s) =
     (if py_isspace x then (if w = [] then words_loop [] s else w # words_loop [] s)
      else words_loop (w @ [x]) s)"

definition py_words :: "string \<Rightarrow> string list" where
  "py_words s = words_loop [] s"

fun join_words :: "string list \<Rightarrow> string" where
  "join_words [] = []"
| "join_words [w] = w"
| "join_words (w # ws) = w @ '' '' @ join_words ws"

lemma split_on_nonempty [simp]: "split_on c s \<noteq> []"
  by (induction c s rule: split_on.induct) (auto split: list.splits)

lemma split_on_append:
  "split_on c (s @ c # t) = split_on c s @ split_on c t"
  by (induction c s rule: split_on.induct) (auto split: list.splits simp: neq_Nil_conv)

lemma split_on_no_sep: "c \<notin> set s \<Longrightarrow> split_on c s = [s]"
  by (induction c s rule: split_on.induct) auto

section \<open>Results, lookups and choices\<close>

text \<open>The code picks a candidate only when it is the single one.\<close>

definition the_single :: "'a list \<Rightarrow> 'a option" where
  "the_single xs = (case xs of [x] \<Rightarrow> Some x | _ \<Rightarrow> None)"

lemma the_single_eq_Some [simp]: "the_single xs = Some x \<longleftrightarrow> xs = [x]"
  by (auto simp: the_single_def split: list.splits)

lemma the_single_eq_None: "the_single xs = None \<longleftrightarrow> length xs \<noteq> 1"
  by (auto simp: the_single_def length_Suc_conv split: list.splits)

lemma filter_singleton_unique:
  "filter P xs = [x] \<Longrightarrow> x \<in> set xs \<and> P x \<and> (\<forall>y\<in>set xs. P y \<longrightarrow> y = x)"
proof -
  assume "filter P xs = [x]"
  then have "{y \<in> set xs. P y} = {x}" by (metis set_filter list.simps(15) empty_set)
  then show ?thesis by auto
qed

lemma find_SomeD: "find P xs = Some x \<Longrightarrow> x \<in> set xs \<and> P x"
  by (induction xs) (auto split: if_splits)

lemma in_map_filter_iff: "y \<in> set (List.map_filter f xs) \<longleftrightarrow> (\<exists>x \<in> set xs. f x = Some y)"
  by (induction xs) (auto simp: List.map_filter_simps split: option.splits)

lemma same_image: "map f xs = map f ys \<Longrightarrow> x \<in> set xs \<Longrightarrow> \<exists>y \<in> set ys. f y = f x"
  by (metis in_set_conv_nth length_map nth_map)

lemma list_all2_right: "list_all2 P xs ys \<Longrightarrow> y \<in> set ys \<Longrightarrow> (\<And>x. x \<in> set xs \<Longrightarrow> P x y \<Longrightarrow> thesis) \<Longrightarrow> thesis"
  by (induction rule: list_all2_induct) auto

lemma list_all2_left: "list_all2 P xs ys \<Longrightarrow> x \<in> set xs \<Longrightarrow> \<exists>y. P x y"
  by (induction rule: list_all2_induct) auto

section \<open>Primary keys\<close>

text \<open>The next key of a table: one more than the largest.\<close>

definition next_id :: "int list \<Rightarrow> int" where
  "next_id ids = foldr max ids 0 + 1"

lemma next_id_above: "i \<in> set ids \<Longrightarrow> i < next_id ids"
proof -
  have "i \<in> set ids \<Longrightarrow> i \<le> foldr max ids 0" by (induction ids) auto
  then show "i \<in> set ids \<Longrightarrow> i < next_id ids" by (simp add: next_id_def)
qed

lemma next_id_fresh: "next_id ids \<notin> set ids"
  using next_id_above by blast

section \<open>Sums\<close>

definition dsum :: "('a \<Rightarrow> decimal) \<Rightarrow> 'a list \<Rightarrow> decimal" where
  "dsum f xs = sum_list (map f xs)"

lemma dsum_simps [simp]:
  "dsum f [] = 0" "dsum f (x # xs) = f x + dsum f xs" "dsum f (xs @ ys) = dsum f xs + dsum f ys"
  by (simp_all add: dsum_def)

lemma dsum_filter: "dsum f (filter P xs) = dsum (\<lambda>x. if P x then f x else 0) xs"
  by (induction xs) auto

lemma dsum_add: "dsum (\<lambda>x. f x + g x) xs = dsum f xs + dsum g xs"
  by (induction xs) auto

lemma dsum_uminus: "dsum (\<lambda>x. - f x) xs = - dsum f xs"
  by (induction xs) auto

lemma dsum_cong: "(\<And>x. x \<in> set xs \<Longrightarrow> f x = g x) \<Longrightarrow> dsum f xs = dsum g xs"
  by (induction xs) auto

lemma dsum_split: "dsum f xs = dsum f (filter P xs) + dsum f (filter (\<lambda>x. \<not> P x) xs)"
  by (induction xs) auto

lemma dsum_nonneg: "(\<And>x. x \<in> set xs \<Longrightarrow> 0 \<le> f x) \<Longrightarrow> 0 \<le> dsum f xs"
  by (induction xs) (simp, fastforce)

end
