(* ===== verification/Masks.thy ===== *)
theory Masks
  imports Prelude
begin

text \<open>
  \<^verbatim>\<open>core/masks.py\<close>: card and account masks. A mask is normalized to ASCII digits and the
  wildcard \<open>X\<close> with every position kept, and two normalized masks are compared right-aligned
  over their overlap. The abstract specification is \<open>denotes\<close>: a mask denotes a concrete number
  when the two agree, from the right, wherever both show a digit.
\<close>

section \<open>Definitions\<close>

definition WILDCARD_CHARS :: "char list" where
  "WILDCARD_CHARS = [CHR ''X'', CHR ''x'', CHR ''*'', CHR ''#'']"

definition is_separator :: "char \<Rightarrow> bool" where
  "is_separator ch \<longleftrightarrow> py_isspace ch \<or> ch = CHR ''-''"

definition WILDCARD :: char where
  "WILDCARD = CHR ''X''"

text \<open>The loop of \<open>normalize_mask\<close>, with \<open>out\<close> as the accumulator; the early return is \<open>[]\<close>.\<close>

fun normalize_loop :: "string \<Rightarrow> string \<Rightarrow> string" where
  "normalize_loop out [] = out"
| "normalize_loop out (ch # s) =
     (if ascii_digit ch then normalize_loop (out @ [ch]) s
      else if ch \<in> set WILDCARD_CHARS then normalize_loop (out @ [WILDCARD]) s
      else if \<not> is_separator ch then []
      else normalize_loop out s)"

definition normalize_mask :: "string option \<Rightarrow> string" where
  "normalize_mask s = (if \<not> truthy s then [] else normalize_loop [] (or_empty s))"

fun count_digits_from :: "string \<Rightarrow> nat" where
  "count_digits_from [] = 0"
| "count_digits_from (ch # s) = (if \<not> ascii_digit ch then 0 else Suc (count_digits_from s))"

definition trailing_visible_digits :: "string \<Rightarrow> nat" where
  "trailing_visible_digits normalized = count_digits_from (rev normalized)"

text \<open>
  The loop over \<open>i = 1, \<dots>, min (len(pattern), len(stored))\<close> reads \<open>pattern[-i]\<close> and
  \<open>stored[-i]\<close>; \<open>mask_overlap\<close> runs over the two reversed lists in step.
\<close>

fun mask_overlap :: "string \<Rightarrow> string \<Rightarrow> bool" where
  "mask_overlap (p # ps) (s # ss) =
     (if p = WILDCARD \<or> s = WILDCARD then mask_overlap ps ss
      else if p \<noteq> s then False else mask_overlap ps ss)"
| "mask_overlap _ _ = True"

definition mask_matches :: "string \<Rightarrow> string \<Rightarrow> bool" where
  "mask_matches pattern stored =
     (if pattern = [] \<or> stored = [] then False else mask_overlap (rev pattern) (rev stored))"

definition mask_digits :: "string option \<Rightarrow> string" where
  "mask_digits s = (if \<not> truthy s then [] else filter ascii_digit (or_empty s))"

definition mask_last4 :: "bool \<Rightarrow> string option \<Rightarrow> string option" where
  "mask_last4 partial s =
     (let digits = mask_digits s in
      if 4 \<le> length digits then Some (drop (length digits - 4) digits)
      else if partial then (if digits = [] then None else Some digits)
      else None)"

definition display_mask :: "string option \<Rightarrow> string option" where
  "display_mask value = map_option (\<lambda>last_digits. ''XXXX'' @ last_digits) (mask_last4 True value)"

section \<open>Normal forms\<close>

definition mask_char :: "char \<Rightarrow> bool" where
  "mask_char c \<longleftrightarrow> ascii_digit c \<or> c = WILDCARD"

definition is_normal :: "string \<Rightarrow> bool" where
  "is_normal m \<longleftrightarrow> list_all mask_char m"

lemma WILDCARD_not_digit [simp]: "\<not> ascii_digit WILDCARD"
  by (simp add: WILDCARD_def ascii_digit_def)

lemma digit_neq_WILDCARD: "ascii_digit c \<Longrightarrow> c \<noteq> WILDCARD"
  by auto

lemma WILDCARD_in_chars [simp]: "WILDCARD \<in> set WILDCARD_CHARS"
  by (simp add: WILDCARD_def WILDCARD_CHARS_def)

lemma is_normal_simps [simp]:
  "is_normal []" "is_normal (c # m) \<longleftrightarrow> mask_char c \<and> is_normal m"
  "is_normal (m @ n) \<longleftrightarrow> is_normal m \<and> is_normal n" "is_normal (rev m) \<longleftrightarrow> is_normal m"
  by (simp_all add: is_normal_def)

lemma normalize_loop_normal: "is_normal out \<Longrightarrow> is_normal (normalize_loop out s)"
  by (induction out s rule: normalize_loop.induct) (auto simp: mask_char_def)

lemma normalize_mask_normal [simp, intro]: "is_normal (normalize_mask s)"
  by (simp add: normalize_mask_def normalize_loop_normal)

lemma normalize_loop_id: "is_normal s \<Longrightarrow> normalize_loop out s = out @ s"
  by (induction out s rule: normalize_loop.induct) (auto simp: mask_char_def)

lemma normalize_mask_id: "is_normal m \<Longrightarrow> normalize_mask (Some m) = m"
  by (simp add: normalize_mask_def normalize_loop_id)

text \<open>A readable mask keeps one character per digit or wildcard, in order; an unreadable one is empty.\<close>

definition readable_mask :: "string \<Rightarrow> bool" where
  "readable_mask s \<longleftrightarrow>
     list_all (\<lambda>c. ascii_digit c \<or> c \<in> set WILDCARD_CHARS \<or> is_separator c) s"

definition keep_positions :: "string \<Rightarrow> string" where
  "keep_positions s =
     map (\<lambda>c. if ascii_digit c then c else WILDCARD)
       (filter (\<lambda>c. ascii_digit c \<or> c \<in> set WILDCARD_CHARS) s)"

lemma normalize_loop_eq:
  "normalize_loop out s = (if readable_mask s then out @ keep_positions s else [])"
  by (induction out s rule: normalize_loop.induct)
     (auto simp: readable_mask_def keep_positions_def)

section \<open>Matching\<close>

lemma mask_overlap_commute: "mask_overlap p s = mask_overlap s p"
  by (induction p s rule: mask_overlap.induct) auto

lemma mask_overlap_refl [simp]: "mask_overlap p p"
  by (induction p) auto

lemma mask_matches_commute: "mask_matches p s = mask_matches s p"
  by (auto simp: mask_matches_def mask_overlap_commute)

lemma mask_matches_refl: "p \<noteq> [] \<Longrightarrow> mask_matches p p"
  by (simp add: mask_matches_def)

lemma mask_matches_empty [simp]: "\<not> mask_matches [] s" "\<not> mask_matches p []"
  by (simp_all add: mask_matches_def)

text \<open>
  The specification: \<open>denotes m d\<close> says that the concrete digit string \<open>d\<close> fits the mask \<open>m\<close>
  where the two overlap, read from the right.
\<close>

fun fits :: "string \<Rightarrow> string \<Rightarrow> bool" where
  "fits (m # ms) (d # ds) \<longleftrightarrow> (m = WILDCARD \<or> m = d) \<and> fits ms ds"
| "fits _ _ = True"

definition denotes :: "string \<Rightarrow> string \<Rightarrow> bool" where
  "denotes m d \<longleftrightarrow> fits (rev m) (rev d)"

definition is_number :: "string \<Rightarrow> bool" where
  "is_number d \<longleftrightarrow> list_all ascii_digit d"

lemma is_number_simps [simp]:
  "is_number []" "is_number (c # d) \<longleftrightarrow> ascii_digit c \<and> is_number d" "is_number (rev d) \<longleftrightarrow> is_number d"
  by (simp_all add: is_number_def)

fun common_number :: "string \<Rightarrow> string \<Rightarrow> string" where
  "common_number (p # ps) (s # ss) =
     (if p \<noteq> WILDCARD then p else if s \<noteq> WILDCARD then s else CHR ''0'') # common_number ps ss"
| "common_number (p # ps) [] = (if p \<noteq> WILDCARD then p else CHR ''0'') # common_number ps []"
| "common_number [] (s # ss) = (if s \<noteq> WILDCARD then s else CHR ''0'') # common_number [] ss"
| "common_number [] [] = []"

lemma ascii_digit_zero [simp]: "ascii_digit (CHR ''0'')"
  by (simp add: ascii_digit_def)

lemma common_number_is_number: "is_normal p \<Longrightarrow> is_normal s \<Longrightarrow> is_number (common_number p s)"
  by (induction p s rule: common_number.induct) (auto simp: mask_char_def)

lemma length_common_number [simp]: "length (common_number p s) = max (length p) (length s)"
  by (induction p s rule: common_number.induct) auto

lemma fits_common_number:
  "mask_overlap p s \<Longrightarrow> fits p (common_number p s) \<and> fits s (common_number p s)"
  by (induction p s rule: common_number.induct) (auto split: if_splits)

lemma fits_overlap:
  "fits p d \<Longrightarrow> fits s d \<Longrightarrow> length p \<le> length d \<or> length s \<le> length d \<Longrightarrow> mask_overlap p s"
proof (induction p s arbitrary: d rule: mask_overlap.induct)
  case (1 p ps s ss)
  then show ?case by (cases d) auto
qed auto

lemma mask_matches_iff_denotes:
  assumes "is_normal p" "is_normal s"
  shows "mask_matches p s \<longleftrightarrow>
    p \<noteq> [] \<and> s \<noteq> [] \<and>
    (\<exists>d. is_number d \<and> length d = max (length p) (length s) \<and> denotes p d \<and> denotes s d)"
    (is "?L \<longleftrightarrow> ?R")
proof
  assume ?L
  then have ne: "p \<noteq> []" "s \<noteq> []" and ov: "mask_overlap (rev p) (rev s)"
    by (auto simp: mask_matches_def split: if_splits)
  let ?d = "rev (common_number (rev p) (rev s))"
  have "is_number ?d" using assms by (simp add: common_number_is_number)
  moreover have "denotes p ?d" "denotes s ?d"
    using fits_common_number[OF ov] by (simp_all add: denotes_def)
  moreover have "length ?d = max (length p) (length s)" by simp
  ultimately show ?R using ne by blast
next
  assume ?R
  then show ?L
    by (auto simp: mask_matches_def denotes_def intro: fits_overlap)
qed

section \<open>Trailing digits identify\<close>

lemma count_digits_from_takeWhile: "count_digits_from s = length (takeWhile ascii_digit s)"
  by (induction s) auto

lemma overlap_take_digits:
  "mask_overlap p s \<Longrightarrow> k \<le> count_digits_from p \<Longrightarrow> k \<le> count_digits_from s \<Longrightarrow> take k p = take k s"
proof (induction p s arbitrary: k rule: mask_overlap.induct)
  case (1 p ps s ss)
  then show ?case
    by (cases k) (auto dest: digit_neq_WILDCARD split: if_splits)
qed auto

lemma rev_take_drop: "drop (length xs - k) xs = rev (take k (rev xs))"
  by (simp add: take_rev)

lemma mask_matches_trailing:
  assumes "mask_matches p s" "k \<le> trailing_visible_digits p" "k \<le> trailing_visible_digits s"
  shows "drop (length p - k) p = drop (length s - k) s"
proof -
  have "mask_overlap (rev p) (rev s)"
    using assms(1) by (auto simp: mask_matches_def split: if_splits)
  then have "take k (rev p) = take k (rev s)"
    using assms(2,3) by (intro overlap_take_digits) (auto simp: trailing_visible_digits_def)
  then show ?thesis by (simp only: rev_take_drop)
qed

text \<open>
  Two masks that show every digit at the same length match only when they are equal; this is what
  makes a bare account number an identity.
\<close>

lemma count_digits_le: "count_digits_from s \<le> length s"
  by (induction s) auto

lemma mask_matches_full:
  assumes "mask_matches p s" "is_number p" "is_number s" "length p = length s"
  shows "p = s"
proof -
  have "trailing_visible_digits m = length m" if "is_number m" for m
    using that
    by (auto simp: trailing_visible_digits_def count_digits_from_takeWhile is_number_def
          list_all_iff takeWhile_eq_all_conv[THEN iffD2])
  then show ?thesis using mask_matches_trailing[OF assms(1), of "length p"] assms by simp
qed

section \<open>Properties\<close>

lemma normalize_mask_eq:
  "normalize_mask s = (if readable_mask (or_empty s) then keep_positions (or_empty s) else [])"
  by (cases s) (simp_all add: normalize_mask_def normalize_loop_eq keep_positions_def)

text \<open>What a normalized mask is: the digits and wildcards of a readable text in order, with every
  wildcard written the same way; the empty mask for a text with any other character but a separator.
  Normalizing a normalized mask changes nothing.\<close>

theorem normalize_mask_spec:
  "normalize_mask s =
     (if readable_mask (or_empty s) then keep_positions (or_empty s) else []) \<and>
   is_normal (normalize_mask s) \<and> normalize_mask (Some (normalize_mask s)) = normalize_mask s"
  by (intro conjI normalize_mask_eq normalize_mask_normal normalize_mask_id)

text \<open>C38. Two masks match exactly when some account number fits both: there is one string of digits,
  as long as the longer mask, that agrees with each of them wherever the mask shows a digit.\<close>

theorem mask_matches_iff_common_number:
  "mask_matches (normalize_mask a) (normalize_mask b) \<longleftrightarrow>
     normalize_mask a \<noteq> [] \<and> normalize_mask b \<noteq> [] \<and>
     (\<exists>d. is_number d \<and> length d = max (length (normalize_mask a)) (length (normalize_mask b)) \<and>
          denotes (normalize_mask a) d \<and> denotes (normalize_mask b) d)"
  by (rule mask_matches_iff_denotes) auto

end
