(* ===== verification/Db_Model.thy ===== *)
theory Db_Model
  imports Prelude
begin

text \<open>
  The rows of \<^verbatim>\<open>db/models.py\<close> that the modelled services read and write, one \<open>record\<close> per
  table, and the database as the record of its tables. A table is the list of its rows in
  primary-key order (insertion order). A nullable column is an \<open>option\<close>; a boolean column that
  the code tests with \<open>is_(True)\<close> / \<open>is_not(True)\<close>, because old rows can hold NULL, is a
  \<open>bool option\<close>. A column that holds JSON text is its parsed value: \<open>su_payment_sent_offsets\<close>
  the list of offsets, \<open>bu_reconciliation_data\<close> the entries under \<open>matched\<close> and \<open>missing\<close>. Columns that no modelled operation reads or writes are left out.
\<close>

record txn =
  t_id :: int
  t_email_id :: "int option"
  t_account_id :: "int option"
  t_card_id :: "int option"
  t_statement_upload_id :: "int option"
  t_bank_statement_upload_id :: "int option"
  t_bank :: string
  t_email_type :: string
  t_direction :: string
  t_amount :: decimal
  t_currency :: "string option"
  t_transaction_date :: "date option"
  t_transaction_time :: "time option"
  t_identifies_by :: string
  t_counterparty_source :: string
  t_amount_source :: string
  t_time_is_received_time :: bool
  t_counterparty :: "string option"
  t_card_mask :: "string option"
  t_card_holder :: "string option"
  t_account_mask :: "string option"
  t_reference_number :: "string option"
  t_channel :: "string option"
  t_balance :: "decimal option"
  t_raw_description :: "string option"
  t_note :: "string option"
  t_attachment_path :: "string option"
  t_exclude_from_cashflow :: "bool option"
  t_voided :: "bool option"
  t_category :: "string option"
  t_category_method :: "string option"
  t_category_confidence :: "decimal option"
  t_category_model :: "string option"
  t_category_input_hash :: "string option"
  t_category_vocab_version :: "int option"
  t_categorized_at :: "datetime option"
  t_review_status :: "string option"
  t_review_reason :: "string option"
  t_sms_message_id :: "int option"
  t_source :: "string option"
  t_notified_channel :: "string option"
  t_enriched_at :: "datetime option"
  t_created_at :: "datetime option"
  t_last_notified_at :: "datetime option"
  t_notify_attempts :: "nat option"

record account =
  a_id :: int
  a_bank :: string
  a_label :: string
  a_type :: string
  a_account_number :: "string option"

record card =
  c_id :: int
  c_account_id :: int
  c_card_mask :: string
  c_label :: "string option"

text \<open>Why a category is asked for: a text, or one of the texts of \<^verbatim>\<open>categorization/engine.py\<close>. The stored
  candidates are their slugs in order.\<close>

datatype review_gate = Gate_text string | Model_abstained | Low_confidence decimal decimal | Incompatible_slug string string

record review_decision =
  rd_id :: int
  rd_transaction_id :: int
  rd_source_interaction_id :: "int option"
  rd_category_input_hash :: string
  rd_candidates :: "string list"
  rd_proposed_slug :: "string option"
  rd_confidence :: "decimal option"
  rd_threshold :: "decimal option"
  rd_gate_reason :: "review_gate option"
  rd_status :: string
  rd_expires_at :: "datetime option"
  rd_selected_slug :: "string option"
  rd_consumed_at :: "datetime option"
  rd_superseded_at :: "datetime option"

record delivery =
  od_id :: int
  od_interaction_id :: "int option"
  od_category_review_decision_id :: "int option"
  od_ordinal :: int
  od_recipient_chat_id :: int
  od_transaction_id :: "int option"
  od_status :: string
  od_delivery_attempts :: nat
  od_worker_token :: "string option"
  od_delivery_lease_until :: "datetime option"
  od_last_attempt_at :: "datetime option"
  od_delivered_at :: "datetime option"

record interaction =
  ai_id :: int
  ai_inbound_chat_id :: int
  ai_trigger :: string
  ai_transaction_id :: "int option"
  ai_status :: string
  ai_outcome :: "string option"
  ai_worker_token :: "string option"
  ai_processing_lease_until :: "datetime option"
  ai_completed_at :: "datetime option"

text \<open>The stored reconciliation of a statement. An entry names the row it matched and the row it became,
  and lists the rows it could have claimed; the other keys of an entry repeat the statement line.\<close>

record recon_entry =
  re_db_txn_id :: "int option"
  re_imported_txn_id :: "int option"
  re_candidate_ids :: "int list"
  re_candidate_ids_truncated :: bool
  re_imported :: bool
  re_date :: string
  re_amount :: string
  re_direction :: string

record stored_recon =
  sr_matched :: "recon_entry list"
  sr_missing :: "recon_entry list"

text \<open>The text of a failed parse, or the summary of the lines that an import skipped: duplicates, errors.\<close>

datatype upload_error = Parse_failed string | Lines_skipped nat nat

record statement_upload =
  su_id :: int
  su_account_id :: int
  su_bank :: string
  su_source_kind :: string
  su_file_path :: string
  su_status :: string
  su_card_number :: "string option"
  su_statement_name :: "string option"
  su_due_date :: "string option"
  su_total_amount_due :: "string option"
  su_parsed_txn_count :: nat
  su_matched_count :: nat
  su_missing_count :: nat
  su_imported_count :: nat
  su_reconciliation_data :: "stored_recon option"
  su_error :: "upload_error option"
  su_created_at :: "datetime option"
  su_payment_status :: "string option"
  su_payment_paid_amount :: "decimal option"
  su_payment_paid_at :: "datetime option"
  su_payment_sent_offsets :: "int list"
  su_payment_last_reminded_at :: "datetime option"
  su_is_active :: bool

record bank_upload =
  bu_id :: int
  bu_account_id :: int
  bu_bank :: string
  bu_status :: string
  bu_account_number :: "string option"
  bu_account_holder_name :: "string option"
  bu_statement_period_start :: "string option"
  bu_statement_period_end :: "string option"
  bu_opening_balance :: "string option"
  bu_closing_balance :: "string option"
  bu_parsed_txn_count :: nat
  bu_matched_count :: nat
  bu_missing_count :: nat
  bu_imported_count :: nat
  bu_reconciliation_data :: "stored_recon option"
  bu_error :: "upload_error option"

record snapshot =
  sn_account_id :: "int option"
  sn_kind :: string
  sn_category :: string
  sn_as_of_date :: date
  sn_value :: decimal
  sn_source :: string
  sn_currency :: string

record category =
  k_slug :: string
  k_active :: bool
  k_bucket :: "string option"

record merchant_rule =
  ml_id :: int
  ml_pattern :: string
  ml_category :: string
  ml_active :: bool
  ml_priority :: int

record sms_message =
  sms_id :: int
  sms_transaction_id :: "int option"

record audit_action =
  aa_id :: int
  aa_transaction_id :: "int option"
  aa_action_type :: string
  aa_target_type :: string
  aa_target_id :: int

text \<open>A pending confirmation as the actions of \<^verbatim>\<open>services/assistant/contracts.py\<close> that name a transaction.\<close>

datatype chained_write =
    Apply_changes int
  | Link_receivable_write int
  | Void_write int
  | Merge_write int int
  | Create_receivable_write "int list"
  | Other_write

datatype confirmation =
    Merchant_rule_confirmation int
  | Change_confirmation int
  | Write_confirmation chained_write
  | Changes_confirmation "int list" "int list"
  | Screenshot_confirmation "int option" "int list"
  | Other_confirmation

text \<open>The stored JSON: a confirmation with its chain, or a text that does not parse.\<close>

datatype pending =
    Unparseable_pending
  | Pending confirmation "(int option \<times> chained_write list) option"

record conversation =
  cv_id :: int
  cv_transaction_id :: "int option"
  cv_pending :: "pending option"

record db =
  transactions :: "txn list"
  accounts :: "account list"
  cards :: "card list"
  review_decisions :: "review_decision list"
  deliveries :: "delivery list"
  interactions :: "interaction list"
  statement_uploads :: "statement_upload list"
  bank_uploads :: "bank_upload list"
  snapshots :: "snapshot list"
  categories :: "category list"
  sms_messages :: "sms_message list"
  audit_actions :: "audit_action list"
  conversations :: "conversation list"
  merchant_rules :: "merchant_rule list"

text \<open>A concrete row and a concrete database, used by the examples that evaluate the model.\<close>

definition blank_txn :: txn where
  "blank_txn =
     \<lparr>t_id = 0, t_email_id = None, t_account_id = None, t_card_id = None, t_statement_upload_id = None,
      t_bank_statement_upload_id = None, t_bank = ''hdfc'', t_email_type = ''hdfc_upi_alert'',
      t_direction = ''debit'', t_amount = 100, t_currency = Some ''INR'',
      t_transaction_date = None, t_transaction_time = None, t_identifies_by = ''counterparty'',
      t_counterparty_source = ''bank'', t_amount_source = ''bank'', t_time_is_received_time = False, t_counterparty = None,
      t_card_mask = None, t_card_holder = None, t_account_mask = None, t_reference_number = None,
      t_channel = None, t_balance = None, t_raw_description = None, t_note = None, t_attachment_path = None,
      t_exclude_from_cashflow = Some False, t_voided = Some False, t_category = None,
      t_category_method = None, t_category_confidence = None, t_category_model = None,
      t_category_input_hash = None, t_category_vocab_version = None, t_categorized_at = None,
      t_review_status = None, t_review_reason = None, t_sms_message_id = None, t_source = None,
      t_notified_channel = None, t_enriched_at = None, t_created_at = None,
      t_last_notified_at = None, t_notify_attempts = Some 0\<rparr>"

definition blank_account :: account where
  "blank_account =
     \<lparr>a_id = 1, a_bank = ''hdfc'', a_label = ''Savings'', a_type = ''bank_account'', a_account_number = None\<rparr>"

definition blank_upload :: statement_upload where
  "blank_upload =
     \<lparr>su_id = 1, su_account_id = 1, su_bank = ''hdfc'', su_source_kind = ''pdf'', su_file_path = ''f'',
      su_status = ''parsed'', su_card_number = None, su_statement_name = None, su_due_date = Some ''d'',
      su_total_amount_due = Some ''100'', su_parsed_txn_count = 0, su_matched_count = 0, su_missing_count = 0,
      su_imported_count = 0, su_reconciliation_data = None, su_error = None,
      su_created_at = Some 0, su_payment_status = Some ''unpaid'', su_payment_paid_amount = None,
      su_payment_paid_at = None, su_payment_sent_offsets = [], su_payment_last_reminded_at = None,
      su_is_active = True\<rparr>"

definition blank_delivery :: delivery where
  "blank_delivery =
     \<lparr>od_id = 3, od_interaction_id = None, od_category_review_decision_id = Some 1, od_ordinal = 0,
      od_recipient_chat_id = 5, od_transaction_id = Some 7, od_status = ''pending'', od_delivery_attempts = 0,
      od_worker_token = None, od_delivery_lease_until = None, od_last_attempt_at = None, od_delivered_at = None\<rparr>"

definition empty_db :: db where
  "empty_db =
     \<lparr>transactions = [], accounts = [], cards = [], review_decisions = [], deliveries = [],
      interactions = [], statement_uploads = [], bank_uploads = [], snapshots = [], categories = [],
      sms_messages = [], audit_actions = [], conversations = [], merchant_rules = []\<rparr>"

section \<open>Updating one row of a table\<close>

text \<open>An ORM write to a loaded row, or an \<open>UPDATE ... WHERE id = ...\<close>: the other rows stay.\<close>

definition update_where :: "('a \<Rightarrow> bool) \<Rightarrow> ('a \<Rightarrow> 'a) \<Rightarrow> 'a list \<Rightarrow> 'a list" where
  "update_where P f rows = map (\<lambda>r. if P r then f r else r) rows"

lemma update_where_simps [simp]:
  "update_where P f [] = []"
  "update_where P f (r # rows) = (if P r then f r else r) # update_where P f rows"
  "length (update_where P f rows) = length rows"
  by (simp_all add: update_where_def)

lemma map_update_where:
  "(\<And>r. P r \<Longrightarrow> g (f r) = g r) \<Longrightarrow> map g (update_where P f rows) = map g rows"
  by (simp add: update_where_def)

lemma update_where_False [simp]: "(\<And>r. r \<in> set rows \<Longrightarrow> \<not> P r) \<Longrightarrow> update_where P f rows = rows"
  by (induction rows) auto

lemma in_set_update_where:
  "r \<in> set (update_where P f rows) \<Longrightarrow> (\<exists>q \<in> set rows. r = (if P q then f q else q))"
  by (auto simp: update_where_def)

lemma update_where_update_where:
  assumes "\<And>r. P r \<Longrightarrow> f (f r) = f r" "\<And>r. Q (f r) = Q r"
  shows "update_where Q f (update_where P f rows) = update_where (\<lambda>r. P r \<or> Q r) f rows"
  using assms by (induction rows) auto

definition write_txn :: "int \<Rightarrow> (txn \<Rightarrow> txn) \<Rightarrow> db \<Rightarrow> db" where
  "write_txn i f d = d\<lparr>transactions := update_where (\<lambda>t. t_id t = i) f (transactions d)\<rparr>"

definition get_txn :: "int \<Rightarrow> db \<Rightarrow> txn option" where
  "get_txn i d = find (\<lambda>t. t_id t = i) (transactions d)"

lemma transactions_write_txn [simp]:
  "transactions (write_txn i f d) = update_where (\<lambda>t. t_id t = i) f (transactions d)"
  by (simp add: write_txn_def)

lemma find_update_where:
  "(\<And>t. key (f t) = key t) \<Longrightarrow>
   find (\<lambda>t. key t = i) (update_where (\<lambda>t. key t = i) f rows) =
     map_option f (find (\<lambda>t. key t = i) rows)"
  by (induction rows) auto

lemma find_update_where_other:
  "(\<And>t. key (f t) = key t) \<Longrightarrow> j \<noteq> i \<Longrightarrow>
   find (\<lambda>t. key t = j) (update_where (\<lambda>t. key t = i) f rows) = find (\<lambda>t. key t = j) rows"
  by (induction rows) auto

lemma get_write_txn:
  "(\<And>t. t_id (f t) = t_id t) \<Longrightarrow> get_txn i (write_txn i f d) = map_option f (get_txn i d)"
  by (simp add: get_txn_def find_update_where)

lemma get_write_txn_other:
  "(\<And>t. t_id (f t) = t_id t) \<Longrightarrow> j \<noteq> i \<Longrightarrow> get_txn j (write_txn i f d) = get_txn j d"
  by (simp add: get_txn_def find_update_where_other)

lemma get_txn_Some: "get_txn i d = Some t \<Longrightarrow> t \<in> set (transactions d) \<and> t_id t = i"
  by (auto simp: get_txn_def find_Some_iff)

lemma get_txn_distinct:
  assumes "distinct (map t_id (transactions d))" "t \<in> set (transactions d)"
  shows "get_txn (t_id t) d = Some t"
proof -
  have "find (\<lambda>u. t_id u = t_id t) rows = Some t"
    if "distinct (map t_id rows)" "t \<in> set rows" for rows
    using that by (induction rows) (auto simp: image_iff)
  then show ?thesis using assms by (simp add: get_txn_def)
qed

end
