(* ===== verification/Linker.thy ===== *)
theory Linker
  imports Masks Db_Model "HOL-Library.Multiset"
begin

text \<open>
  \<^verbatim>\<open>services/linker.py\<close>: linking a transaction to an account (and a card) by its masks.
  \<open>build_link_context\<close> loads the lookup tables, \<open>link_transaction\<close> runs the four-level cascade.
  A dict of lists is a map to lists; \<open>d.get(k, [])\<close> is \<open>bucket\<close>.
\<close>

section \<open>Picking a candidate\<close>

text \<open>
  The contract the lookups rely on: a candidate is picked only when it is the single one, so the
  pick does not depend on the order in which the database returns the candidates.
\<close>

locale single_choice =
  fixes sel :: "'a list \<Rightarrow> 'a option"
  assumes sel_member: "sel xs = Some x \<Longrightarrow> x \<in> set xs"
    and sel_only: "sel xs = Some x \<Longrightarrow> y \<in> set xs \<Longrightarrow> y = x"
    and sel_perm: "mset xs = mset ys \<Longrightarrow> sel xs = sel ys"
begin

lemma sel_map_perm: "mset xs = mset ys \<Longrightarrow> sel (map f xs) = sel (map f ys)"
  by (rule sel_perm) simp

lemma sel_filter_perm: "mset xs = mset ys \<Longrightarrow> sel (filter P xs) = sel (filter P ys)"
  by (rule sel_perm) (simp add: mset_filter)

lemma sel_filter_sat: "sel (filter P xs) = Some x \<Longrightarrow> x \<in> set xs \<and> P x"
  using sel_member by fastforce

lemma sel_filter_only: "sel (filter P xs) = Some x \<Longrightarrow> y \<in> set xs \<Longrightarrow> P y \<Longrightarrow> y = x"
  using sel_only by fastforce

end

lemma the_single_perm: "mset xs = mset ys \<Longrightarrow> the_single xs = the_single ys"
proof -
  assume m: "mset xs = mset ys"
  show ?thesis
  proof (cases "length xs = 1")
    case True
    then obtain x where "xs = [x]" by (auto simp: length_Suc_conv)
    then show ?thesis using m by simp
  next
    case False
    moreover have "length ys = length xs" using m by (metis size_mset)
    ultimately show ?thesis by (metis the_single_eq_None)
  qed
qed

interpretation pick: single_choice the_single
  by unfold_locales (auto intro: the_single_perm)

section \<open>Definitions\<close>

definition MIN_MASK_DIGITS :: nat where
  "MIN_MASK_DIGITS = 3"

definition usable_mask :: "string \<Rightarrow> bool" where
  "usable_mask normalized \<longleftrightarrow> MIN_MASK_DIGITS \<le> trailing_visible_digits normalized"

record link_context =
  cards_by_bank :: "string \<rightharpoonup> (string \<times> int \<times> int) list"
  accounts_by_bank_with_masks :: "string \<rightharpoonup> (string \<times> int) list"
  accounts_by_bank :: "string \<rightharpoonup> int list"
  account_types :: "int \<rightharpoonup> string"

definition bucket :: "('k \<rightharpoonup> 'v list) \<Rightarrow> 'k \<Rightarrow> 'v list" where
  "bucket m k = (case m k of None \<Rightarrow> [] | Some vs \<Rightarrow> vs)"

definition add_to :: "'k \<Rightarrow> 'v \<Rightarrow> ('k \<rightharpoonup> 'v list) \<Rightarrow> ('k \<rightharpoonup> 'v list)" where
  "add_to k v m = m(k \<mapsto> bucket m k @ [v])"

definition expected_account_type :: "string option \<Rightarrow> string option" where
  "expected_account_type email_type =
     (if \<not> truthy email_type then None
      else if sublist ''_cc_'' (or_empty email_type) then Some ''credit_card''
      else if sublist ''_account_'' (or_empty email_type) \<or> sublist ''_dc_'' (or_empty email_type)
      then Some ''bank_account''
      else None)"

definition bank_key_of :: "string \<Rightarrow> string" where
  "bank_key_of bank = py_lower (py_strip bank)"

fun load_accounts :: "account list \<Rightarrow> link_context \<Rightarrow> link_context" where
  "load_accounts [] ctx = ctx"
| "load_accounts (acct # accts) ctx =
     (let key = bank_key_of (a_bank acct);
          ctx = ctx\<lparr>accounts_by_bank := add_to key (a_id acct) (accounts_by_bank ctx)\<rparr>;
          ctx = (if a_type acct \<noteq> []
                 then ctx\<lparr>account_types := (account_types ctx)(a_id acct \<mapsto> a_type acct)\<rparr> else ctx);
          ctx = (if truthy (a_account_number acct)
                 then (let stored = normalize_mask (a_account_number acct) in
                       if stored \<noteq> []
                       then ctx\<lparr>accounts_by_bank_with_masks :=
                              add_to key (stored, a_id acct) (accounts_by_bank_with_masks ctx)\<rparr>
                       else ctx)
                 else ctx)
      in load_accounts accts ctx)"

fun load_cards :: "account list \<Rightarrow> card list \<Rightarrow> link_context \<Rightarrow> link_context" where
  "load_cards accts [] ctx = ctx"
| "load_cards accts (cd # cs) ctx =
     (let stored = normalize_mask (Some (c_card_mask cd)) in
      load_cards accts cs
        (if stored = [] then ctx
         else case find (\<lambda>a. a_id a = c_account_id cd) accts of
             None \<Rightarrow> ctx
           | Some acct \<Rightarrow>
               ctx\<lparr>cards_by_bank := add_to (bank_key_of (a_bank acct))
                      (stored, c_account_id cd, c_id cd) (cards_by_bank ctx)\<rparr>))"

definition empty_context :: link_context where
  "empty_context =
     \<lparr>cards_by_bank = Map.empty, accounts_by_bank_with_masks = Map.empty,
      accounts_by_bank = Map.empty, account_types = Map.empty\<rparr>"

definition build_link_context :: "account list \<Rightarrow> card list \<Rightarrow> link_context" where
  "build_link_context accts cs = load_cards accts cs (load_accounts accts empty_context)"

definition find_card_match :: "link_context \<Rightarrow> string \<Rightarrow> string \<Rightarrow> (int \<times> int) option" where
  "find_card_match ctx bank_key incoming =
     the_single (map snd (filter (\<lambda>(stored, _). mask_matches incoming stored)
                            (bucket (cards_by_bank ctx) bank_key)))"

definition find_account_match :: "link_context \<Rightarrow> string \<Rightarrow> string \<Rightarrow> int option" where
  "find_account_match ctx bank_key incoming =
     the_single (map snd (filter (\<lambda>(stored, _). mask_matches incoming stored)
                            (bucket (accounts_by_bank_with_masks ctx) bank_key)))"

definition bank_only_candidates :: "link_context \<Rightarrow> txn \<Rightarrow> int list" where
  "bank_only_candidates ctx t =
     (let acct_ids = bucket (accounts_by_bank ctx) (bank_key_of (t_bank t)) in
      case expected_account_type (Some (t_email_type t)) of
        None \<Rightarrow> acct_ids
      | Some expected_type \<Rightarrow> filter (\<lambda>a. account_types ctx a = Some expected_type) acct_ids)"

text \<open>The result is Python's return value and the row as \<open>link_transaction\<close> leaves it.\<close>

definition link_transaction :: "link_context \<Rightarrow> txn \<Rightarrow> bool \<times> txn" where
  "link_transaction ctx t =
     (if t_account_id t \<noteq> None then (True, t)
      else
        let bank_key = bank_key_of (t_bank t);
            card_mask = normalize_mask (t_card_mask t);
            account_mask = normalize_mask (t_account_mask t)
        in case (if usable_mask card_mask then find_card_match ctx bank_key card_mask else None) of
          Some (acct_id, card_id) \<Rightarrow> (True, t\<lparr>t_account_id := Some acct_id, t_card_id := Some card_id\<rparr>)
        | None \<Rightarrow>
       (case (if usable_mask card_mask then find_account_match ctx bank_key card_mask else None) of
          Some hit \<Rightarrow> (True, t\<lparr>t_account_id := Some hit\<rparr>)
        | None \<Rightarrow>
       (case (if usable_mask account_mask then find_account_match ctx bank_key account_mask else None) of
          Some hit \<Rightarrow> (True, t\<lparr>t_account_id := Some hit\<rparr>)
        | None \<Rightarrow>
        if \<not> truthy (t_card_mask t) \<and> \<not> truthy (t_account_mask t)
        then (case the_single (bank_only_candidates ctx t) of
                Some acct_id \<Rightarrow> (True, t\<lparr>t_account_id := Some acct_id\<rparr>)
              | None \<Rightarrow> (False, t))
        else (False, t))))"

section \<open>What the context holds\<close>

definition account_masks_in :: "account list \<Rightarrow> string \<Rightarrow> (string \<times> int) list" where
  "account_masks_in accts key =
     map (\<lambda>a. (normalize_mask (a_account_number a), a_id a))
       (filter (\<lambda>a. bank_key_of (a_bank a) = key \<and> normalize_mask (a_account_number a) \<noteq> []) accts)"

definition accounts_in :: "account list \<Rightarrow> string \<Rightarrow> int list" where
  "accounts_in accts key = map a_id (filter (\<lambda>a. bank_key_of (a_bank a) = key) accts)"

definition card_bank :: "account list \<Rightarrow> card \<Rightarrow> string option" where
  "card_bank accts c =
     map_option (\<lambda>a. bank_key_of (a_bank a)) (find (\<lambda>a. a_id a = c_account_id c) accts)"

definition card_masks_in :: "account list \<Rightarrow> card list \<Rightarrow> string \<Rightarrow> (string \<times> int \<times> int) list" where
  "card_masks_in accts cs key =
     map (\<lambda>c. (normalize_mask (Some (c_card_mask c)), c_account_id c, c_id c))
       (filter (\<lambda>c. normalize_mask (Some (c_card_mask c)) \<noteq> [] \<and> card_bank accts c = Some key) cs)"

lemma bucket_add_to: "bucket (add_to k v m) j = bucket m j @ (if j = k then [v] else [])"
  by (auto simp: bucket_def add_to_def)

lemma bucket_empty [simp]: "bucket Map.empty k = []"
  by (simp add: bucket_def)

lemma not_truthy_normalize: "\<not> truthy s \<Longrightarrow> normalize_mask s = []"
  by (simp add: normalize_mask_def)

lemma load_accounts_buckets:
  "bucket (accounts_by_bank (load_accounts accts ctx)) key =
     bucket (accounts_by_bank ctx) key @ accounts_in accts key"
  "bucket (accounts_by_bank_with_masks (load_accounts accts ctx)) key =
     bucket (accounts_by_bank_with_masks ctx) key @ account_masks_in accts key"
  "cards_by_bank (load_accounts accts ctx) = cards_by_bank ctx"
  by (induction accts ctx rule: load_accounts.induct)
     (auto simp: accounts_in_def account_masks_in_def bucket_add_to Let_def not_truthy_normalize)

lemma load_accounts_types_notin:
  "i \<notin> a_id ` set accts \<Longrightarrow> account_types (load_accounts accts ctx) i = account_types ctx i"
  by (induction accts ctx rule: load_accounts.induct) (auto simp: Let_def)

lemma load_accounts_types:
  "distinct (map a_id accts) \<Longrightarrow> a \<in> set accts \<Longrightarrow> account_types ctx (a_id a) = None \<Longrightarrow>
   account_types (load_accounts accts ctx) (a_id a) = (if a_type a \<noteq> [] then Some (a_type a) else None)"
proof (induction accts ctx rule: load_accounts.induct)
  case (1 ctx)
  then show ?case by simp
next
  case (2 acct accts ctx)
  show ?case
  proof (cases "a = acct")
    case True
    then have "a_id a \<notin> a_id ` set accts" using "2.prems" by auto
    then show ?thesis using True "2.prems"(3)
      by (auto simp: Let_def load_accounts_types_notin)
  next
    case False
    then have "a \<in> set accts" using "2.prems"(2) by simp
    moreover from this have "a_id a \<noteq> a_id acct" using "2.prems"(1) by (auto simp: image_iff)
    ultimately have "a \<in> set accts" "a_id a \<noteq> a_id acct" by auto
    then show ?thesis using 2 by (simp add: Let_def)
  qed
qed

lemma load_cards_frame [simp]:
  "accounts_by_bank (load_cards accts cs ctx) = accounts_by_bank ctx"
  "accounts_by_bank_with_masks (load_cards accts cs ctx) = accounts_by_bank_with_masks ctx"
  "account_types (load_cards accts cs ctx) = account_types ctx"
  by (induction accts cs ctx rule: load_cards.induct) (auto simp: Let_def split: option.splits)

lemma load_cards_buckets:
  "bucket (cards_by_bank (load_cards accts cs ctx)) key =
     bucket (cards_by_bank ctx) key @ card_masks_in accts cs key"
  by (induction accts cs ctx rule: load_cards.induct)
     (auto simp: card_masks_in_def card_bank_def bucket_add_to Let_def split: option.splits)

lemma build_link_context_buckets:
  "bucket (accounts_by_bank (build_link_context accts cs)) key = accounts_in accts key"
  "bucket (accounts_by_bank_with_masks (build_link_context accts cs)) key = account_masks_in accts key"
  "bucket (cards_by_bank (build_link_context accts cs)) key = card_masks_in accts cs key"
  by (simp_all add: build_link_context_def load_accounts_buckets load_cards_buckets empty_context_def)

lemma build_link_context_types:
  "distinct (map a_id accts) \<Longrightarrow> a \<in> set accts \<Longrightarrow>
   account_types (build_link_context accts cs) (a_id a) =
     (if a_type a \<noteq> [] then Some (a_type a) else None)"
  by (simp add: build_link_context_def load_accounts_types empty_context_def)

lemma build_link_context_types_notin:
  "i \<notin> a_id ` set accts \<Longrightarrow> account_types (build_link_context accts cs) i = None"
  by (simp add: build_link_context_def load_accounts_types_notin empty_context_def)

section \<open>The specification: a query over the account and card tables\<close>

definition card_candidates :: "account list \<Rightarrow> card list \<Rightarrow> string \<Rightarrow> string \<Rightarrow> card list" where
  "card_candidates accts cs key m =
     filter (\<lambda>c. card_bank accts c = Some key \<and>
                 mask_matches m (normalize_mask (Some (c_card_mask c)))) cs"

definition account_candidates :: "account list \<Rightarrow> string \<Rightarrow> string \<Rightarrow> account list" where
  "account_candidates accts key m =
     filter (\<lambda>a. bank_key_of (a_bank a) = key \<and>
                 mask_matches m (normalize_mask (a_account_number a))) accts"

definition bank_candidates :: "account list \<Rightarrow> txn \<Rightarrow> account list" where
  "bank_candidates accts t =
     filter (\<lambda>a. bank_key_of (a_bank a) = bank_key_of (t_bank t) \<and>
                 (case expected_account_type (Some (t_email_type t)) of
                    None \<Rightarrow> True | Some ty \<Rightarrow> a_type a = ty)) accts"

text \<open>The account (and card) a row is linked to: the first rule with exactly one candidate.\<close>

definition link_target :: "account list \<Rightarrow> card list \<Rightarrow> txn \<Rightarrow> (int \<times> int option) option" where
  "link_target accts cs t =
     (let key = bank_key_of (t_bank t);
          cm = normalize_mask (t_card_mask t);
          am = normalize_mask (t_account_mask t);
          by_card = (if usable_mask cm then the_single (card_candidates accts cs key cm) else None);
          by_card_number = (if usable_mask cm then the_single (account_candidates accts key cm) else None);
          by_number = (if usable_mask am then the_single (account_candidates accts key am) else None);
          by_bank = (if \<not> truthy (t_card_mask t) \<and> \<not> truthy (t_account_mask t)
                     then the_single (bank_candidates accts t) else None)
      in case by_card of
           Some c \<Rightarrow> Some (c_account_id c, Some (c_id c))
         | None \<Rightarrow>
             map_option (\<lambda>a. (a_id a, t_card_id t))
               (case by_card_number of Some a \<Rightarrow> Some a
                | None \<Rightarrow> (case by_number of Some a \<Rightarrow> Some a | None \<Rightarrow> by_bank)))"

lemma the_single_map: "the_single (map f xs) = map_option f (the_single xs)"
  by (auto simp: the_single_def split: list.splits)

lemma map_snd_filter_map:
  "map snd (filter P (map f (filter Q xs))) = map (snd \<circ> f) (filter (\<lambda>x. Q x \<and> P (f x)) xs)"
  by (induction xs) auto

lemma find_card_match_build:
  "find_card_match (build_link_context accts cs) key m =
     map_option (\<lambda>c. (c_account_id c, c_id c)) (the_single (card_candidates accts cs key m))"
proof -
  have "filter (\<lambda>c. (normalize_mask (Some (c_card_mask c)) \<noteq> [] \<and> card_bank accts c = Some key) \<and>
               mask_matches m (normalize_mask (Some (c_card_mask c)))) cs =
        card_candidates accts cs key m"
    unfolding card_candidates_def by (rule filter_cong) auto
  then show ?thesis
    by (simp add: find_card_match_def build_link_context_buckets card_masks_in_def
          map_snd_filter_map the_single_map o_def split_def)
qed

lemma find_account_match_build:
  "find_account_match (build_link_context accts cs) key m =
     map_option a_id (the_single (account_candidates accts key m))"
proof -
  have "filter (\<lambda>a. (bank_key_of (a_bank a) = key \<and> normalize_mask (a_account_number a) \<noteq> []) \<and>
               mask_matches m (normalize_mask (a_account_number a))) accts =
        account_candidates accts key m"
    unfolding account_candidates_def by (rule filter_cong) auto
  then show ?thesis
    by (simp add: find_account_match_def build_link_context_buckets account_masks_in_def
          map_snd_filter_map the_single_map o_def split_def)
qed

lemma expected_type_nonempty: "expected_account_type e = Some ty \<Longrightarrow> ty \<noteq> []"
  by (auto simp: expected_account_type_def split: if_splits)

lemma bank_only_candidates_build:
  assumes "distinct (map a_id accts)"
  shows "bank_only_candidates (build_link_context accts cs) t = map a_id (bank_candidates accts t)"
proof -
  have type: "account_types (build_link_context accts cs) (a_id a) = Some ty \<longleftrightarrow> a_type a = ty"
    if "a \<in> set accts" "ty \<noteq> []" for a ty
    using build_link_context_types[OF assms that(1), of cs] that(2) by auto
  show ?thesis
  proof (cases "expected_account_type (Some (t_email_type t))")
    case None
    then show ?thesis
      by (simp add: bank_only_candidates_def build_link_context_buckets accounts_in_def
            bank_candidates_def)
  next
    case (Some ty)
    have "filter (\<lambda>a. account_types (build_link_context accts cs) (a_id a) = Some ty)
            (filter (\<lambda>a. bank_key_of (a_bank a) = bank_key_of (t_bank t)) accts) =
          bank_candidates accts t"
      using Some type[OF _ expected_type_nonempty[OF Some]]
      by (auto simp: bank_candidates_def intro!: filter_cong)
    then show ?thesis using Some
      by (simp add: bank_only_candidates_def build_link_context_buckets accounts_in_def
            filter_map o_def)
  qed
qed

lemma set_card_id_same: "t\<lparr>t_account_id := x, t_card_id := t_card_id t\<rparr> = t\<lparr>t_account_id := x\<rparr>"
  by (cases t) simp

lemma if_map_option:
  "(if b then map_option f x else None) = map_option f (if b then x else None)"
  by simp

lemma link_transaction_target:
  assumes "distinct (map a_id accts)" "t_account_id t = None"
  shows "link_transaction (build_link_context accts cs) t =
    (case link_target accts cs t of
       None \<Rightarrow> (False, t)
     | Some (acct, cd) \<Rightarrow> (True, t\<lparr>t_account_id := Some acct, t_card_id := cd\<rparr>))"
proof -
  let ?key = "bank_key_of (t_bank t)" and ?cm = "normalize_mask (t_card_mask t)"
    and ?am = "normalize_mask (t_account_mask t)"
  define r1 where "r1 = (if usable_mask ?cm then the_single (card_candidates accts cs ?key ?cm) else None)"
  define r2 where "r2 = (if usable_mask ?cm then the_single (account_candidates accts ?key ?cm) else None)"
  define r3 where "r3 = (if usable_mask ?am then the_single (account_candidates accts ?key ?am) else None)"
  define r4 where "r4 = the_single (bank_candidates accts t)"
  note folds = r1_def[symmetric] r2_def[symmetric] r3_def[symmetric] r4_def[symmetric]
  show ?thesis
    unfolding link_transaction_def link_target_def Let_def find_card_match_build
      find_account_match_build bank_only_candidates_build[OF assms(1)] the_single_map if_map_option folds
    using assms(2)
    by (cases r1; cases r2; cases r3; cases r4) (simp_all add: set_card_id_same)
qed

lemma card_bank_perm:
  assumes "mset accts = mset accts'" "distinct (map a_id accts)"
  shows "card_bank accts c = card_bank accts' c"
proof -
  have "find (\<lambda>a. a_id a = i) accts = find (\<lambda>a. a_id a = i) accts'" for i
  proof -
    have d': "distinct (map a_id accts')"
      using assms by (metis mset_eq_imp_distinct_iff mset_map)
    have s: "set accts = set accts'" using assms(1) by (metis mset_eq_setD)
    have f: "find (\<lambda>a. a_id a = i) xs = Some a \<longleftrightarrow> a \<in> set xs \<and> a_id a = i"
      if "distinct (map a_id xs)" for xs a
      using that by (induction xs) (auto simp: image_iff)
    have "find (\<lambda>a. a_id a = i) accts = Some a \<longleftrightarrow> find (\<lambda>a. a_id a = i) accts' = Some a" for a
      using f[OF assms(2)] f[OF d'] s by simp
    then show ?thesis by (metis not_Some_eq)
  qed
  then show ?thesis by (simp add: card_bank_def)
qed

lemma link_target_perm:
  assumes "mset accts = mset accts'" "mset cs = mset cs'" "distinct (map a_id accts)"
  shows "link_target accts cs t = link_target accts' cs' t"
proof -
  have 1: "the_single (card_candidates accts cs key m) = the_single (card_candidates accts' cs' key m)"
    for key m
    using card_bank_perm[OF assms(1,3)] assms(2)
    by (auto simp: card_candidates_def intro!: pick.sel_filter_perm)
  have 2: "the_single (account_candidates accts key m) = the_single (account_candidates accts' key m)"
    for key m
    by (auto simp: account_candidates_def intro!: pick.sel_filter_perm assms(1))
  have 3: "the_single (bank_candidates accts t) = the_single (bank_candidates accts' t)"
    by (auto simp: bank_candidates_def intro!: pick.sel_filter_perm assms(1))
  show ?thesis unfolding link_target_def 1 2 3 ..
qed

section \<open>Properties\<close>

text \<open>C39. The lookup tables and the four-level cascade implement the declarative target: a row without
  an account gets the account (and card) of the single card whose mask matches, else of the single
  account whose number matches its card mask, else its account mask, else, when it shows no mask, the
  single account of its bank and type; it stays unlinked when no level has a single candidate.\<close>

theorem link_transaction_refines_target:
  assumes "distinct (map a_id accts)" "t_account_id t = None"
  shows "link_transaction (build_link_context accts cs) t =
    (case link_target accts cs t of
       None \<Rightarrow> (False, t)
     | Some (acct, cd) \<Rightarrow> (True, t\<lparr>t_account_id := Some acct, t_card_id := cd\<rparr>))"
  by (rule link_transaction_target[OF assms])

theorem link_transaction_refines_target_witness:
  "link_transaction (build_link_context [blank_account] []) blank_txn =
    (case link_target [blank_account] [] blank_txn of
       None \<Rightarrow> (False, blank_txn)
     | Some (acct, cd) \<Rightarrow> (True, blank_txn\<lparr>t_account_id := Some acct, t_card_id := cd\<rparr>))"
  by (rule link_transaction_refines_target) (simp_all add: blank_txn_def)

text \<open>Linking does not depend on the order in which the database returns the accounts and the
  cards: two ambiguous candidates are never decided by their position.\<close>

theorem link_transaction_order:
  assumes "mset accts = mset accts'" "mset cs = mset cs'" "distinct (map a_id accts)"
  shows "link_transaction (build_link_context accts cs) t = link_transaction (build_link_context accts' cs') t"
proof (cases "t_account_id t")
  case None
  have "distinct (map a_id accts')"
    using assms(1,3) by (metis mset_eq_imp_distinct_iff mset_map)
  then show ?thesis
    using link_transaction_target[OF assms(3) None] link_transaction_target[of accts', OF _ None]
      link_target_perm[OF assms] by simp
qed (simp add: link_transaction_def)

theorem link_transaction_order_witness:
  "link_transaction (build_link_context [blank_account, blank_account\<lparr>a_id := 2\<rparr>] []) blank_txn =
   link_transaction (build_link_context [blank_account\<lparr>a_id := 2\<rparr>, blank_account] []) blank_txn"
  by (rule link_transaction_order) (simp_all add: blank_account_def)

end
