(* ===== verification/Txn_Match.thy ===== *)
theory Txn_Match
  imports Linker
begin

text \<open>
  The matcher of \<^verbatim>\<open>services/txn_merge.py\<close>: \<open>find_match\<close> decides whether an incoming event is a
  stored row (\<open>DMatch\<close>), a new one (\<open>DInsert\<close>) or too ambiguous to decide (\<open>DDefer\<close>). An SQL query
  is a filter over the rows of the table; a comparison with a NULL column is not true. The
  optional \<open>MatchEvidence\<close> log, which never feeds back into the decision, is left out.

  An incoming event is the dict that the SMS and the email pipeline build. They write every key,
  but \<open>counterparty_source\<close> (the SMS pipeline leaves it out: \<open>None\<close>) and \<open>card_holder\<close> (never written).
\<close>

section \<open>Data\<close>

datatype channel = Sms | Email

datatype match_kind = Standard | Am_pm_alias | Ref_amount_mismatch

datatype deferral_reason =
    Reference_amount_mismatch | Reference_balance_mismatch | Multiple_reference_candidates
  | Balance_ambiguous | Multiple_candidates | Source_slot_filled | Source_slot_conflict

datatype match_decision =
    DMatch txn match_kind
  | DInsert
  | DDefer "match_kind option" deferral_reason "int list"

record txn_data =
  d_bank :: string
  d_email_type :: string
  d_direction :: string
  d_amount :: decimal
  d_currency :: "string option"
  d_transaction_date :: "date option"
  d_transaction_time :: "time option"
  d_counterparty :: "string option"
  d_card_mask :: "string option"
  d_card_holder :: "string option"
  d_account_mask :: "string option"
  d_reference_number :: "string option"
  d_channel :: "string option"
  d_balance :: "decimal option"
  d_raw_description :: "string option"
  d_time_is_received_time :: bool
  d_identifies_by :: string
  d_counterparty_source :: "string option"

text \<open>A concrete event, used by the examples that evaluate the model.\<close>

definition blank_data :: txn_data where
  "blank_data =
     \<lparr>d_bank = ''hdfc'', d_email_type = ''hdfc_upi_alert'', d_direction = ''debit'', d_amount = 100,
      d_currency = Some ''INR'', d_transaction_date = None, d_transaction_time = None,
      d_counterparty = None, d_card_mask = None, d_card_holder = None, d_account_mask = None, d_reference_number = None,
      d_channel = None, d_balance = None, d_raw_description = None, d_time_is_received_time = False,
      d_identifies_by = ''counterparty'', d_counterparty_source = None\<rparr>"

definition FUZZY_MATCH_WINDOW_MINUTES :: int where
  "FUZZY_MATCH_WINDOW_MINUTES = 10"

definition RECEIVED_TIME_WINDOW_MINUTES :: int where
  "RECEIVED_TIME_WINDOW_MINUTES = 1"

definition AMBIGUOUS_12H_TIME_EMAIL_TYPES :: "string list" where
  "AMBIGUOUS_12H_TIME_EMAIL_TYPES = [''icici_cc_transaction_alert'']"

text \<open>\<open>timedelta(minutes = n)\<close>, \<open>datetime.combine\<close> and \<open>datetime.date()\<close> in microseconds.\<close>

definition day_us :: int where "day_us = 86400000000"

definition minutes :: "int \<Rightarrow> int" where "minutes n = n * 60000000"

definition hours :: "int \<Rightarrow> int" where "hours n = n * 3600000000"

definition combine :: "date \<Rightarrow> time \<Rightarrow> datetime" where "combine d t = d * day_us + t"

definition date_of :: "datetime \<Rightarrow> date" where "date_of dt = dt div day_us"

definition hour_of :: "time \<Rightarrow> int" where "hour_of t = t div 3600000000"

definition valid_time :: "time \<Rightarrow> bool" where "valid_time t \<longleftrightarrow> 0 \<le> t \<and> t < day_us"

section \<open>Field comparisons\<close>

text \<open>\<open>Decimal.quantize(Decimal("0.01"))\<close> rounds half to even.\<close>

definition round_half_even :: "rat \<Rightarrow> int" where
  "round_half_even x =
     (let f = \<lfloor>x\<rfloor>; r = x - of_int f in
      if r < 1 / 2 then f else if 1 / 2 < r then f + 1 else if even f then f else f + 1)"

definition quantize2 :: "decimal \<Rightarrow> decimal" where
  "quantize2 v = of_int (round_half_even (v * 100)) / 100"

definition quantize_balance :: "decimal option \<Rightarrow> decimal option" where
  "quantize_balance v = map_option quantize2 v"

definition slot_of :: "channel \<Rightarrow> txn \<Rightarrow> int option" where
  "slot_of ch c = (case ch of Sms \<Rightarrow> t_sms_message_id c | Email \<Rightarrow> t_email_id c)"

definition slot_open :: "txn \<Rightarrow> channel \<Rightarrow> bool" where
  "slot_open c ch \<longleftrightarrow> slot_of ch c = None"

definition normalize_counterparty :: "string option \<Rightarrow> string" where
  "normalize_counterparty s = (if \<not> truthy s then [] else filter py_isalnum (py_lower (or_empty s)))"

definition counterparty_match :: "string option \<Rightarrow> string option \<Rightarrow> bool" where
  "counterparty_match a b =
     (let na = normalize_counterparty a; nb = normalize_counterparty b in
      if na = [] \<or> nb = [] then False else sublist na nb \<or> sublist nb na)"

definition starts_with :: "string \<Rightarrow> string \<Rightarrow> bool" where
  "starts_with p s \<longleftrightarrow> prefix p s"

definition card_screenshot_fits :: "txn \<Rightarrow> txn_data \<Rightarrow> bool" where
  "card_screenshot_fits c d =
     (if \<not> (starts_with ''screenshot'' (or_empty (t_source c)) \<and> starts_with ''card_'' (t_email_type c))
      then True
      else if normalize_mask (d_account_mask d) \<noteq> [] \<or>
              expected_account_type (Some (d_email_type d)) = Some ''bank_account''
      then False
      else
        let incoming = normalize_mask (d_card_mask d); stored = normalize_mask (t_card_mask c) in
        incoming = [] \<or> (stored \<noteq> [] \<and> mask_matches incoming stored))"

definition card_payment_mask_match :: "txn \<Rightarrow> txn_data \<Rightarrow> bool" where
  "card_payment_mask_match c d =
     (if t_identifies_by c \<noteq> ''card_mask'' then False
      else if d_identifies_by d \<noteq> ''card_mask'' then False
      else
        let stored = normalize_mask (t_card_mask c); incoming = normalize_mask (d_card_mask d) in
        if stored = [] \<or> incoming = [] then False
        else if last stored = WILDCARD \<or> last incoming = WILDCARD then False
        else mask_matches incoming stored \<or> mask_matches stored incoming)"

definition no_field_identifies_the_event :: "txn \<Rightarrow> txn_data \<Rightarrow> bool" where
  "no_field_identifies_the_event c d \<longleftrightarrow> t_identifies_by c = ''none'' \<and> d_identifies_by d = ''none''"

definition account_compatible :: "string \<Rightarrow> txn \<Rightarrow> bool" where
  "account_compatible incoming c =
     (let stored = normalize_mask (t_account_mask c) in
      stored = [] \<or> mask_matches incoming stored \<or> mask_matches stored incoming)"

section \<open>Fuzzy candidates\<close>

definition currency_or_inr :: "string option \<Rightarrow> string" where
  "currency_or_inr c = (if truthy c then or_empty c else ''INR'')"

definition coalesce_inr :: "string option \<Rightarrow> string" where
  "coalesce_inr c = (case c of None \<Rightarrow> ''INR'' | Some s \<Rightarrow> s)"

definition window_minutes :: "txn_data \<Rightarrow> int" where
  "window_minutes d =
     (if d_time_is_received_time d then RECEIVED_TIME_WINDOW_MINUTES else FUZZY_MATCH_WINDOW_MINUTES)"

text \<open>The immutable identity gates of every query of the matcher.\<close>

definition same_identity :: "txn \<Rightarrow> txn_data \<Rightarrow> bool" where
  "same_identity c d \<longleftrightarrow> t_bank c = d_bank d \<and> t_direction c = d_direction d \<and> t_amount c = d_amount d"

definition in_date_range :: "date \<Rightarrow> date \<Rightarrow> txn \<Rightarrow> bool" where
  "in_date_range lo hi c = (case t_transaction_date c of None \<Rightarrow> False | Some x \<Rightarrow> lo \<le> x \<and> x \<le> hi)"

definition event_time :: "txn \<Rightarrow> datetime" where
  "event_time c = combine (the (t_transaction_date c)) (the (t_transaction_time c))"

definition in_window :: "datetime \<Rightarrow> int \<Rightarrow> txn \<Rightarrow> bool" where
  "in_window anchor window c =
     (if t_transaction_time c = None then True
      else
        let c_dt = event_time c in
        if t_time_is_received_time c \<and>
           \<not> (c_dt - minutes RECEIVED_TIME_WINDOW_MINUTES \<le> anchor \<and>
              anchor \<le> c_dt + minutes RECEIVED_TIME_WINDOW_MINUTES)
        then False
        else anchor - minutes window \<le> c_dt \<and> c_dt \<le> anchor + minutes window)"

text \<open>The SQL query: identity, currency and the date window.\<close>

definition query_candidates :: "txn list \<Rightarrow> txn_data \<Rightarrow> string option \<Rightarrow> date \<Rightarrow> txn list" where
  "query_candidates rows d currency_filter txn_date =
     (let incoming_currency = (case currency_filter of None \<Rightarrow> currency_or_inr (d_currency d) | Some s \<Rightarrow> s);
          w = minutes (window_minutes d);
          (date_lower, date_upper) =
            (case d_transaction_time d of
               None \<Rightarrow> (txn_date, txn_date)
             | Some tm \<Rightarrow> (date_of (combine txn_date tm - w), date_of (combine txn_date tm + w)))
      in filter (\<lambda>c. same_identity c d \<and> coalesce_inr (t_currency c) = incoming_currency \<and>
                      in_date_range date_lower date_upper c) rows)"

text \<open>The filters in Python: the time window, the account, the card of a screenshot row.\<close>

definition passes_gates :: "txn_data \<Rightarrow> date \<Rightarrow> txn \<Rightarrow> bool" where
  "passes_gates d txn_date c \<longleftrightarrow>
     (case d_transaction_time d of None \<Rightarrow> True
      | Some tm \<Rightarrow> in_window (combine txn_date tm) (window_minutes d) c) \<and>
     (normalize_mask (d_account_mask d) = [] \<or> account_compatible (normalize_mask (d_account_mask d)) c) \<and>
     card_screenshot_fits c d"

text \<open>The counterparty, card-mask and no-identity gates: they keep a subset of the candidates.\<close>

definition narrow_candidates :: "txn_data \<Rightarrow> txn list \<Rightarrow> txn list" where
  "narrow_candidates d cands =
     (let by_cp = filter (\<lambda>c. counterparty_match (t_counterparty c) (d_counterparty d)) cands in
      if d_transaction_time d = None \<or> list_ex (\<lambda>c. t_transaction_time c = None) cands
      then (if by_cp \<noteq> [] then by_cp
            else
              let by_mask = filter (\<lambda>c. card_payment_mask_match c d) cands in
              if by_mask \<noteq> [] then by_mask
              else filter (\<lambda>c. no_field_identifies_the_event c d) cands)
      else if 1 < length cands \<and> by_cp \<noteq> [] then by_cp
      else cands)"

definition gather_fuzzy_candidates :: "txn list \<Rightarrow> txn_data \<Rightarrow> string option \<Rightarrow> txn list" where
  "gather_fuzzy_candidates rows d currency_filter =
     (case d_transaction_date d of
        None \<Rightarrow> []
      | Some txn_date \<Rightarrow>
          narrow_candidates d
            (filter (passes_gates d txn_date) (query_candidates rows d currency_filter txn_date)))"

section \<open>The balance and slot decision\<close>

definition ref_of :: "string option \<Rightarrow> string" where
  "ref_of r = py_strip (or_empty r)"

definition normalize_reference :: "string option \<Rightarrow> string" where
  "normalize_reference r = filter py_isalnum (py_upper (or_empty r))"

definition shortened_reference_match :: "string option \<Rightarrow> string option \<Rightarrow> bool" where
  "shortened_reference_match a b =
     (let x = normalize_reference a; y = normalize_reference b in
      if min (length x) (length y) < 4 then False
      else prefix y x \<or> prefix x y \<or> suffix y x \<or> suffix x y)"

definition channel_name :: "channel \<Rightarrow> string" where
  "channel_name ch = (case ch of Sms \<Rightarrow> ''sms'' | Email \<Rightarrow> ''email'')"

definition references_prove_distinct :: "string \<Rightarrow> string \<Rightarrow> channel \<Rightarrow> txn \<Rightarrow> bool" where
  "references_prove_distinct incoming_ref incoming_email_type ch c =
     (let candidate_ref = ref_of (t_reference_number c) in
      if candidate_ref = [] \<or> incoming_ref = [] then False
      else if t_email_type c \<noteq> incoming_email_type then False
      else if t_source c \<noteq> Some (channel_name ch) then False
      else if candidate_ref = incoming_ref then False
      else \<not> shortened_reference_match (Some incoming_ref) (Some candidate_ref))"

definition is_source_row :: "txn \<Rightarrow> channel \<Rightarrow> int option \<Rightarrow> bool" where
  "is_source_row c ch source_id = (case source_id of None \<Rightarrow> False | Some i \<Rightarrow> slot_of ch c = Some i)"

text \<open>\<open>re.compile(r"\d{12}").fullmatch\<close>: twelve digits.\<close>

definition is_utr :: "string \<Rightarrow> bool" where
  "is_utr s \<longleftrightarrow> length s = 12 \<and> list_all ascii_digit s"

definition utr_keeps :: "string \<Rightarrow> channel \<Rightarrow> int option \<Rightarrow> txn \<Rightarrow> bool" where
  "utr_keeps incoming_ref ch source_id c \<longleftrightarrow>
     is_source_row c ch source_id \<or>
     \<not> starts_with ''screenshot'' (or_empty (t_source c)) \<or>
     \<not> is_utr incoming_ref \<or>
     \<not> is_utr (or_empty (t_reference_number c)) \<or>
     t_reference_number c = Some incoming_ref"

definition decide_with_balance :: "txn list \<Rightarrow> decimal \<Rightarrow> match_decision" where
  "decide_with_balance cands incoming_balance =
     (let cands = filter (\<lambda>c. t_balance c = None \<or>
                              quantize_balance (t_balance c) = Some incoming_balance) cands in
      if cands = [] then DInsert
      else
        let eq = filter (\<lambda>c. t_balance c \<noteq> None \<and>
                             quantize_balance (t_balance c) = Some incoming_balance) cands in
        case eq of
          [c] \<Rightarrow> DMatch c Standard
        | _ \<Rightarrow> DDefer None Balance_ambiguous (map t_id cands))"

definition decide_without_balance ::
    "txn list \<Rightarrow> string \<Rightarrow> txn_data \<Rightarrow> channel \<Rightarrow> int option \<Rightarrow> match_decision" where
  "decide_without_balance cands incoming_ref d ch source_id =
     (let cands = (if incoming_ref \<noteq> []
                   then filter (\<lambda>c. is_source_row c ch source_id \<or>
                          \<not> references_prove_distinct incoming_ref (d_email_type d) ch c) cands
                   else cands) in
      if cands = [] then DInsert
      else
        let balanceless = filter (\<lambda>c. t_balance c = None) cands;
            open_bl = filter (\<lambda>c. slot_open c ch) balanceless
        in if length cands = 1 \<and> length balanceless = 1 \<and> length open_bl = 1
           then DMatch (hd cands) Standard
           else DDefer None
                  (if 1 < length cands then Multiple_candidates
                   else if open_bl = [] then Source_slot_filled
                   else Balance_ambiguous)
                  (map t_id cands))"

definition decide :: "txn list \<Rightarrow> txn_data \<Rightarrow> channel \<Rightarrow> int option \<Rightarrow> match_decision" where
  "decide cands d ch source_id =
     (if cands = [] then DInsert
      else
        let incoming_ref = ref_of (d_reference_number d);
            cands = filter (utr_keeps incoming_ref ch source_id) cands
        in if cands = [] then DInsert
           else case quantize_balance (d_balance d) of
                  Some b \<Rightarrow> decide_with_balance cands b
                | None \<Rightarrow> decide_without_balance cands incoming_ref d ch source_id)"

section \<open>Explicit matches, the AM/PM alias and \<open>find_match\<close>\<close>

definition normalized_currency :: "string option \<Rightarrow> string" where
  "normalized_currency v = py_upper (py_strip (currency_or_inr v))"

definition plausible_event_time :: "txn \<Rightarrow> txn_data \<Rightarrow> bool" where
  "plausible_event_time target d =
     (case (d_transaction_date d, t_transaction_date target) of
        (Some incoming_date, Some target_date) \<Rightarrow>
          (case d_transaction_time d of
             None \<Rightarrow> target_date = incoming_date
           | Some incoming_time \<Rightarrow>
               let point = combine incoming_date incoming_time;
                   w = minutes FUZZY_MATCH_WINDOW_MINUTES
               in case t_transaction_time target of
                    None \<Rightarrow> date_of (point - w) \<le> target_date \<and> target_date \<le> date_of (point + w)
                  | Some target_time \<Rightarrow> \<bar>combine target_date target_time - point\<bar> \<le> w)
      | _ \<Rightarrow> False)"

text \<open>Both balances are known and differ.\<close>

definition balances_contradict :: "txn \<Rightarrow> txn_data \<Rightarrow> bool" where
  "balances_contradict c d \<longleftrightarrow>
     quantize_balance (d_balance d) \<noteq> None \<and> quantize_balance (t_balance c) \<noteq> None \<and>
     quantize_balance (d_balance d) \<noteq> quantize_balance (t_balance c)"

definition qualifies_as_explicit_match :: "txn list \<Rightarrow> txn \<Rightarrow> txn_data \<Rightarrow> bool" where
  "qualifies_as_explicit_match rows target d =
     (if \<not> same_identity target d \<or>
         normalized_currency (t_currency target) \<noteq> normalized_currency (d_currency d) \<or>
         \<not> plausible_event_time target d
      then False
      else if balances_contradict target d then False
      else if list_ex (\<lambda>c. t_id c = t_id target)
                (gather_fuzzy_candidates rows d (Some (coalesce_inr (t_currency target))))
      then True
      else shortened_reference_match (t_reference_number target) (d_reference_number d))"

definition alias_minus :: "datetime \<Rightarrow> time \<Rightarrow> txn \<Rightarrow> bool" where
  "alias_minus anchor incoming_time c \<longleftrightarrow>
     12 \<le> hour_of incoming_time \<and>
     1 \<le> hour_of (the (t_transaction_time c)) \<and> hour_of (the (t_transaction_time c)) < 12 \<and>
     anchor - hours 12 - minutes FUZZY_MATCH_WINDOW_MINUTES \<le> event_time c \<and>
     event_time c \<le> anchor - hours 12 + minutes FUZZY_MATCH_WINDOW_MINUTES"

definition alias_plus :: "datetime \<Rightarrow> time \<Rightarrow> txn \<Rightarrow> bool" where
  "alias_plus anchor incoming_time c \<longleftrightarrow>
     hour_of incoming_time < 12 \<and>
     hour_of (the (t_transaction_time c)) = 12 \<and>
     anchor + hours 12 - minutes FUZZY_MATCH_WINDOW_MINUTES \<le> event_time c \<and>
     event_time c \<le> anchor + hours 12 + minutes FUZZY_MATCH_WINDOW_MINUTES"

definition alias_date_clause :: "datetime \<Rightarrow> time \<Rightarrow> txn \<Rightarrow> bool" where
  "alias_date_clause anchor incoming_time c \<longleftrightarrow>
     (12 \<le> hour_of incoming_time \<and>
        in_date_range (date_of (anchor - hours 12 - minutes FUZZY_MATCH_WINDOW_MINUTES))
          (date_of (anchor - hours 12 + minutes FUZZY_MATCH_WINDOW_MINUTES)) c) \<or>
     (hour_of incoming_time < 12 \<and>
        in_date_range (date_of (anchor + hours 12 - minutes FUZZY_MATCH_WINDOW_MINUTES))
          (date_of (anchor + hours 12 + minutes FUZZY_MATCH_WINDOW_MINUTES)) c)"

definition find_am_pm_alias_match :: "txn list \<Rightarrow> txn_data \<Rightarrow> date \<Rightarrow> time \<Rightarrow> txn option" where
  "find_am_pm_alias_match rows d txn_date incoming_time =
     (if \<not> truthy (d_counterparty d) then None
      else
        let anchor = combine txn_date incoming_time;
            rows = filter (\<lambda>c. same_identity c d \<and>
                      coalesce_inr (t_currency c) = currency_or_inr (d_currency d) \<and>
                      t_email_type c \<in> set AMBIGUOUS_12H_TIME_EMAIL_TYPES \<and>
                      t_transaction_time c \<noteq> None \<and> t_transaction_date c \<noteq> None \<and>
                      alias_date_clause anchor incoming_time c) rows;
            cands = filter (\<lambda>c. alias_minus anchor incoming_time c \<or> alias_plus anchor incoming_time c) rows;
            cands = filter (\<lambda>c. counterparty_match (t_counterparty c) (d_counterparty d)) cands
        in the_single cands)"

definition rows_with_reference :: "txn list \<Rightarrow> txn_data \<Rightarrow> string \<Rightarrow> txn list" where
  "rows_with_reference rows d ref =
     filter (\<lambda>c. t_bank c = d_bank d \<and> t_direction c = d_direction d \<and> t_reference_number c = Some ref) rows"

definition find_fuzzy :: "txn list \<Rightarrow> txn_data \<Rightarrow> channel \<Rightarrow> int option \<Rightarrow> match_decision" where
  "find_fuzzy rows d ch source_id =
     (let cands = gather_fuzzy_candidates rows d None in
      if cands \<noteq> [] then decide cands d ch source_id
      else case (d_transaction_date d, d_transaction_time d) of
          (Some txn_date, Some incoming_time) \<Rightarrow>
            (case find_am_pm_alias_match rows d txn_date incoming_time of
               None \<Rightarrow> DInsert
             | Some aliased \<Rightarrow> if balances_contradict aliased d then DInsert else DMatch aliased Am_pm_alias)
        | _ \<Rightarrow> DInsert)"

definition find_match :: "txn list \<Rightarrow> txn_data \<Rightarrow> channel \<Rightarrow> int option \<Rightarrow> match_decision" where
  "find_match rows d ch source_id =
     (let ref = ref_of (d_reference_number d) in
      if ref = [] then find_fuzzy rows d ch source_id
      else
        let hits = take 2 (rows_with_reference rows d ref) in
        case hits of
          [] \<Rightarrow> find_fuzzy rows d ch source_id
        | [c] \<Rightarrow>
            if t_amount c \<noteq> d_amount d
            then DDefer (Some Ref_amount_mismatch) Reference_amount_mismatch []
            else if balances_contradict c d
            then DDefer (Some Ref_amount_mismatch) Reference_balance_mismatch []
            else DMatch c Standard
        | _ \<Rightarrow> DDefer None Multiple_reference_candidates
                 (map t_id (filter (\<lambda>c. qualifies_as_explicit_match rows c d) hits)))"

end
