(* ===== verification/Match_Facts.thy ===== *)
theory Match_Facts
  imports Txn_Match
begin

text \<open>
  What the matcher guarantees: every candidate passes the immutable identity gates, a match is
  never between rows whose known balances differ, an \<open>insert\<close> never duplicates a stored
  reference, and the candidates of a deferral are rows of the table.
\<close>

section \<open>Symmetry of the mask gates\<close>

text \<open>
  The gates test a mask in both directions. The contract they rest on is that of
  \<open>mask_matches\<close>: it is symmetric, and an unreadable mask matches nothing.
\<close>

locale mask_matcher =
  fixes matches :: "string \<Rightarrow> string \<Rightarrow> bool"
    and norm :: "string option \<Rightarrow> string"
  assumes matches_sym: "matches p s = matches s p"
    and unreadable: "\<not> matches [] s"
begin

lemma both_directions: "matches p s \<or> matches s p \<longleftrightarrow> matches p s"
  using matches_sym by blast

lemma matches_readable: "matches p (norm s) \<Longrightarrow> norm s \<noteq> []"
  using matches_sym unreadable by metis

end

interpretation mask: mask_matcher mask_matches normalize_mask
  by unfold_locales (auto simp: mask_matches_commute)

lemma account_compatible_iff:
  "account_compatible incoming c \<longleftrightarrow>
     normalize_mask (t_account_mask c) = [] \<or> mask_matches incoming (normalize_mask (t_account_mask c))"
  by (simp add: account_compatible_def Let_def mask.both_directions)

section \<open>Candidates\<close>

definition fuzzy_gates :: "txn_data \<Rightarrow> string option \<Rightarrow> txn \<Rightarrow> bool" where
  "fuzzy_gates d cur c \<longleftrightarrow>
     same_identity c d \<and>
     coalesce_inr (t_currency c) = (case cur of None \<Rightarrow> currency_or_inr (d_currency d) | Some s \<Rightarrow> s) \<and>
     t_transaction_date c \<noteq> None \<and>
     (normalize_mask (d_account_mask d) \<noteq> [] \<longrightarrow> account_compatible (normalize_mask (d_account_mask d)) c) \<and>
     card_screenshot_fits c d \<and>
     (\<forall>txn_date tm. d_transaction_date d = Some txn_date \<longrightarrow> d_transaction_time d = Some tm \<longrightarrow>
        in_window (combine txn_date tm) (window_minutes d) c)"

lemma in_date_range_dated: "in_date_range lo hi c \<Longrightarrow> t_transaction_date c \<noteq> None"
  by (auto simp: in_date_range_def split: option.splits)

lemma set_narrow_candidates: "set (narrow_candidates d cands) \<subseteq> set cands"
  by (auto simp: narrow_candidates_def Let_def)

lemma set_query_candidates:
  "c \<in> set (query_candidates rows d cur x) \<Longrightarrow>
     c \<in> set rows \<and> same_identity c d \<and> t_transaction_date c \<noteq> None \<and>
     coalesce_inr (t_currency c) = (case cur of None \<Rightarrow> currency_or_inr (d_currency d) | Some s \<Rightarrow> s)"
  by (auto simp: query_candidates_def Let_def dest: in_date_range_dated split: prod.splits)

lemma gather_fuzzy_candidates_gates:
  assumes "c \<in> set (gather_fuzzy_candidates rows d cur)"
  shows "c \<in> set rows" and "fuzzy_gates d cur c"
proof -
  obtain x where x: "d_transaction_date d = Some x"
    and "c \<in> set (narrow_candidates d (filter (passes_gates d x) (query_candidates rows d cur x)))"
    using assms by (cases "d_transaction_date d") (auto simp: gather_fuzzy_candidates_def)
  then have "c \<in> set (query_candidates rows d cur x)" and g: "passes_gates d x c"
    using set_narrow_candidates by fastforce+
  note q = set_query_candidates[OF this(1)]
  show "c \<in> set rows" using q by blast
  show "fuzzy_gates d cur c"
    using q g x by (auto simp: fuzzy_gates_def passes_gates_def)
qed

lemma fuzzy_window_bound:
  assumes "c \<in> set (gather_fuzzy_candidates rows d cur)"
    and "d_transaction_date d = Some x" "d_transaction_time d = Some tm"
    and "t_transaction_time c = Some ct"
  shows "\<bar>event_time c - combine x tm\<bar> \<le>
    minutes (if d_time_is_received_time d \<or> t_time_is_received_time c then 1 else 10)"
proof -
  have "in_window (combine x tm) (window_minutes d) c"
    using gather_fuzzy_candidates_gates(2)[OF assms(1)] assms(2,3) by (simp add: fuzzy_gates_def)
  then show ?thesis
    using assms(4)
    by (auto simp: in_window_def window_minutes_def RECEIVED_TIME_WINDOW_MINUTES_def
          FUZZY_MATCH_WINDOW_MINUTES_def minutes_def Let_def split: if_splits)
qed

section \<open>Decisions\<close>

lemma decide_with_balance_match:
  "decide_with_balance cands b = DMatch c k \<Longrightarrow>
     c \<in> set cands \<and> k = Standard \<and> quantize_balance (t_balance c) = Some b"
  by (auto simp: decide_with_balance_def Let_def split: if_splits list.splits
      dest!: filter_singleton_unique)

lemma singleton_hd: "length xs = 1 \<Longrightarrow> hd xs \<in> set xs"
  by (cases xs) auto

lemma decide_without_balance_match:
  assumes "decide_without_balance cands r d ch s = DMatch c k"
  shows "c \<in> set cands \<and> k = Standard"
proof -
  define cs where "cs = (if r \<noteq> [] then filter (\<lambda>c. is_source_row c ch s \<or>
      \<not> references_prove_distinct r (d_email_type d) ch c) cands else cands)"
  have "length cs = 1 \<and> c = hd cs \<and> k = Standard"
    using assms
    by (auto simp: decide_without_balance_def Let_def cs_def[symmetric] split: if_splits)
  moreover have "set cs \<subseteq> set cands" by (auto simp: cs_def)
  ultimately show ?thesis using singleton_hd by blast
qed

lemma decide_match:
  assumes "decide cands d ch s = DMatch c k"
  shows "c \<in> set cands \<and> k = Standard \<and> \<not> balances_contradict c d"
proof (cases "quantize_balance (d_balance d)")
  case None
  then have "decide_without_balance (filter (utr_keeps (ref_of (d_reference_number d)) ch s) cands)
      (ref_of (d_reference_number d)) d ch s = DMatch c k"
    using assms by (auto simp: decide_def Let_def split: if_splits)
  then show ?thesis
    using decide_without_balance_match None by (fastforce simp: balances_contradict_def)
next
  case (Some b)
  then have "decide_with_balance (filter (utr_keeps (ref_of (d_reference_number d)) ch s) cands) b
      = DMatch c k"
    using assms by (auto simp: decide_def Let_def split: if_splits)
  then show ?thesis
    using decide_with_balance_match Some by (fastforce simp: balances_contradict_def)
qed

lemma alias_match_gates:
  assumes "find_am_pm_alias_match rows d x tm = Some c"
  shows "c \<in> set rows" "same_identity c d"
    "coalesce_inr (t_currency c) = currency_or_inr (d_currency d)"
    "counterparty_match (t_counterparty c) (d_counterparty d)"
    "t_email_type c \<in> set AMBIGUOUS_12H_TIME_EMAIL_TYPES"
    "alias_minus (combine x tm) tm c \<or> alias_plus (combine x tm) tm c"
  using assms
  by (auto simp: find_am_pm_alias_match_def Let_def filter_eq_Cons_iff split: if_splits
      dest!: filter_singleton_unique)

lemma find_fuzzy_match:
  assumes "find_fuzzy rows d ch s = DMatch c k"
  shows "c \<in> set rows \<and> same_identity c d \<and>
    coalesce_inr (t_currency c) = currency_or_inr (d_currency d) \<and> \<not> balances_contradict c d"
proof (cases "gather_fuzzy_candidates rows d None = []")
  case True
  then show ?thesis
    using assms alias_match_gates
    by (auto simp: find_fuzzy_def Let_def split: option.splits if_splits)
next
  case False
  then have "decide (gather_fuzzy_candidates rows d None) d ch s = DMatch c k"
    using assms by (simp add: find_fuzzy_def Let_def)
  then have "c \<in> set (gather_fuzzy_candidates rows d None)" "\<not> balances_contradict c d"
    using decide_match by blast+
  then show ?thesis
    using gather_fuzzy_candidates_gates by (fastforce simp: fuzzy_gates_def)
qed

lemma take2_cases:
  "take 2 xs = [] \<longleftrightarrow> xs = []" "take 2 xs = [x] \<longleftrightarrow> xs = [x]"
  by (cases xs; cases "tl xs"; auto)+

lemma find_match_no_hit:
  "ref_of (d_reference_number d) = [] \<or> rows_with_reference rows d (ref_of (d_reference_number d)) = [] \<Longrightarrow>
   find_match rows d ch s = find_fuzzy rows d ch s"
  by (auto simp: find_match_def Let_def)

lemma find_match_sound:
  assumes "find_match rows d ch s = DMatch c k"
  shows "c \<in> set rows \<and> same_identity c d \<and> \<not> balances_contradict c d"
proof (cases "ref_of (d_reference_number d) = [] \<or>
    rows_with_reference rows d (ref_of (d_reference_number d)) = []")
  case True
  then have "find_fuzzy rows d ch s = DMatch c k"
    using assms by (simp add: find_match_no_hit)
  then show ?thesis using find_fuzzy_match by blast
next
  case False
  then obtain h hs where h: "take 2 (rows_with_reference rows d (ref_of (d_reference_number d))) = h # hs"
    by (metis neq_Nil_conv take2_cases(1))
  then have "hs = []" "c = h" "t_amount h = d_amount d" "\<not> balances_contradict h d"
    using assms False by (auto simp: find_match_def Let_def split: list.splits if_splits)
  moreover have "h \<in> set (rows_with_reference rows d (ref_of (d_reference_number d)))"
    using h by (metis in_set_takeD list.set_intros(1))
  ultimately show ?thesis by (auto simp: rows_with_reference_def same_identity_def)
qed

lemma find_match_insert_no_reference:
  assumes "find_match rows d ch s = DInsert" "ref_of (d_reference_number d) \<noteq> []"
  shows "rows_with_reference rows d (ref_of (d_reference_number d)) = []"
proof (rule ccontr)
  assume "rows_with_reference rows d (ref_of (d_reference_number d)) \<noteq> []"
  then obtain h hs where "take 2 (rows_with_reference rows d (ref_of (d_reference_number d))) = h # hs"
    by (metis neq_Nil_conv take2_cases(1))
  then show False using assms by (auto simp: find_match_def Let_def split: list.splits if_splits)
qed

lemma find_match_reference_or_free:
  assumes "find_match rows d ch s = DMatch c k" "ref_of (d_reference_number d) \<noteq> []"
  shows "t_reference_number c = Some (ref_of (d_reference_number d)) \<or>
    rows_with_reference rows d (ref_of (d_reference_number d)) = []"
proof (cases "rows_with_reference rows d (ref_of (d_reference_number d)) = []")
  case False
  then obtain h hs where h: "take 2 (rows_with_reference rows d (ref_of (d_reference_number d))) = h # hs"
    by (metis neq_Nil_conv take2_cases(1))
  then have "c = h"
    using assms by (auto simp: find_match_def Let_def split: list.splits if_splits)
  moreover have "h \<in> set (rows_with_reference rows d (ref_of (d_reference_number d)))"
    using h by (metis in_set_takeD list.set_intros(1))
  ultimately show ?thesis by (auto simp: rows_with_reference_def)
qed simp

section \<open>Quantized balances\<close>

text \<open>A balance with two decimal places, as the columns hold it, is its own quantized value.\<close>

definition two_places :: "decimal \<Rightarrow> bool" where
  "two_places v \<longleftrightarrow> (\<exists>n::int. v * 100 = of_int n)"

lemma quantize2_id: "two_places v \<Longrightarrow> quantize2 v = v"
  by (auto simp: two_places_def quantize2_def round_half_even_def Let_def field_simps)

lemma quantize2_two_places: "two_places (quantize2 v)"
  by (auto simp: two_places_def quantize2_def)

lemma quantize2_near: "\<bar>quantize2 v - v\<bar> \<le> 1 / 200"
proof -
  define x where "x = v * 100"
  have "\<bar>of_int (round_half_even x) - x\<bar> \<le> 1 / 2"
    using floor_correct[of x] by (auto simp: round_half_even_def Let_def abs_le_iff)
  then show ?thesis by (simp add: quantize2_def x_def abs_le_iff field_simps)
qed

section \<open>Properties\<close>

text \<open>C37. A match is never made against the facts: the row \<open>find_match\<close> picks is stored, has the
  bank, the direction and the exact amount of the event, and its balance, where both state one, agrees.\<close>

theorem find_match_agrees:
  assumes "find_match rows d ch s = DMatch c k"
  shows "c \<in> set rows \<and> t_bank c = d_bank d \<and> t_direction c = d_direction d \<and> t_amount c = d_amount d \<and>
    \<not> balances_contradict c d"
  using find_match_sound[OF assms] by (auto simp: same_identity_def)

lemma sample_match:
  "find_match [blank_txn\<lparr>t_reference_number := Some ''R1''\<rparr>] (blank_data\<lparr>d_reference_number := Some ''R1''\<rparr>) Sms (Some 4) =
     DMatch (blank_txn\<lparr>t_reference_number := Some ''R1''\<rparr>) Standard"
  by (simp add: find_match_def ref_of_def rows_with_reference_def blank_txn_def blank_data_def
      balances_contradict_def quantize_balance_def py_strip_def strip_chars_def py_isspace_def)

theorem find_match_agrees_witness:
  "blank_txn\<lparr>t_reference_number := Some ''R1''\<rparr> \<in> set [blank_txn\<lparr>t_reference_number := Some ''R1''\<rparr>] \<and>
   t_amount (blank_txn\<lparr>t_reference_number := Some ''R1''\<rparr>) = d_amount (blank_data\<lparr>d_reference_number := Some ''R1''\<rparr>)"
  using find_match_agrees[OF sample_match] by simp

text \<open>An event that carries a reference is inserted only when no row of its bank and direction
  carries that reference, and is matched only to the row that carries it, when there is one.\<close>

theorem find_match_reference:
  assumes "ref_of (d_reference_number d) \<noteq> []"
  shows "case find_match rows d ch s of
      DInsert \<Rightarrow> rows_with_reference rows d (ref_of (d_reference_number d)) = []
    | DMatch c k \<Rightarrow> c \<in> set (rows_with_reference rows d (ref_of (d_reference_number d))) \<or>
        rows_with_reference rows d (ref_of (d_reference_number d)) = []
    | DDefer _ _ _ \<Rightarrow> True"
proof (cases "find_match rows d ch s")
  case (DMatch c k)
  then show ?thesis
    using find_match_reference_or_free[OF DMatch assms] find_match_sound[OF DMatch]
    by (auto simp: rows_with_reference_def same_identity_def)
next
  case DInsert
  then show ?thesis using find_match_insert_no_reference[OF DInsert assms] by simp
qed simp

theorem find_match_reference_witness:
  "case find_match [] (blank_data\<lparr>d_reference_number := Some ''R1''\<rparr>) Sms None of
      DInsert \<Rightarrow> rows_with_reference [] (blank_data\<lparr>d_reference_number := Some ''R1''\<rparr>) ''R1'' = []
    | DMatch c k \<Rightarrow> c \<in> set (rows_with_reference [] (blank_data\<lparr>d_reference_number := Some ''R1''\<rparr>) ''R1'') \<or>
        rows_with_reference [] (blank_data\<lparr>d_reference_number := Some ''R1''\<rparr>) ''R1'' = []
    | DDefer _ _ _ \<Rightarrow> True"
proof -
  have r: "ref_of (d_reference_number (blank_data\<lparr>d_reference_number := Some ''R1''\<rparr>)) = ''R1''"
    by (simp add: ref_of_def py_strip_def strip_chars_def py_isspace_def)
  show ?thesis
    using find_match_reference[of "blank_data\<lparr>d_reference_number := Some ''R1''\<rparr>" "[]" Sms None]
    unfolding r by simp
qed

text \<open>The fuzzy window: a candidate with a time of its own lies within ten minutes of the event,
  within one minute when either side only knows when its message arrived.\<close>

theorem fuzzy_candidate_window:
  assumes "c \<in> set (gather_fuzzy_candidates rows d cur)"
    and "d_transaction_date d = Some x" "d_transaction_time d = Some tm"
    and "t_transaction_time c = Some ct"
  shows "\<bar>event_time c - combine x tm\<bar> \<le>
    minutes (if d_time_is_received_time d \<or> t_time_is_received_time c then 1 else 10)"
  by (rule fuzzy_window_bound[OF assms])

theorem fuzzy_candidate_window_witness:
  "\<bar>event_time (blank_txn\<lparr>t_transaction_date := Some 1, t_transaction_time := Some 60000000\<rparr>) - combine 1 0\<bar> \<le> minutes 10"
  using fuzzy_candidate_window[of "blank_txn\<lparr>t_transaction_date := Some 1, t_transaction_time := Some 60000000\<rparr>"
    "[blank_txn\<lparr>t_transaction_date := Some 1, t_transaction_time := Some 60000000\<rparr>]"
    "blank_data\<lparr>d_transaction_date := Some 1, d_transaction_time := Some 0\<rparr>" None 1 0 60000000]
  by (simp add: gather_fuzzy_candidates_def narrow_candidates_def passes_gates_def query_candidates_def
    in_window_def in_date_range_def same_identity_def coalesce_inr_def currency_or_inr_def card_screenshot_fits_def
    starts_with_def window_minutes_def FUZZY_MATCH_WINDOW_MINUTES_def RECEIVED_TIME_WINDOW_MINUTES_def
    minutes_def combine_def date_of_def day_us_def event_time_def normalize_mask_def blank_txn_def blank_data_def)

end
