(* ===== verification/Enrichment.thy ===== *)
theory Enrichment
  imports Match_Facts
begin

text \<open>
  The second half of \<^verbatim>\<open>services/txn_merge.py\<close>: which fields of a matched row a second source
  fills or overwrites (\<open>compute_enrichment_diff\<close>) and how the row is written. \<open>getattr\<close> and
  \<open>setattr\<close> over the enrichment fields are \<open>get_field\<close> and \<open>set_field\<close> on tagged values.
\<close>

section \<open>Fields and diffs\<close>

datatype efield =
    F_transaction_date | F_transaction_time | F_counterparty | F_card_mask | F_card_holder
  | F_account_mask | F_reference_number | F_channel | F_balance | F_raw_description

datatype fval = VDate date | VTime time | VStr string | VDec decimal

definition ENRICHMENT_FIELDS :: "efield list" where
  "ENRICHMENT_FIELDS =
     [F_transaction_date, F_transaction_time, F_counterparty, F_card_mask, F_card_holder,
      F_account_mask, F_reference_number, F_channel, F_balance, F_raw_description]"

definition MASK_FIELDS :: "efield list" where
  "MASK_FIELDS = [F_card_mask, F_account_mask]"

fun get_field :: "efield \<Rightarrow> txn \<Rightarrow> fval option" where
  "get_field F_transaction_date t = map_option VDate (t_transaction_date t)"
| "get_field F_transaction_time t = map_option VTime (t_transaction_time t)"
| "get_field F_counterparty t = map_option VStr (t_counterparty t)"
| "get_field F_card_mask t = map_option VStr (t_card_mask t)"
| "get_field F_card_holder t = map_option VStr (t_card_holder t)"
| "get_field F_account_mask t = map_option VStr (t_account_mask t)"
| "get_field F_reference_number t = map_option VStr (t_reference_number t)"
| "get_field F_channel t = map_option VStr (t_channel t)"
| "get_field F_balance t = map_option VDec (t_balance t)"
| "get_field F_raw_description t = map_option VStr (t_raw_description t)"

fun set_field :: "efield \<Rightarrow> fval \<Rightarrow> txn \<Rightarrow> txn" where
  "set_field F_transaction_date (VDate v) t = t\<lparr>t_transaction_date := Some v\<rparr>"
| "set_field F_transaction_time (VTime v) t = t\<lparr>t_transaction_time := Some v\<rparr>"
| "set_field F_counterparty (VStr v) t = t\<lparr>t_counterparty := Some v\<rparr>"
| "set_field F_card_mask (VStr v) t = t\<lparr>t_card_mask := Some v\<rparr>"
| "set_field F_card_holder (VStr v) t = t\<lparr>t_card_holder := Some v\<rparr>"
| "set_field F_account_mask (VStr v) t = t\<lparr>t_account_mask := Some v\<rparr>"
| "set_field F_reference_number (VStr v) t = t\<lparr>t_reference_number := Some v\<rparr>"
| "set_field F_channel (VStr v) t = t\<lparr>t_channel := Some v\<rparr>"
| "set_field F_balance (VDec v) t = t\<lparr>t_balance := Some v\<rparr>"
| "set_field F_raw_description (VStr v) t = t\<lparr>t_raw_description := Some v\<rparr>"
| "set_field _ _ t = t"

fun incoming_field :: "efield \<Rightarrow> txn_data \<Rightarrow> fval option" where
  "incoming_field F_transaction_date d = map_option VDate (d_transaction_date d)"
| "incoming_field F_transaction_time d = map_option VTime (d_transaction_time d)"
| "incoming_field F_counterparty d = map_option VStr (d_counterparty d)"
| "incoming_field F_card_mask d = map_option VStr (d_card_mask d)"
| "incoming_field F_card_holder d = map_option VStr (d_card_holder d)"
| "incoming_field F_account_mask d = map_option VStr (d_account_mask d)"
| "incoming_field F_reference_number d = map_option VStr (d_reference_number d)"
| "incoming_field F_channel d = map_option VStr (d_channel d)"
| "incoming_field F_balance d = map_option VDec (d_balance d)"
| "incoming_field F_raw_description d = map_option VStr (d_raw_description d)"

record enrichment_diff =
  filled :: "(efield \<times> fval) list"
  overwritten :: "(efield \<times> fval option \<times> fval) list"

definition changed_fields :: "enrichment_diff \<Rightarrow> efield list" where
  "changed_fields diff = map fst (filled diff) @ map fst (overwritten diff)"

section \<open>Which changes apply\<close>

definition as_str :: "fval \<Rightarrow> string option" where
  "as_str v = (case v of VStr s \<Rightarrow> Some s | _ \<Rightarrow> None)"

definition alias_must_not_replace :: "txn \<Rightarrow> txn_data \<Rightarrow> bool" where
  "alias_must_not_replace t d \<longleftrightarrow>
     d_counterparty_source d = Some ''user_alias'' \<and> t_counterparty_source t \<noteq> ''user_alias''"

definition bank_name_replaces_alias :: "txn \<Rightarrow> txn_data \<Rightarrow> bool" where
  "bank_name_replaces_alias t d \<longleftrightarrow>
     t_counterparty_source t = ''user_alias'' \<and> d_counterparty_source d \<noteq> Some ''user_alias''"

definition is_information_downgrade :: "efield \<Rightarrow> fval \<Rightarrow> fval \<Rightarrow> bool" where
  "is_information_downgrade f old_val new_val =
     (if f = F_counterparty then
        let old_norm = normalize_counterparty (as_str old_val);
            new_norm = normalize_counterparty (as_str new_val)
        in new_norm \<noteq> [] \<and> sublist new_norm old_norm \<and> new_norm \<noteq> old_norm
      else if f \<in> set MASK_FIELDS then
        let old_digits = mask_digits (as_str old_val); new_digits = mask_digits (as_str new_val)
        in length new_digits < length old_digits \<and> suffix new_digits old_digits
      else if f = F_raw_description then
        let old_stripped = py_strip (or_empty (as_str old_val));
            new_stripped = py_strip (or_empty (as_str new_val))
        in new_stripped \<noteq> [] \<and> sublist new_stripped old_stripped \<and> new_stripped \<noteq> old_stripped
      else False)"

definition incoming_time_is_earlier :: "txn \<Rightarrow> txn_data \<Rightarrow> fval \<Rightarrow> fval \<Rightarrow> bool" where
  "incoming_time_is_earlier t d new_val old_val =
     (case (new_val, old_val) of
        (VTime new_time, VTime old_time) \<Rightarrow>
          (case (t_transaction_date t,
                 if d_transaction_date d = None then t_transaction_date t else d_transaction_date d) of
             (Some existing_date, Some incoming_date) \<Rightarrow>
               combine incoming_date new_time < combine existing_date old_time
           | _ \<Rightarrow> new_time < old_time)
      | _ \<Rightarrow> False)"

definition date_is_later :: "fval \<Rightarrow> fval \<Rightarrow> bool" where
  "date_is_later new_val old_val =
     (case (new_val, old_val) of (VDate n, VDate old) \<Rightarrow> old < n | _ \<Rightarrow> False)"

datatype field_action = Keep | Fill fval | Overwrite fval fval

definition enrich_field :: "txn \<Rightarrow> txn_data \<Rightarrow> channel \<Rightarrow> efield \<Rightarrow> field_action" where
  "enrich_field t d ch f =
     (case incoming_field f d of
        None \<Rightarrow> Keep
      | Some new_val \<Rightarrow>
     (case get_field f t of
        None \<Rightarrow> Fill new_val
      | Some old_val \<Rightarrow>
          if old_val = new_val then Keep
          else if f \<in> set MASK_FIELDS \<and> mask_digits (as_str old_val) = mask_digits (as_str new_val)
          then Keep
          else if ch = Email then
            (if f = F_transaction_time \<and> \<not> incoming_time_is_earlier t d new_val old_val then Keep
             else if f = F_transaction_date \<and> date_is_later new_val old_val then Keep
             else if is_information_downgrade f old_val new_val \<and>
                     \<not> (f = F_counterparty \<and> bank_name_replaces_alias t d) then Keep
             else if f = F_counterparty \<and> alias_must_not_replace t d then Keep
             else Overwrite old_val new_val)
          else if f = F_counterparty \<and> bank_name_replaces_alias t d then Overwrite old_val new_val
          else Keep))"

fun diff_loop :: "txn \<Rightarrow> txn_data \<Rightarrow> channel \<Rightarrow> efield list \<Rightarrow> enrichment_diff \<Rightarrow> enrichment_diff" where
  "diff_loop t d ch [] acc = acc"
| "diff_loop t d ch (f # fs) acc =
     diff_loop t d ch fs
       (case enrich_field t d ch f of
          Keep \<Rightarrow> acc
        | Fill v \<Rightarrow> acc\<lparr>filled := filled acc @ [(f, v)]\<rparr>
        | Overwrite old_val v \<Rightarrow> acc\<lparr>overwritten := overwritten acc @ [(f, Some old_val, v)]\<rparr>)"

definition no_changes :: enrichment_diff where
  "no_changes = \<lparr>filled = [], overwritten = []\<rparr>"

definition compute_enrichment_diff :: "txn \<Rightarrow> txn_data \<Rightarrow> channel \<Rightarrow> enrichment_diff" where
  "compute_enrichment_diff t d ch = diff_loop t d ch ENRICHMENT_FIELDS no_changes"

text \<open>\<open>overwritten[key] = \<dots>\<close> replaces an entry of the same key.\<close>

definition put_overwritten :: "efield \<Rightarrow> fval option \<times> fval \<Rightarrow> enrichment_diff \<Rightarrow> enrichment_diff" where
  "put_overwritten f v diff =
     diff\<lparr>overwritten := filter (\<lambda>e. fst e \<noteq> f) (overwritten diff) @ [(f, v)]\<rparr>"

definition compute_applied_enrichment_diff ::
    "txn \<Rightarrow> txn_data \<Rightarrow> channel \<Rightarrow> match_kind \<Rightarrow> enrichment_diff" where
  "compute_applied_enrichment_diff t d ch kind =
     (let diff = compute_enrichment_diff t d ch in
      if kind = Am_pm_alias \<and> d_transaction_time d \<noteq> None \<and> t_transaction_time t \<noteq> d_transaction_time d
      then put_overwritten F_transaction_time
             (get_field F_transaction_time t, VTime (the (d_transaction_time d))) diff
      else diff)"

section \<open>Writing the row\<close>

definition apply_diff :: "enrichment_diff \<Rightarrow> txn \<Rightarrow> txn" where
  "apply_diff diff t =
     fold (\<lambda>(f, _, v). set_field f v) (overwritten diff) (fold (\<lambda>(f, v). set_field f v) (filled diff) t)"

definition sync_counterparty_source :: "txn_data \<Rightarrow> txn \<Rightarrow> txn" where
  "sync_counterparty_source d t =
     (if \<not> truthy (d_counterparty d) \<or> d_counterparty d \<noteq> t_counterparty t then t
      else t\<lparr>t_counterparty_source :=
               (if truthy (d_counterparty_source d) then or_empty (d_counterparty_source d) else ''bank'')\<rparr>)"

definition merged_source :: "string option \<Rightarrow> channel \<Rightarrow> string option" where
  "merged_source source ch =
     (if truthy source \<and> starts_with ''screenshot'' (or_empty source)
      then (if channel_name ch \<notin> set (split_on (CHR ''+'') (or_empty source))
            then Some (or_empty source @ ''+'' @ channel_name ch) else source)
      else if source \<noteq> Some (channel_name ch) \<and> source \<noteq> None then Some ''sms+email''
      else source)"

text \<open>Everything \<open>apply_transaction_enrichment\<close> writes to the row between the claim and the flush.\<close>

definition enrich_row :: "datetime \<Rightarrow> txn_data \<Rightarrow> channel \<Rightarrow> enrichment_diff \<Rightarrow> txn \<Rightarrow> txn" where
  "enrich_row now d ch diff t =
     (let t = apply_diff diff t;
          t = (if F_transaction_time \<in> set (changed_fields diff)
               then t\<lparr>t_time_is_received_time := d_time_is_received_time d\<rparr> else t);
          t = sync_counterparty_source d t;
          t = t\<lparr>t_source := merged_source (t_source t) ch\<rparr>
      in if changed_fields diff \<noteq> [] then t\<lparr>t_enriched_at := Some now\<rparr> else t)"

section \<open>Reading a diff\<close>

definition new_value :: "field_action \<Rightarrow> fval option" where
  "new_value a = (case a of Keep \<Rightarrow> None | Fill v \<Rightarrow> Some v | Overwrite _ v \<Rightarrow> Some v)"

fun well_typed :: "efield \<Rightarrow> fval \<Rightarrow> bool" where
  "well_typed F_transaction_date v = (case v of VDate _ \<Rightarrow> True | _ \<Rightarrow> False)"
| "well_typed F_transaction_time v = (case v of VTime _ \<Rightarrow> True | _ \<Rightarrow> False)"
| "well_typed F_balance v = (case v of VDec _ \<Rightarrow> True | _ \<Rightarrow> False)"
| "well_typed _ v = (case v of VStr _ \<Rightarrow> True | _ \<Rightarrow> False)"

lemma incoming_well_typed: "incoming_field f d = Some v \<Longrightarrow> well_typed f v"
  by (cases f) auto

lemma get_set_field: "well_typed f v \<Longrightarrow> get_field f (set_field f v t) = Some v"
  by (cases f; cases v) auto

lemma get_set_field_other: "f \<noteq> g \<Longrightarrow> get_field f (set_field g v t) = get_field f t"
  by (cases g; cases v; cases f) simp_all

definition fill_value :: "field_action \<Rightarrow> fval option" where
  "fill_value a = (case a of Fill v \<Rightarrow> Some v | _ \<Rightarrow> None)"

definition overwrite_value :: "field_action \<Rightarrow> (fval option \<times> fval) option" where
  "overwrite_value a = (case a of Overwrite w v \<Rightarrow> Some (Some w, v) | _ \<Rightarrow> None)"

definition entries :: "('k \<Rightarrow> 'v option) \<Rightarrow> 'k list \<Rightarrow> ('k \<times> 'v) list" where
  "entries a fs = concat (map (\<lambda>f. case a f of None \<Rightarrow> [] | Some v \<Rightarrow> [(f, v)]) fs)"

lemma entries_simps [simp]:
  "entries a [] = []"
  "entries a (f # fs) = (case a f of None \<Rightarrow> [] | Some v \<Rightarrow> [(f, v)]) @ entries a fs"
  by (simp_all add: entries_def)

lemma in_set_entries: "(f, v) \<in> set (entries a fs) \<longleftrightarrow> f \<in> set fs \<and> a f = Some v"
  by (induction fs) (auto split: option.splits)

lemma fst_set_entries: "f \<in> fst ` set (entries a fs) \<longleftrightarrow> f \<in> set fs \<and> a f \<noteq> None"
  by (induction fs) (auto split: option.splits)

lemma diff_loop_eq:
  "diff_loop t d ch fs acc =
     acc\<lparr>filled := filled acc @ entries (\<lambda>f. fill_value (enrich_field t d ch f)) fs,
         overwritten := overwritten acc @ entries (\<lambda>f. overwrite_value (enrich_field t d ch f)) fs\<rparr>"
  by (induction t d ch fs acc rule: diff_loop.induct)
     (simp_all add: fill_value_def overwrite_value_def split: field_action.split)

lemma compute_enrichment_diff_eq:
  "filled (compute_enrichment_diff t d ch) =
     entries (\<lambda>f. fill_value (enrich_field t d ch f)) ENRICHMENT_FIELDS"
  "overwritten (compute_enrichment_diff t d ch) =
     entries (\<lambda>f. overwrite_value (enrich_field t d ch f)) ENRICHMENT_FIELDS"
  by (simp_all add: compute_enrichment_diff_def diff_loop_eq no_changes_def)

lemma all_fields [simp]: "f \<in> set ENRICHMENT_FIELDS"
  by (cases f) (simp_all add: ENRICHMENT_FIELDS_def)

lemma distinct_fields [simp]: "distinct ENRICHMENT_FIELDS"
  by (simp add: ENRICHMENT_FIELDS_def)

lemma filled_iff:
  "(f, v) \<in> set (filled (compute_enrichment_diff t d ch)) \<longleftrightarrow> enrich_field t d ch f = Fill v"
  by (cases "enrich_field t d ch f")
     (simp_all add: compute_enrichment_diff_eq in_set_entries fill_value_def)

lemma overwritten_iff:
  "(f, w, v) \<in> set (overwritten (compute_enrichment_diff t d ch)) \<longleftrightarrow>
     (\<exists>u. w = Some u \<and> enrich_field t d ch f = Overwrite u v)"
  by (cases "enrich_field t d ch f")
     (auto simp: compute_enrichment_diff_eq in_set_entries overwrite_value_def)

lemma changed_iff:
  "f \<in> set (changed_fields (compute_enrichment_diff t d ch)) \<longleftrightarrow> enrich_field t d ch f \<noteq> Keep"
  by (cases "enrich_field t d ch f")
     (simp_all add: changed_fields_def compute_enrichment_diff_eq fst_set_entries
        fill_value_def overwrite_value_def)

lemma changed_nil_iff:
  "changed_fields (compute_enrichment_diff t d ch) = [] \<longleftrightarrow> (\<forall>f. enrich_field t d ch f = Keep)"
  using changed_iff[of _ t d ch] by (metis list.set(1) empty_iff ex_in_conv set_empty)

lemma enrich_field_new_value:
  "enrich_field t d ch f = Fill v \<Longrightarrow> incoming_field f d = Some v \<and> get_field f t = None"
  "enrich_field t d ch f = Overwrite u v \<Longrightarrow> incoming_field f d = Some v \<and> get_field f t = Some u \<and> u \<noteq> v"
  by (auto simp: enrich_field_def split: option.splits if_splits)

section \<open>Reading the written row\<close>

lemma fold_set_field:
  assumes "\<And>f v. a f = Some v \<Longrightarrow> well_typed f (val v)" "distinct fs"
  shows "get_field g (fold (\<lambda>(f, v). set_field f (val v)) (entries a fs) t) =
    (if g \<in> set fs \<and> a g \<noteq> None then map_option val (a g) else get_field g t)"
  using assms(2)
proof (induction fs arbitrary: t)
  case Nil
  then show ?case by simp
next
  case (Cons f fs)
  then have IH: "get_field g (fold (\<lambda>(f, v). set_field f (val v)) (entries a fs) u) =
    (if g \<in> set fs \<and> a g \<noteq> None then map_option val (a g) else get_field g u)" for u by simp
  have "get_field g (set_field f (val v) t) = (if g = f then Some (val v) else get_field g t)"
    if "a f = Some v" for v
    using that by (auto simp: get_set_field[OF assms(1)] get_set_field_other)
  then show ?case
    using IH Cons.prems by (cases "a f") auto
qed

lemma get_apply_diff:
  "get_field f (apply_diff (compute_enrichment_diff t d ch) t) =
     (case new_value (enrich_field t d ch f) of Some v \<Rightarrow> Some v | None \<Rightarrow> get_field f t)"
proof -
  let ?a = "\<lambda>f. fill_value (enrich_field t d ch f)"
  let ?b = "\<lambda>f. overwrite_value (enrich_field t d ch f)"
  have A: "\<And>f v. ?a f = Some v \<Longrightarrow> well_typed f (id v)"
    by (auto simp: fill_value_def split: field_action.splits
          dest!: enrich_field_new_value(1) intro: incoming_well_typed)
  have B: "\<And>f v. ?b f = Some v \<Longrightarrow> well_typed f (snd v)"
    by (auto simp: overwrite_value_def split: field_action.splits
          dest!: enrich_field_new_value(2) intro: incoming_well_typed)
  have eq: "apply_diff (compute_enrichment_diff t d ch) t =
      fold (\<lambda>(f, v). set_field f (snd v)) (entries ?b ENRICHMENT_FIELDS)
        (fold (\<lambda>(f, v). set_field f (id v)) (entries ?a ENRICHMENT_FIELDS) t)"
    by (simp add: apply_diff_def compute_enrichment_diff_eq split_def)
  have a: "get_field g (fold (\<lambda>(f, v). set_field f (id v)) (entries ?a ENRICHMENT_FIELDS) u) =
      (if ?a g \<noteq> None then map_option id (?a g) else get_field g u)" for g u
    using fold_set_field[where a = ?a and val = id, OF A distinct_fields] by simp
  have b: "get_field g (fold (\<lambda>(f, v). set_field f (snd v)) (entries ?b ENRICHMENT_FIELDS) u) =
      (if ?b g \<noteq> None then map_option snd (?b g) else get_field g u)" for g u
    using fold_set_field[where a = ?b and val = snd, OF B distinct_fields] by simp
  show ?thesis
    unfolding eq a b
    by (cases "enrich_field t d ch f")
       (simp_all add: fill_value_def overwrite_value_def new_value_def)
qed

end
