(* ===== verification/Enrichment_Facts.thy ===== *)
theory Enrichment_Facts
  imports Enrichment
begin

text \<open>
  The contract of enrichment: the identity of a row never changes, no information is lost, a
  second source of the same event moves its time only backwards, and enriching twice is
  enriching once.
\<close>

section \<open>Frames\<close>

text \<open>The columns that make a row the money it is; no enrichment writes them.\<close>

definition money_facts :: "txn \<Rightarrow> int \<times> string \<times> string \<times> decimal \<times> string option \<times> bool option \<times> bool option" where
  "money_facts t =
     (t_id t, t_bank t, t_direction t, t_amount t, t_currency t, t_exclude_from_cashflow t, t_voided t)"

definition routing_facts :: "txn \<Rightarrow> string \<times> string \<times> int option \<times> int option" where
  "routing_facts t = (t_email_type t, t_identifies_by t, t_account_id t, t_card_id t)"

lemma set_field_frame [simp]:
  "money_facts (set_field f v t) = money_facts t"
  "routing_facts (set_field f v t) = routing_facts t"
  "t_counterparty_source (set_field f v t) = t_counterparty_source t"
  "t_source (set_field f v t) = t_source t"
  by (cases f; cases v; simp add: money_facts_def routing_facts_def)+

lemma fold_frame:
  assumes "\<And>e t. g (step e t) = g t"
  shows "g (fold step es t) = g t"
  using assms by (induction es arbitrary: t) simp_all

lemma apply_diff_frame [simp]:
  "money_facts (apply_diff diff t) = money_facts t"
  "routing_facts (apply_diff diff t) = routing_facts t"
  "t_counterparty_source (apply_diff diff t) = t_counterparty_source t"
  "t_source (apply_diff diff t) = t_source t"
  by (simp_all add: apply_diff_def fold_frame split_def)

lemma money_facts_update [simp]:
  "money_facts (t\<lparr>t_time_is_received_time := b\<rparr>) = money_facts t"
  "money_facts (t\<lparr>t_counterparty_source := s\<rparr>) = money_facts t"
  "money_facts (t\<lparr>t_source := so\<rparr>) = money_facts t"
  "money_facts (t\<lparr>t_enriched_at := e\<rparr>) = money_facts t"
  "routing_facts (t\<lparr>t_time_is_received_time := b\<rparr>) = routing_facts t"
  "routing_facts (t\<lparr>t_counterparty_source := s\<rparr>) = routing_facts t"
  "routing_facts (t\<lparr>t_source := so\<rparr>) = routing_facts t"
  "routing_facts (t\<lparr>t_enriched_at := e\<rparr>) = routing_facts t"
  by (simp_all add: money_facts_def routing_facts_def)

lemma get_field_update [simp]:
  "get_field f (t\<lparr>t_time_is_received_time := b\<rparr>) = get_field f t"
  "get_field f (t\<lparr>t_counterparty_source := s\<rparr>) = get_field f t"
  "get_field f (t\<lparr>t_source := so\<rparr>) = get_field f t"
  "get_field f (t\<lparr>t_enriched_at := e\<rparr>) = get_field f t"
  by (cases f; simp)+

lemma sync_frame [simp]:
  "money_facts (sync_counterparty_source d t) = money_facts t"
  "routing_facts (sync_counterparty_source d t) = routing_facts t"
  "get_field f (sync_counterparty_source d t) = get_field f t"
  by (simp_all add: sync_counterparty_source_def)

lemma enrich_row_frame [simp]:
  "money_facts (enrich_row now d ch diff t) = money_facts t"
  "routing_facts (enrich_row now d ch diff t) = routing_facts t"
  by (simp_all add: enrich_row_def Let_def)

lemma get_enrich_row:
  "get_field f (enrich_row now d ch (compute_enrichment_diff t d ch) t) =
     (case new_value (enrich_field t d ch f) of Some v \<Rightarrow> Some v | None \<Rightarrow> get_field f t)"
  by (simp add: enrich_row_def Let_def get_apply_diff)

lemma source_enrich_row:
  "t_counterparty_source (enrich_row now d ch diff t) =
     (if truthy (d_counterparty d) \<and> d_counterparty d = t_counterparty (apply_diff diff t)
      then (if truthy (d_counterparty_source d) then or_empty (d_counterparty_source d) else ''bank'')
      else t_counterparty_source t)"
proof -
  define r where "r = apply_diff diff t"
  define r' where "r' = (if F_transaction_time \<in> set (changed_fields diff)
    then r\<lparr>t_time_is_received_time := d_time_is_received_time d\<rparr> else r)"
  have same: "t_counterparty r' = t_counterparty r" "t_counterparty_source r' = t_counterparty_source t"
    by (simp_all add: r'_def r_def)
  have "t_counterparty_source (enrich_row now d ch diff t) = t_counterparty_source (sync_counterparty_source d r')"
    unfolding enrich_row_def Let_def r_def[symmetric] r'_def[symmetric] by simp
  also have "\<dots> = (if truthy (d_counterparty d) \<and> d_counterparty d = t_counterparty r
      then (if truthy (d_counterparty_source d) then or_empty (d_counterparty_source d) else ''bank'')
      else t_counterparty_source t)"
    unfolding sync_counterparty_source_def same(1) using same(2)
    by (cases "truthy (d_counterparty d)"; cases "d_counterparty d = t_counterparty r") simp_all
  finally show ?thesis unfolding r_def .
qed

lemma counterparty_get_field: "t_counterparty t = map_option (\<lambda>v. case v of VStr s \<Rightarrow> s | _ \<Rightarrow> []) (get_field F_counterparty t)"
  by (cases "t_counterparty t") simp_all

lemma date_get_field: "t_transaction_date t = map_option (\<lambda>v. case v of VDate x \<Rightarrow> x | _ \<Rightarrow> 0) (get_field F_transaction_date t)"
  by (cases "t_transaction_date t") simp_all

lemma time_get_field: "t_transaction_time t = map_option (\<lambda>v. case v of VTime x \<Rightarrow> x | _ \<Rightarrow> 0) (get_field F_transaction_time t)"
  by (cases "t_transaction_time t") simp_all

section \<open>Time moves backwards\<close>

lemma combine_less_date: "x < y \<Longrightarrow> valid_time s \<Longrightarrow> valid_time u \<Longrightarrow> combine x s < combine y u"
proof -
  assume "x < y" "valid_time s" "valid_time u"
  then have "combine x s < (x + 1) * day_us" "(x + 1) * day_us \<le> y * day_us" "y * day_us \<le> combine y u"
    by (auto simp: combine_def valid_time_def day_us_def algebra_simps)
  then show ?thesis by linarith
qed

lemma combine_same_date [simp]: "combine x s < combine x u \<longleftrightarrow> s < u"
  by (simp add: combine_def)

lemma enrich_date_email:
  "enrich_field t d Email F_transaction_date =
     (case d_transaction_date d of
        None \<Rightarrow> Keep
      | Some n \<Rightarrow> (case t_transaction_date t of
          None \<Rightarrow> Fill (VDate n)
        | Some x \<Rightarrow> if n < x then Overwrite (VDate x) (VDate n) else Keep))"
  by (auto simp: enrich_field_def MASK_FIELDS_def is_information_downgrade_def date_is_later_def
      split: option.splits)

lemma enrich_time_email:
  "enrich_field t d Email F_transaction_time =
     (case d_transaction_time d of
        None \<Rightarrow> Keep
      | Some n \<Rightarrow> (case t_transaction_time t of
          None \<Rightarrow> Fill (VTime n)
        | Some s \<Rightarrow> if s \<noteq> n \<and> incoming_time_is_earlier t d (VTime n) (VTime s)
                     then Overwrite (VTime s) (VTime n) else Keep))"
  by (auto simp: enrich_field_def MASK_FIELDS_def is_information_downgrade_def split: option.splits)

lemma typed_get_field [simp]:
  "map_option (case_fval (\<lambda>x. x) (\<lambda>_. 0) (\<lambda>_. 0) (\<lambda>_. 0)) (map_option VDate x) = x"
  "map_option (case_fval (\<lambda>_. 0) (\<lambda>x. x) (\<lambda>_. 0) (\<lambda>_. 0)) (map_option VTime x) = x"
  by (cases x; simp)+

lemma date_enrich_email:
  "t_transaction_date (enrich_row now d Email (compute_enrichment_diff t d Email) t) =
     (case (d_transaction_date d, t_transaction_date t) of
        (None, x) \<Rightarrow> x | (Some n, None) \<Rightarrow> Some n | (Some n, Some x) \<Rightarrow> Some (min n x))"
  by (subst date_get_field)
     (auto simp: get_enrich_row enrich_date_email new_value_def min_def split: option.splits)

lemma time_enrich_email:
  "t_transaction_time (enrich_row now d Email (compute_enrichment_diff t d Email) t) =
     (case (d_transaction_time d, t_transaction_time t) of
        (None, s) \<Rightarrow> s | (Some n, None) \<Rightarrow> Some n
      | (Some n, Some s) \<Rightarrow>
          if incoming_time_is_earlier t d (VTime n) (VTime s) then Some n else Some s)"
  by (subst time_get_field)
     (auto simp: get_enrich_row enrich_time_email new_value_def split: option.splits)

lemma event_time_enrich_email:
  assumes "t_transaction_date t = Some x" "t_transaction_time t = Some s"
    and "valid_time s" "\<And>n. d_transaction_time d = Some n \<Longrightarrow> valid_time n"
  shows "event_time (enrich_row now d Email (compute_enrichment_diff t d Email) t) \<le> event_time t"
proof -
  note simps = event_time_def date_enrich_email time_enrich_email assms(1,2) incoming_time_is_earlier_def
  show ?thesis
  proof (cases "d_transaction_date d")
    case None
    then show ?thesis by (auto simp: simps combine_def split: option.splits)
  next
    case (Some n)
    show ?thesis
    proof (cases "n < x")
      case True
      then have "combine n u < combine x s" if "valid_time u" for u
        using combine_less_date that assms(3) by blast
      then show ?thesis using True Some assms(3,4)
        by (auto simp: simps min_def split: option.splits intro: less_imp_le)
    next
      case False
      have "combine x u < combine x s" if "combine n u < combine x s" "valid_time u" for u
        using that False combine_less_date[of x n s u] assms(3)
        by (cases "n = x") auto
      then show ?thesis using False Some assms(3,4)
        by (auto simp: simps min_def split: option.splits intro: less_imp_le)
    qed
  qed
qed

section \<open>Enriching twice\<close>

lemma enrich_field_same:
  assumes "get_field f u = get_field f t"
    and "f = F_counterparty \<Longrightarrow> t_counterparty_source u = t_counterparty_source t"
    and "\<And>n s. f = F_transaction_time \<Longrightarrow> d_transaction_time d = Some n \<Longrightarrow> t_transaction_time t = Some s \<Longrightarrow>
           incoming_time_is_earlier u d (VTime n) (VTime s) = incoming_time_is_earlier t d (VTime n) (VTime s)"
  shows "enrich_field u d ch f = enrich_field t d ch f"
  using assms
  by (cases f) (auto simp: enrich_field_def alias_must_not_replace_def bank_name_replaces_alias_def
      split: option.splits)

lemma enrich_field_equal: "incoming_field f d = get_field f t \<Longrightarrow> enrich_field t d ch f = Keep"
  by (auto simp: enrich_field_def split: option.splits)

lemma time_test_stable:
  assumes "enrich_field t d ch F_transaction_time = Keep"
    and "d_transaction_time d = Some n" "t_transaction_time t = Some s" "valid_time n" "valid_time s"
    and "u = enrich_row now d ch (compute_enrichment_diff t d ch) t"
  shows "enrich_field u d ch F_transaction_time = Keep"
proof (cases ch)
  case Sms
  have "t_transaction_time u = Some s"
    unfolding assms(6) time_get_field[of "enrich_row _ _ _ _ _"] get_enrich_row assms(1)
    using assms(3) by (simp add: new_value_def)
  then show ?thesis using Sms assms(2) by (simp add: enrich_field_def)
next
  case Email
  have time: "t_transaction_time u = Some s"
    using assms Email by (auto simp: time_enrich_email enrich_time_email split: if_splits option.splits)
  show ?thesis
  proof (cases "n = s")
    case True
    then show ?thesis using time assms(2) by (intro enrich_field_equal) simp
  next
    case False
    then have notearlier: "\<not> incoming_time_is_earlier t d (VTime n) (VTime s)"
      using assms(1-3) Email by (auto simp: enrich_time_email split: if_splits)
    have "\<not> incoming_time_is_earlier u d (VTime n) (VTime s)"
    proof (cases "d_transaction_date d")
      case None
      then show ?thesis using notearlier Email assms(6)
        by (auto simp: incoming_time_is_earlier_def date_enrich_email split: option.splits)
    next
      case (Some nd)
      show ?thesis
      proof (cases "t_transaction_date t")
        case None
        then show ?thesis using notearlier Email assms(6) Some
          by (auto simp: incoming_time_is_earlier_def date_enrich_email split: option.splits)
      next
        case x: (Some x)
        have "\<not> nd < x" using notearlier Some x combine_less_date[OF _ assms(4,5)]
          by (auto simp: incoming_time_is_earlier_def)
        then show ?thesis using notearlier Email assms(6) Some x
          by (auto simp: incoming_time_is_earlier_def date_enrich_email min_def)
      qed
    qed
    then show ?thesis using time assms(2) Email by (simp add: enrich_time_email)
  qed
qed

lemma enrich_twice_field:
  assumes times: "\<And>n. d_transaction_time d = Some n \<Longrightarrow> valid_time n"
      "\<And>s. t_transaction_time t = Some s \<Longrightarrow> valid_time s"
    and u: "u = enrich_row now d ch (compute_enrichment_diff t d ch) t"
  shows "enrich_field u d ch f = Keep"
proof (cases "enrich_field t d ch f")
  case (Fill v)
  then show ?thesis using u enrich_field_new_value(1)[OF Fill]
    by (intro enrich_field_equal) (simp add: get_enrich_row new_value_def)
next
  case (Overwrite w v)
  then show ?thesis using u enrich_field_new_value(2)[OF Overwrite]
    by (intro enrich_field_equal) (simp add: get_enrich_row new_value_def)
next
  case Keep
  then have same: "get_field f u = get_field f t" using u by (simp add: get_enrich_row new_value_def)
  consider n s where "f = F_transaction_time" "d_transaction_time d = Some n" "t_transaction_time t = Some s"
    | "f = F_counterparty" "d_counterparty d = t_counterparty u"
    | "f = F_counterparty" "d_counterparty d \<noteq> t_counterparty u"
    | "f \<noteq> F_transaction_time \<or> d_transaction_time d = None \<or> t_transaction_time t = None" "f \<noteq> F_counterparty"
    by (metis option.exhaust)
  then show ?thesis
  proof cases
    case 1
    have "enrich_field u d ch F_transaction_time = Keep"
      by (rule time_test_stable[OF _ 1(2,3) times(1)[OF 1(2)] times(2)[OF 1(3)] u]) (use Keep 1 in simp)
    then show ?thesis using 1 by simp
  next
    case 2
    then show ?thesis by (intro enrich_field_equal) simp
  next
    case 3
    have "t_counterparty u = t_counterparty (apply_diff (compute_enrichment_diff t d ch) t)"
      using u by (subst (1 2) counterparty_get_field) (simp add: get_enrich_row get_apply_diff)
    then have "t_counterparty_source u = t_counterparty_source t"
      using 3 u by (simp add: source_enrich_row)
    then show ?thesis using enrich_field_same[OF same] Keep 3 by simp
  next
    case 4
    have "enrich_field u d ch f = enrich_field t d ch f"
      by (rule enrich_field_same[OF same]) (use 4 in auto)
    then show ?thesis using Keep by simp
  qed
qed

section \<open>Properties\<close>

lemma diff_nothing: "(\<And>f. enrich_field t d ch f = Keep) \<Longrightarrow> compute_enrichment_diff t d ch = no_changes"
  by (rule enrichment_diff.equality)
     (simp_all add: compute_enrichment_diff_eq no_changes_def entries_def fill_value_def overwrite_value_def)

text \<open>C7. Enriching is idempotent: once an event has been applied to a row, over either channel,
  computing the diff of the same event against the written row finds nothing to fill and nothing to
  overwrite. The times of day only have to be times of day.\<close>

theorem enrichment_idempotent:
  assumes "pred_option valid_time (d_transaction_time d)" "pred_option valid_time (t_transaction_time t)"
  shows "compute_enrichment_diff (enrich_row now d ch (compute_enrichment_diff t d ch) t) d ch = no_changes"
  by (rule diff_nothing, rule enrich_twice_field[OF _ _ refl]) (use assms in auto)

theorem enrichment_idempotent_witness:
  "compute_enrichment_diff
     (enrich_row 5 (blank_data\<lparr>d_transaction_time := Some 60, d_counterparty := Some ''ACME''\<rparr>) Email
       (compute_enrichment_diff (blank_txn\<lparr>t_transaction_time := Some 90\<rparr>)
          (blank_data\<lparr>d_transaction_time := Some 60, d_counterparty := Some ''ACME''\<rparr>) Email)
       (blank_txn\<lparr>t_transaction_time := Some 90\<rparr>))
     (blank_data\<lparr>d_transaction_time := Some 60, d_counterparty := Some ''ACME''\<rparr>) Email = no_changes"
  by (rule enrichment_idempotent) (simp_all add: valid_time_def day_us_def)

text \<open>A row keeps the earliest event time it has seen: when an email enriches a row that has a
  date and a time, the moment the row stands for never moves to a later one, whatever date and time
  the email brings.\<close>

theorem event_time_never_later:
  assumes "t_transaction_date t = Some x" "t_transaction_time t = Some s"
    and "valid_time s" "pred_option valid_time (d_transaction_time d)"
  shows "event_time (enrich_row now d Email (compute_enrichment_diff t d Email) t) \<le> event_time t"
  by (rule event_time_enrich_email[OF assms(1-3)]) (use assms(4) in auto)

theorem event_time_never_later_witness:
  "event_time (enrich_row 5 (blank_data\<lparr>d_transaction_date := Some 7, d_transaction_time := Some 80\<rparr>) Email
     (compute_enrichment_diff (blank_txn\<lparr>t_transaction_date := Some 7, t_transaction_time := Some 90\<rparr>)
        (blank_data\<lparr>d_transaction_date := Some 7, d_transaction_time := Some 80\<rparr>) Email)
     (blank_txn\<lparr>t_transaction_date := Some 7, t_transaction_time := Some 90\<rparr>))
   \<le> event_time (blank_txn\<lparr>t_transaction_date := Some 7, t_transaction_time := Some 90\<rparr>)"
  by (rule event_time_never_later[where x = 7 and s = 90]) (simp_all add: valid_time_def day_us_def)

text \<open>Enrichment never loses a value and never invents one: a field that holds a value still
  holds one afterwards, which is the old one or the incoming one; an empty field holds what the event
  brought; and id, bank, direction, amount, currency and the two exclusion flags do not change.\<close>

theorem enrichment_fields:
  fixes now d ch t
  defines "u \<equiv> enrich_row now d ch (compute_enrichment_diff t d ch) t"
  shows "money_facts u = money_facts t \<and>
    (case get_field f t of
       None \<Rightarrow> get_field f u = incoming_field f d
     | Some v \<Rightarrow> get_field f u = Some v \<or> incoming_field f d \<noteq> None \<and> get_field f u = incoming_field f d)"
proof
  show "money_facts u = money_facts t" by (simp add: u_def)
  show "case get_field f t of
           None \<Rightarrow> get_field f u = incoming_field f d
         | Some v \<Rightarrow> get_field f u = Some v \<or> incoming_field f d \<noteq> None \<and> get_field f u = incoming_field f d"
    unfolding u_def get_enrich_row
    by (auto simp: enrich_field_def new_value_def split: option.splits if_splits)
qed

text \<open>The priority of names: an alias the user keeps for a person never replaces a name a bank
  wrote, and a name a bank wrote replaces an alias on either channel, together with its source.\<close>

theorem bank_name_over_alias:
  fixes now d ch t
  defines "u \<equiv> enrich_row now d ch (compute_enrichment_diff t d ch) t"
  shows "(alias_must_not_replace t d \<and> t_counterparty t \<noteq> None \<longrightarrow> t_counterparty u = t_counterparty t) \<and>
    (bank_name_replaces_alias t d \<and> truthy (d_counterparty d) \<longrightarrow>
      t_counterparty u = d_counterparty d \<and> t_counterparty_source u \<noteq> ''user_alias'')"
proof -
  have row: "t_counterparty u = t_counterparty (apply_diff (compute_enrichment_diff t d ch) t)"
    by (subst (1 2) counterparty_get_field) (simp add: u_def get_enrich_row get_apply_diff)
  have str: "map_option (case_fval (\<lambda>_. []) (\<lambda>_. []) (\<lambda>s. s) (\<lambda>_. [])) (map_option VStr x) = x" for x
    by (cases x) simp_all
  have name: "t_counterparty u = (case new_value (enrich_field t d ch F_counterparty) of
      Some v \<Rightarrow> as_str v | None \<Rightarrow> t_counterparty t)"
    using incoming_well_typed[of F_counterparty d]
    by (subst counterparty_get_field)
       (auto simp: u_def get_enrich_row new_value_def as_str_def enrich_field_def str
         split: option.splits field_action.splits fval.splits if_splits)
  have "t_counterparty u = t_counterparty t" if "alias_must_not_replace t d" "t_counterparty t \<noteq> None"
    using that name
    by (auto simp: enrich_field_def new_value_def alias_must_not_replace_def bank_name_replaces_alias_def
      split: option.splits if_splits)
  moreover have "t_counterparty u = d_counterparty d \<and> t_counterparty_source u \<noteq> ''user_alias''"
    if b: "bank_name_replaces_alias t d" "truthy (d_counterparty d)"
  proof -
    have "t_counterparty u = d_counterparty d"
      using b name
      by (auto elim!: truthyE simp: enrich_field_def new_value_def as_str_def MASK_FIELDS_def
        alias_must_not_replace_def bank_name_replaces_alias_def split: option.splits if_splits)
    then show ?thesis
      using b row by (auto simp: u_def source_enrich_row bank_name_replaces_alias_def elim!: truthyE)
  qed
  ultimately show ?thesis by blast
qed

theorem bank_name_over_alias_witness:
  "t_counterparty (enrich_row 5 (blank_data\<lparr>d_counterparty := Some ''ACME''\<rparr>) Sms
     (compute_enrichment_diff (blank_txn\<lparr>t_counterparty := Some ''Mum'', t_counterparty_source := ''user_alias''\<rparr>)
       (blank_data\<lparr>d_counterparty := Some ''ACME''\<rparr>) Sms)
     (blank_txn\<lparr>t_counterparty := Some ''Mum'', t_counterparty_source := ''user_alias''\<rparr>)) = Some ''ACME''"
  using bank_name_over_alias[of "blank_txn\<lparr>t_counterparty := Some ''Mum'', t_counterparty_source := ''user_alias''\<rparr>"
    "blank_data\<lparr>d_counterparty := Some ''ACME''\<rparr>" 5 Sms]
  by (simp add: bank_name_replaces_alias_def blank_data_def)

end
