(* ===== verification/Category_Followups.thy ===== *)
theory Category_Followups
  imports Enrichment_Facts
begin

text \<open>
  What happens to the category of a row after a merge: \<^verbatim>\<open>categorization/self_transfer.py\<close> (the
  reference-pair rule), \<^verbatim>\<open>categorization/decision_lifecycle.py\<close> (superseding review decisions and
  cancelling their messages), \<^verbatim>\<open>assistant/delivery.py\<close> (the status of an interaction follows that
  of its deliveries) and \<open>requeue_after_enrichment\<close> of \<^verbatim>\<open>categorization/engine.py\<close>.

  The clock (\<open>utc_now\<close>), the vocabulary version of the settings table and the SHA-256 digest of the
  classifier input are the fields of an environment. \<open>str(txn.amount)\<close> in the digested payload is
  the amount itself.
\<close>

section \<open>The classifier input and its digest\<close>

record input_payload =
  p_raw_description :: string
  p_counterparty :: string
  p_direction :: string
  p_amount :: decimal
  p_currency :: string
  p_channel :: string
  p_bank :: string
  p_email_type :: string
  p_account_type :: string

record env =
  e_now :: datetime
  e_vocab_version :: int
  e_digest :: "input_payload \<Rightarrow> string"

definition sample_env :: env where
  "sample_env = \<lparr>e_now = 9, e_vocab_version = 1, e_digest = (\<lambda>p. p_counterparty p)\<rparr>"

text \<open>\<open>re.sub(r"[^a-z0-9 ]+", " ", s)\<close>: a maximal run of other characters becomes one space.\<close>

definition alnum_or_space :: "char \<Rightarrow> bool" where
  "alnum_or_space c \<longleftrightarrow>
     (97 \<le> char_code c \<and> char_code c \<le> 122) \<or> ascii_digit c \<or> c = CHR '' ''"

fun sub_other_runs :: "bool \<Rightarrow> string \<Rightarrow> string" where
  "sub_other_runs in_run [] = []"
| "sub_other_runs in_run (c # s) =
     (if alnum_or_space c then c # sub_other_runs False s
      else if in_run then sub_other_runs True s
      else CHR '' '' # sub_other_runs True s)"

definition normalize_text :: "string option \<Rightarrow> string" where
  "normalize_text s =
     (if \<not> truthy s then []
      else join_words (py_words (sub_other_runs False (py_lower (or_empty s)))))"

definition build_input_payload :: "txn \<Rightarrow> string option \<Rightarrow> input_payload" where
  "build_input_payload t account_type =
     \<lparr>p_raw_description = normalize_text (t_raw_description t),
      p_counterparty = normalize_counterparty (t_counterparty t),
      p_direction = t_direction t, p_amount = t_amount t,
      p_currency = (if truthy (t_currency t) then or_empty (t_currency t) else ''INR''),
      p_channel = or_empty (t_channel t), p_bank = t_bank t, p_email_type = t_email_type t,
      p_account_type = or_empty account_type\<rparr>"

definition compute_input_hash :: "env \<Rightarrow> input_payload \<Rightarrow> string" where
  "compute_input_hash e p = e_digest e p"

definition account_type :: "db \<Rightarrow> txn \<Rightarrow> string option" where
  "account_type d t =
     (case t_account_id t of None \<Rightarrow> None
      | Some i \<Rightarrow> map_option a_type (find (\<lambda>a. a_id a = i) (accounts d)))"

definition is_fd_counterparty :: "string option \<Rightarrow> string option \<Rightarrow> bool" where
  "is_fd_counterparty counterparty bank =
     (let bank_norm = py_lower (py_strip (or_empty bank)) in
      if bank_norm = [] then False
      else py_lower (py_strip (or_empty counterparty)) = bank_norm @ '' fd'')"

section \<open>Review decisions and their messages\<close>

definition refresh_interaction_delivery_status :: "env \<Rightarrow> int \<Rightarrow> db \<Rightarrow> db" where
  "refresh_interaction_delivery_status e i d =
     (let rows = filter (\<lambda>r. od_interaction_id r = Some i) (deliveries d) in
      if rows = [] then d
      else
        let status =
          (if \<forall>r \<in> set rows. od_status r = ''delivered'' then ''delivered''
           else if \<exists>r \<in> set rows. od_status r \<in> {''abandoned'', ''cancelled''} then ''delivery_failed''
           else if \<exists>r \<in> set rows. od_status r \<in> {''delivering'', ''delivery_unknown''} then ''delivery_partial''
           else ''ready_to_send'')
        in d\<lparr>interactions := update_where (\<lambda>a. ai_id a = i)
               (\<lambda>a. a\<lparr>ai_status := status,
                      ai_completed_at := (if status \<in> {''delivered'', ''delivery_failed''}
                                          then Some (e_now e) else None)\<rparr>)
               (interactions d)\<rparr>)"

definition active_decision :: "int \<Rightarrow> int option \<Rightarrow> review_decision \<Rightarrow> bool" where
  "active_decision tid preserve r \<longleftrightarrow>
     rd_transaction_id r = tid \<and> rd_status r = ''active'' \<and>
     (case preserve of None \<Rightarrow> True | Some p \<Rightarrow> rd_id r \<noteq> p)"

definition undelivered :: "delivery \<Rightarrow> bool" where
  "undelivered r \<longleftrightarrow> od_status r \<in> {''pending'', ''delivering'', ''delivery_unknown''}"

definition owned_delivery :: "int list \<Rightarrow> int list \<Rightarrow> int \<Rightarrow> delivery \<Rightarrow> bool" where
  "owned_delivery active_ids source_ids tid r \<longleftrightarrow>
     (case od_category_review_decision_id r of None \<Rightarrow> False | Some i \<Rightarrow> i \<in> set active_ids) \<or>
     (case od_interaction_id r of None \<Rightarrow> False | Some i \<Rightarrow> i \<in> set source_ids) \<and>
       od_transaction_id r = Some tid"

definition cancel_delivery :: "delivery \<Rightarrow> delivery" where
  "cancel_delivery r =
     r\<lparr>od_status := ''cancelled'', od_worker_token := None, od_delivery_lease_until := None\<rparr>"

definition source_interaction_ids :: "review_decision list \<Rightarrow> int list" where
  "source_interaction_ids rs =
     concat (map (\<lambda>r. case rd_source_interaction_id r of None \<Rightarrow> [] | Some i \<Rightarrow> [i]) rs)"

definition supersede_active_decisions :: "env \<Rightarrow> int \<Rightarrow> int option \<Rightarrow> db \<Rightarrow> db" where
  "supersede_active_decisions e tid preserve d =
     (let active = filter (active_decision tid preserve) (review_decisions d);
          active_ids = map rd_id active;
          source_ids = source_interaction_ids active;
          d1 = d\<lparr>deliveries := update_where
                 (\<lambda>r. owned_delivery active_ids source_ids tid r \<and> undelivered r)
                 cancel_delivery (deliveries d)\<rparr>;
          d2 = d1\<lparr>review_decisions := update_where (active_decision tid preserve)
                 (\<lambda>r. r\<lparr>rd_status := ''superseded'', rd_superseded_at := Some (e_now e)\<rparr>)
                 (review_decisions d1)\<rparr>
      in fold (refresh_interaction_delivery_status e) source_ids d2)"

section \<open>The reference-pair rule\<close>

definition REFERENCE_PAIR_RULESET_VERSION :: string where
  "REFERENCE_PAIR_RULESET_VERSION = ''reference-pair-v1''"

definition OPPOSITE_DIRECTION :: "string \<Rightarrow> string option" where
  "OPPOSITE_DIRECTION = [''credit'' \<mapsto> ''debit'', ''debit'' \<mapsto> ''credit'']"

definition MIN_ACCOUNT_MASK_DIGITS :: nat where
  "MIN_ACCOUNT_MASK_DIGITS = 3"

definition already_current :: "env \<Rightarrow> string \<Rightarrow> txn \<Rightarrow> bool" where
  "already_current e input_hash t \<longleftrightarrow>
     t_category t = Some ''self_transfer'' \<and> t_category_method t = Some ''rule'' \<and>
     t_category_confidence t = Some 1 \<and>
     t_category_model t = Some REFERENCE_PAIR_RULESET_VERSION \<and>
     t_category_input_hash t = Some input_hash \<and>
     t_category_vocab_version t = Some (e_vocab_version e) \<and>
     t_review_status t = None \<and> t_review_reason t = None"

definition mark_self_transfer :: "env \<Rightarrow> db \<Rightarrow> txn \<Rightarrow> txn" where
  "mark_self_transfer e d t =
     (let input_hash = compute_input_hash e (build_input_payload t (account_type d t)) in
      if already_current e input_hash t then t
      else t\<lparr>t_category := Some ''self_transfer'', t_category_method := Some ''rule'',
             t_category_confidence := Some 1,
             t_category_model := Some REFERENCE_PAIR_RULESET_VERSION,
             t_category_input_hash := Some input_hash,
             t_category_vocab_version := Some (e_vocab_version e),
             t_categorized_at := Some (e_now e), t_review_status := None, t_review_reason := None\<rparr>)"

definition different_accounts :: "txn \<Rightarrow> txn \<Rightarrow> bool" where
  "different_accounts first second =
     (case (t_account_id first, t_account_id second) of
        (Some i, Some j) \<Rightarrow> i \<noteq> j
      | _ \<Rightarrow>
          let first_digits = mask_digits (t_account_mask first);
              second_digits = mask_digits (t_account_mask second)
          in if length first_digits < MIN_ACCOUNT_MASK_DIGITS \<or>
                length second_digits < MIN_ACCOUNT_MASK_DIGITS
             then False
             else \<not> (suffix second_digits first_digits \<or> suffix first_digits second_digits))"

definition self_transfer_matches :: "db \<Rightarrow> txn \<Rightarrow> txn list" where
  "self_transfer_matches d t =
     (if is_fd_counterparty (t_counterparty t) (Some (t_bank t)) then []
      else case (t_reference_number t, OPPOSITE_DIRECTION (t_direction t)) of
          (Some r, Some opposite) \<Rightarrow>
            if py_strip r = [] then []
            else filter (\<lambda>m. different_accounts t m \<and>
                             \<not> is_fd_counterparty (t_counterparty m) (Some (t_bank m)))
                   (filter (\<lambda>m. t_reference_number m = Some r \<and> t_direction m = opposite)
                     (transactions d))
        | _ \<Rightarrow> [])"

definition mark_leg :: "env \<Rightarrow> int \<Rightarrow> db \<Rightarrow> db" where
  "mark_leg e i d = supersede_active_decisions e i None (write_txn i (mark_self_transfer e d) d)"

definition apply_reference_self_transfer_rule :: "env \<Rightarrow> txn \<Rightarrow> db \<Rightarrow> bool \<times> db" where
  "apply_reference_self_transfer_rule e t d =
     (let matches = self_transfer_matches d t in
      if matches = [] then (False, d)
      else (True, fold (mark_leg e) (map t_id matches) (mark_leg e (t_id t) d)))"

section \<open>Requeueing\<close>

definition requeue_due :: "env \<Rightarrow> db \<Rightarrow> txn \<Rightarrow> bool" where
  "requeue_due e d t \<longleftrightarrow>
     \<not> (t_category_method t \<noteq> Some ''llm'' \<or>
        t_category t \<noteq> Some ''unknown'' \<and>
        t_review_status t \<notin> {Some ''pending'', Some ''notified''}) \<and>
     Some (compute_input_hash e (build_input_payload t (account_type d t))) \<noteq> t_category_input_hash t"

definition requeue_after_enrichment :: "env \<Rightarrow> txn \<Rightarrow> db \<Rightarrow> db" where
  "requeue_after_enrichment e t d =
     (if \<not> requeue_due e d t then d
      else supersede_active_decisions e (t_id t) None
        (write_txn (t_id t)
          (\<lambda>t. t\<lparr>t_category_method := Some ''pending_llm'', t_review_status := None,
                 t_review_reason := None\<rparr>) d))"

section \<open>Frames\<close>

text \<open>The columns the follow-ups may write are those of the categorization.\<close>

definition drop_category :: "txn \<Rightarrow> txn" where
  "drop_category t =
     t\<lparr>t_category := None, t_category_method := None, t_category_confidence := None,
       t_category_model := None, t_category_input_hash := None, t_category_vocab_version := None,
       t_categorized_at := None, t_review_status := None, t_review_reason := None\<rparr>"

lemma refresh_frame [simp]:
  "transactions (refresh_interaction_delivery_status e i d) = transactions d"
  "accounts (refresh_interaction_delivery_status e i d) = accounts d"
  "cards (refresh_interaction_delivery_status e i d) = cards d"
  "review_decisions (refresh_interaction_delivery_status e i d) = review_decisions d"
  "deliveries (refresh_interaction_delivery_status e i d) = deliveries d"
  by (simp_all add: refresh_interaction_delivery_status_def Let_def)

lemma fold_refresh_frame [simp]:
  "transactions (fold (refresh_interaction_delivery_status e) is d) = transactions d"
  "accounts (fold (refresh_interaction_delivery_status e) is d) = accounts d"
  "cards (fold (refresh_interaction_delivery_status e) is d) = cards d"
  "review_decisions (fold (refresh_interaction_delivery_status e) is d) = review_decisions d"
  "deliveries (fold (refresh_interaction_delivery_status e) is d) = deliveries d"
  by (induction "is" arbitrary: d) simp_all

lemma supersede_frame [simp]:
  "transactions (supersede_active_decisions e tid p d) = transactions d"
  "accounts (supersede_active_decisions e tid p d) = accounts d"
  "cards (supersede_active_decisions e tid p d) = cards d"
  by (simp_all add: supersede_active_decisions_def Let_def)

lemma mark_drop_category [simp]: "drop_category (mark_self_transfer e d t) = drop_category t"
  by (simp add: mark_self_transfer_def Let_def drop_category_def)

lemma mark_leg_drop_category [simp]:
  "map drop_category (transactions (mark_leg e i d)) = map drop_category (transactions d)"
  "accounts (mark_leg e i d) = accounts d"
  by (simp_all add: mark_leg_def map_update_where write_txn_def)

lemma fold_mark_leg_drop_category [simp]:
  "map drop_category (transactions (fold (mark_leg e) is d)) = map drop_category (transactions d)"
  "accounts (fold (mark_leg e) is d) = accounts d"
  by (induction "is" arbitrary: d) simp_all

lemma rule_drop_category:
  "map drop_category (transactions (snd (apply_reference_self_transfer_rule e t d))) =
     map drop_category (transactions d)"
  by (simp add: apply_reference_self_transfer_rule_def Let_def)

lemma requeue_drop_category:
  "map drop_category (transactions (requeue_after_enrichment e t d)) =
     map drop_category (transactions d)"
  by (simp add: requeue_after_enrichment_def map_update_where drop_category_def)

section \<open>Superseding\<close>

lemma supersede_decisions:
  "review_decisions (supersede_active_decisions e tid p d) =
     update_where (active_decision tid p)
       (\<lambda>r. r\<lparr>rd_status := ''superseded'', rd_superseded_at := Some (e_now e)\<rparr>) (review_decisions d)"
  by (simp add: supersede_active_decisions_def Let_def)

lemma supersede_deliveries:
  "deliveries (supersede_active_decisions e tid p d) =
     (let active = filter (active_decision tid p) (review_decisions d) in
      update_where (\<lambda>r. owned_delivery (map rd_id active) (source_interaction_ids active) tid r \<and> undelivered r)
        cancel_delivery (deliveries d))"
  by (simp add: supersede_active_decisions_def Let_def)

lemma supersede_no_active:
  "r \<in> set (review_decisions (supersede_active_decisions e tid p d)) \<Longrightarrow> \<not> active_decision tid p r"
proof -
  let ?f = "\<lambda>r. r\<lparr>rd_status := ''superseded'', rd_superseded_at := Some (e_now e)\<rparr>"
  assume "r \<in> set (review_decisions (supersede_active_decisions e tid p d))"
  then obtain q where q: "r = (if active_decision tid p q then ?f q else q)"
    unfolding supersede_decisions by (blast dest: in_set_update_where)
  have "\<not> active_decision tid p (?f q)" by (simp add: active_decision_def)
  then show ?thesis using q by (cases "active_decision tid p q") auto
qed

lemma supersede_other_decisions:
  "filter (\<lambda>r. rd_transaction_id r \<noteq> tid) (review_decisions (supersede_active_decisions e tid p d)) =
     filter (\<lambda>r. rd_transaction_id r \<noteq> tid) (review_decisions d)"
proof -
  have "filter (\<lambda>r. rd_transaction_id r \<noteq> tid) (update_where (active_decision tid p) f rs) =
      filter (\<lambda>r. rd_transaction_id r \<noteq> tid) rs"
    if "\<And>r. rd_transaction_id (f r) = rd_transaction_id r" for f rs
    using that by (induction rs) (auto simp: active_decision_def)
  then show ?thesis by (simp add: supersede_decisions)
qed

lemma supersede_cancels:
  assumes "q \<in> set (review_decisions d)" "active_decision tid p q"
    and "r \<in> set (deliveries (supersede_active_decisions e tid p d))"
    and "od_category_review_decision_id r = Some (rd_id q)"
  shows "\<not> undelivered r"
proof
  assume u: "undelivered r"
  define active where "active = filter (active_decision tid p) (review_decisions d)"
  have q: "rd_id q \<in> set (map rd_id active)" using assms(1,2) by (auto simp: active_def)
  obtain r0 where r0: "r = (if owned_delivery (map rd_id active) (source_interaction_ids active) tid r0
      \<and> undelivered r0 then cancel_delivery r0 else r0)"
    using assms(3) unfolding supersede_deliveries Let_def active_def[symmetric]
    by (blast dest: in_set_update_where)
  show False
    using r0 u assms(4) q
    by (auto simp: undelivered_def cancel_delivery_def owned_delivery_def split: if_splits)
qed

section \<open>Self-transfers\<close>

lemma payload_drop_category:
  "drop_category t = drop_category u \<Longrightarrow> build_input_payload t a = build_input_payload u a"
proof -
  have fields: "build_input_payload (drop_category t) a = build_input_payload t a" for t
    by (simp add: build_input_payload_def drop_category_def)
  assume "drop_category t = drop_category u"
  then show ?thesis using fields by metis
qed

lemma account_type_drop_category:
  "drop_category t = drop_category u \<Longrightarrow> accounts d = accounts d' \<Longrightarrow> account_type d t = account_type d' u"
proof -
  assume "drop_category t = drop_category u" and acc: "accounts d = accounts d'"
  then have "t_account_id (drop_category t) = t_account_id (drop_category u)" by simp
  then have "t_account_id t = t_account_id u" by (simp add: drop_category_def)
  then show ?thesis using acc by (cases "t_account_id u") (simp_all add: account_type_def)
qed

lemma mark_self_transfer_accounts:
  "accounts d = accounts d' \<Longrightarrow> mark_self_transfer e d = mark_self_transfer e d'"
proof -
  assume "accounts d = accounts d'"
  then have "account_type d = account_type d'"
    by (intro ext account_type_drop_category) simp_all
  then show ?thesis unfolding mark_self_transfer_def by simp
qed

text \<open>Marking again, later, changes nothing: the time of the categorization is not churned.\<close>

lemma mark_self_transfer_again:
  assumes "e_digest e' = e_digest e" "e_vocab_version e' = e_vocab_version e" "accounts d' = accounts d"
  shows "mark_self_transfer e' d' (mark_self_transfer e d t) = mark_self_transfer e d t"
proof -
  let ?u = "mark_self_transfer e d t"
  let ?h = "compute_input_hash e (build_input_payload t (account_type d t))"
  have "build_input_payload ?u (account_type d' ?u) = build_input_payload t (account_type d t)"
    using payload_drop_category account_type_drop_category assms(3) mark_drop_category by metis
  then have h: "compute_input_hash e' (build_input_payload ?u (account_type d' ?u)) = ?h"
    using assms(1) by (simp add: compute_input_hash_def)
  have "already_current e ?h ?u"
    by (simp add: mark_self_transfer_def Let_def already_current_def)
  then have "already_current e' ?h ?u" using assms(2) by (simp add: already_current_def)
  then show ?thesis by (subst mark_self_transfer_def) (simp add: h)
qed

lemma mark_self_transfer_id [simp]: "t_id (mark_self_transfer e d t) = t_id t"
  by (simp add: mark_self_transfer_def Let_def)

lemma transactions_mark_leg:
  "transactions (mark_leg e i d) = update_where (\<lambda>t. t_id t = i) (mark_self_transfer e d) (transactions d)"
  by (simp add: mark_leg_def)

lemma transactions_fold_mark_leg:
  "transactions (fold (mark_leg e) is d) =
     update_where (\<lambda>t. t_id t \<in> set is) (mark_self_transfer e d) (transactions d)"
proof (induction "is" arbitrary: d)
  case Nil
  show ?case by simp
next
  case (Cons i "is")
  have "mark_self_transfer e (mark_leg e i d) = mark_self_transfer e d"
    by (rule mark_self_transfer_accounts) simp
  then show ?case
    using Cons[of "mark_leg e i d"]
    by (simp add: transactions_mark_leg update_where_update_where mark_self_transfer_again)
qed

lemma transactions_rule:
  "transactions (snd (apply_reference_self_transfer_rule e t d)) =
     (if self_transfer_matches d t = [] then transactions d
      else update_where (\<lambda>u. t_id u = t_id t \<or> t_id u \<in> t_id ` set (self_transfer_matches d t))
             (mark_self_transfer e d) (transactions d))"
  using transactions_fold_mark_leg[of e "t_id t # map t_id (self_transfer_matches d t)" d]
  by (simp add: apply_reference_self_transfer_rule_def Let_def)

lemma fst_rule: "fst (apply_reference_self_transfer_rule e t d) \<longleftrightarrow> self_transfer_matches d t \<noteq> []"
  by (simp add: apply_reference_self_transfer_rule_def Let_def)

lemma different_accounts_sym: "different_accounts t u = different_accounts u t"
  by (auto simp: different_accounts_def Let_def split: option.splits)

lemma opposite_sym: "OPPOSITE_DIRECTION x = Some y \<Longrightarrow> OPPOSITE_DIRECTION y = Some x"
  by (auto simp: OPPOSITE_DIRECTION_def split: if_splits)

lemma self_transfer_matches_iff:
  "m \<in> set (self_transfer_matches d t) \<longleftrightarrow>
     m \<in> set (transactions d) \<and> different_accounts t m \<and>
     \<not> is_fd_counterparty (t_counterparty t) (Some (t_bank t)) \<and>
     \<not> is_fd_counterparty (t_counterparty m) (Some (t_bank m)) \<and>
     t_reference_number m = t_reference_number t \<and>
     (\<exists>r. t_reference_number t = Some r \<and> py_strip r \<noteq> []) \<and>
     OPPOSITE_DIRECTION (t_direction t) = Some (t_direction m)"
  by (cases "t_reference_number t"; cases "OPPOSITE_DIRECTION (t_direction t)")
     (auto simp: self_transfer_matches_def)

lemma self_transfer_matches_sym:
  "m \<in> set (self_transfer_matches d t) \<Longrightarrow> t \<in> set (transactions d) \<Longrightarrow>
   t \<in> set (self_transfer_matches d m)"
  unfolding self_transfer_matches_iff
  by (metis different_accounts_sym opposite_sym)

section \<open>Properties\<close>

lemma filter_drop_category:
  assumes "map drop_category rows' = map drop_category rows"
    and "\<And>t u. drop_category t = drop_category u \<Longrightarrow> P t = P u"
  shows "map drop_category (filter P rows') = map drop_category (filter P rows)"
  using assms(1)
proof (induction rows arbitrary: rows')
  case (Cons r rows)
  obtain q qs where "rows' = q # qs" "drop_category q = drop_category r"
    "map drop_category qs = map drop_category rows" using Cons.prems by (cases rows') simp_all
  then show ?case using Cons.IH[of qs] assms(2)[of q r] by simp
qed simp

lemma of_drop_category:
  "t_id (drop_category t) = t_id t" "t_account_id (drop_category t) = t_account_id t"
  "t_account_mask (drop_category t) = t_account_mask t" "t_counterparty (drop_category t) = t_counterparty t"
  "t_bank (drop_category t) = t_bank t" "t_reference_number (drop_category t) = t_reference_number t"
  "t_direction (drop_category t) = t_direction t"
  by (simp_all add: drop_category_def)

definition counter_leg :: "txn \<Rightarrow> txn \<Rightarrow> bool" where
  "counter_leg t m \<longleftrightarrow> different_accounts t m \<and>
     \<not> is_fd_counterparty (t_counterparty t) (Some (t_bank t)) \<and>
     \<not> is_fd_counterparty (t_counterparty m) (Some (t_bank m)) \<and>
     t_reference_number m = t_reference_number t \<and>
     (\<exists>r. t_reference_number t = Some r \<and> py_strip r \<noteq> []) \<and>
     OPPOSITE_DIRECTION (t_direction t) = Some (t_direction m)"

lemma self_transfer_matches_counter_leg: "self_transfer_matches d t = filter (counter_leg t) (transactions d)"
proof -
  have "m \<in> set (self_transfer_matches d t) \<longleftrightarrow> m \<in> set (transactions d) \<and> counter_leg t m" for m
    unfolding self_transfer_matches_iff counter_leg_def by blast
  moreover have "\<exists>P. self_transfer_matches d t = filter P (transactions d)"
    by (cases "t_reference_number t"; cases "OPPOSITE_DIRECTION (t_direction t)")
       (auto simp: self_transfer_matches_def intro: exI[of _ "\<lambda>_. False"])
  ultimately show ?thesis by (metis (mono_tags, lifting) filter_cong mem_Collect_eq set_filter)
qed

lemma counter_leg_drop_category: "counter_leg t (drop_category m) = counter_leg t m"
  by (simp add: counter_leg_def of_drop_category different_accounts_def Let_def cong: option.case_cong)

lemma matches_drop_category:
  assumes "map drop_category (transactions d') = map drop_category (transactions d)"
  shows "map t_id (self_transfer_matches d' t) = map t_id (self_transfer_matches d t)"
proof -
  have "map drop_category (self_transfer_matches d' t) = map drop_category (self_transfer_matches d t)"
    unfolding self_transfer_matches_counter_leg
    by (rule filter_drop_category[OF assms]) (metis counter_leg_drop_category)
  from arg_cong[OF this, of "map t_id"] show ?thesis by (simp add: comp_def of_drop_category(1))
qed

text \<open>The rule that pairs the two legs of a transfer is symmetric: the credit finds the debit among
  its counter legs exactly when the debit finds the credit, so both arrivals fire the same pair.\<close>

theorem self_transfer_pair_symmetric:
  assumes "t \<in> set (transactions d)" "m \<in> set (transactions d)"
  shows "m \<in> set (self_transfer_matches d t) \<longleftrightarrow> t \<in> set (self_transfer_matches d m)"
  using self_transfer_matches_sym assms by blast

theorem self_transfer_pair_symmetric_witness:
  "blank_txn\<lparr>t_direction := ''credit''\<rparr> \<in> set (self_transfer_matches
      (empty_db\<lparr>transactions := [blank_txn, blank_txn\<lparr>t_direction := ''credit''\<rparr>]\<rparr>) blank_txn) \<longleftrightarrow>
   blank_txn \<in> set (self_transfer_matches
      (empty_db\<lparr>transactions := [blank_txn, blank_txn\<lparr>t_direction := ''credit''\<rparr>]\<rparr>) (blank_txn\<lparr>t_direction := ''credit''\<rparr>))"
  by (rule self_transfer_pair_symmetric) simp_all

text \<open>The rule only categorizes, and it is idempotent: whatever it fires on, no column but those of
  the categorization changes, in no row; and firing again on the same row, at any later time, under
  the same vocabulary leaves every row, its time of categorization included, as it is.\<close>

theorem self_transfer_rule_idempotent:
  fixes e e' d t
  defines "d1 \<equiv> snd (apply_reference_self_transfer_rule e t d)"
  assumes "e_digest e' = e_digest e" "e_vocab_version e' = e_vocab_version e"
  shows "map drop_category (transactions d1) = map drop_category (transactions d) \<and>
    transactions (snd (apply_reference_self_transfer_rule e' t d1)) = transactions d1"
proof
  show frame: "map drop_category (transactions d1) = map drop_category (transactions d)"
    unfolding d1_def by (rule rule_drop_category)
  have ids: "map t_id (self_transfer_matches d1 t) = map t_id (self_transfer_matches d t)"
    by (rule matches_drop_category[OF frame])
  have accs: "accounts d1 = accounts d"
    by (simp add: d1_def apply_reference_self_transfer_rule_def Let_def)
  show "transactions (snd (apply_reference_self_transfer_rule e' t d1)) = transactions d1"
  proof (cases "self_transfer_matches d t = []")
    case True
    then have "self_transfer_matches d1 t = []" using ids by simp
    then show ?thesis by (simp add: transactions_rule)
  next
    case False
    then have ne: "self_transfer_matches d1 t \<noteq> []" using ids by auto
    have set_ids: "t_id ` set (self_transfer_matches d1 t) = t_id ` set (self_transfer_matches d t)"
      using ids by (metis list.set_map)
    let ?P = "\<lambda>u. t_id u = t_id t \<or> t_id u \<in> t_id ` set (self_transfer_matches d t)"
    have "update_where ?P (mark_self_transfer e' d1) (update_where ?P (mark_self_transfer e d) rows) =
        update_where ?P (mark_self_transfer e d) rows" for rows
      using mark_self_transfer_again[OF assms(2,3) accs] by (induction rows) auto
    then show ?thesis using False ne set_ids by (simp add: transactions_rule d1_def)
  qed
qed

theorem self_transfer_rule_idempotent_witness:
  "transactions (snd (apply_reference_self_transfer_rule (sample_env\<lparr>e_now := 10\<rparr>) blank_txn
      (snd (apply_reference_self_transfer_rule sample_env blank_txn (empty_db\<lparr>transactions := [blank_txn]\<rparr>))))) =
   transactions (snd (apply_reference_self_transfer_rule sample_env blank_txn (empty_db\<lparr>transactions := [blank_txn]\<rparr>)))"
  using self_transfer_rule_idempotent[of "sample_env\<lparr>e_now := 10\<rparr>" sample_env blank_txn "empty_db\<lparr>transactions := [blank_txn]\<rparr>"]
  by simp

text \<open>Superseding leaves at most the preserved decision active: afterwards the transaction has no
  other active review decision, the decisions of other transactions are as they were, and no
  undelivered message of a superseded decision is left in the outbox.\<close>

theorem supersede_complete:
  fixes e tid preserve d
  defines "d' \<equiv> supersede_active_decisions e tid preserve d"
  shows "(\<forall>r \<in> set (review_decisions d'). \<not> active_decision tid preserve r) \<and>
    filter (\<lambda>r. rd_transaction_id r \<noteq> tid) (review_decisions d') =
      filter (\<lambda>r. rd_transaction_id r \<noteq> tid) (review_decisions d) \<and>
    (\<forall>q \<in> set (review_decisions d). active_decision tid preserve q \<longrightarrow>
       (\<forall>m \<in> set (deliveries d'). od_category_review_decision_id m = Some (rd_id q) \<longrightarrow> \<not> undelivered m))"
  unfolding d'_def using supersede_no_active supersede_other_decisions supersede_cancels by blast

definition sample_review :: db where
  "sample_review = empty_db
     \<lparr>review_decisions := [\<lparr>rd_id = 1, rd_transaction_id = 7, rd_source_interaction_id = None,
        rd_category_input_hash = [], rd_candidates = [], rd_proposed_slug = None, rd_confidence = None,
        rd_threshold = None, rd_gate_reason = None, rd_status = ''active'', rd_expires_at = None,
        rd_selected_slug = None, rd_consumed_at = None, rd_superseded_at = None\<rparr>],
      deliveries := [blank_delivery]\<rparr>"

theorem supersede_complete_witness:
  "\<not> list_ex (active_decision 7 None) (review_decisions (supersede_active_decisions sample_env 7 None sample_review))"
  using supersede_complete[of sample_env 7 None sample_review] by (auto simp: list_ex_iff)

end
