(* ===== verification/Txn_Merge.thy ===== *)
theory Txn_Merge
  imports Category_Followups
begin

text \<open>
  \<open>merge_transaction\<close> of \<^verbatim>\<open>services/txn_merge.py\<close>: match, then insert, enrich or defer, with the
  unique index \<open>uq_transactions_ref\<close> and \<open>claim_transaction_source_slot\<close> of
  \<^verbatim>\<open>services/email_attachments.py\<close>. The function \<open>race\<close> is what other sessions commit between the
  first query and the first write; an \<open>IntegrityError\<close> and a \<open>TransactionSlotConflict\<close> are
  values of \<open>merge_error\<close>.
\<close>

section \<open>Constraints of the table\<close>

definition ref_key :: "txn \<Rightarrow> (string \<times> string \<times> string) option" where
  "ref_key t = map_option (\<lambda>r. (t_bank t, r, t_direction t)) (t_reference_number t)"

definition some_values :: "('a \<Rightarrow> 'b option) \<Rightarrow> 'a list \<Rightarrow> 'b list" where
  "some_values f xs = map (\<lambda>x. the (f x)) (filter (\<lambda>x. f x \<noteq> None) xs)"

definition uq_transactions_ref :: "txn list \<Rightarrow> bool" where
  "uq_transactions_ref rows \<longleftrightarrow> distinct (some_values ref_key rows)"

definition db_ok :: "db \<Rightarrow> bool" where
  "db_ok d \<longleftrightarrow> distinct (map t_id (transactions d)) \<and> uq_transactions_ref (transactions d)"

datatype merge_error = Integrity_error | Slot_conflict | Stale_row

definition flush :: "db \<Rightarrow> merge_error + db" where
  "flush d = (if uq_transactions_ref (transactions d) then Inr d else Inl Integrity_error)"

section \<open>Inserting\<close>

definition new_row :: "env \<Rightarrow> int \<Rightarrow> channel \<Rightarrow> txn_data \<Rightarrow> int option \<Rightarrow> int option \<Rightarrow> txn" where
  "new_row e i ch data sms_message_id email_id =
     \<lparr>t_id = i, t_email_id = email_id, t_account_id = None, t_card_id = None, t_statement_upload_id = None,
      t_bank_statement_upload_id = None, t_bank = d_bank data, t_email_type = d_email_type data,
      t_direction = d_direction data, t_amount = d_amount data, t_currency = d_currency data,
      t_transaction_date = d_transaction_date data, t_transaction_time = d_transaction_time data,
      t_identifies_by = d_identifies_by data,
      t_counterparty_source = (case d_counterparty_source data of None \<Rightarrow> ''bank'' | Some s \<Rightarrow> s),
      t_amount_source = ''bank'',
      t_time_is_received_time = d_time_is_received_time data, t_counterparty = d_counterparty data,
      t_card_mask = d_card_mask data, t_card_holder = d_card_holder data, t_account_mask = d_account_mask data,
      t_reference_number = d_reference_number data, t_channel = d_channel data,
      t_balance = d_balance data, t_raw_description = d_raw_description data, t_note = None, t_attachment_path = None,
      t_exclude_from_cashflow = Some False, t_voided = Some False, t_category = None,
      t_category_method = None, t_category_confidence = None, t_category_model = None,
      t_category_input_hash = None, t_category_vocab_version = None, t_categorized_at = None,
      t_review_status = None, t_review_reason = None, t_sms_message_id = sms_message_id,
      t_source = Some (channel_name ch), t_notified_channel = Some (channel_name ch),
      t_enriched_at = None, t_created_at = Some (e_now e),
      t_last_notified_at = None, t_notify_attempts = Some 0\<rparr>"

definition insert_row :: "env \<Rightarrow> channel \<Rightarrow> txn_data \<Rightarrow> int option \<Rightarrow> int option \<Rightarrow> db \<Rightarrow> merge_error + (txn \<times> db)" where
  "insert_row e ch data sms_message_id email_id d =
     (let row = new_row e (next_id (map t_id (transactions d))) ch data sms_message_id email_id in
      case flush (d\<lparr>transactions := transactions d @ [row]\<rparr>) of
        Inl err \<Rightarrow> Inl err
      | Inr d' \<Rightarrow> Inr (row, d'))"

section \<open>Claiming a source slot\<close>

definition set_slot :: "channel \<Rightarrow> int \<Rightarrow> txn \<Rightarrow> txn" where
  "set_slot ch i t =
     (case ch of Sms \<Rightarrow> t\<lparr>t_sms_message_id := Some i\<rparr> | Email \<Rightarrow> t\<lparr>t_email_id := Some i\<rparr>)"

definition claim_transaction_source_slot :: "txn \<Rightarrow> channel \<Rightarrow> int option \<Rightarrow> db \<Rightarrow> merge_error + db" where
  "claim_transaction_source_slot t ch source_id d =
     (case source_id of
        None \<Rightarrow> Inr d
      | Some i \<Rightarrow>
          if slot_of ch t \<noteq> None then Inr d
          else
            let claimable = (\<lambda>r. t_id r = t_id t \<and> (slot_of ch r = None \<or> slot_of ch r = Some i)) in
            if length (filter claimable (transactions d)) \<noteq> 1 then Inl Slot_conflict
            else Inr (d\<lparr>transactions := update_where claimable (set_slot ch i) (transactions d)\<rparr>))"

section \<open>Enriching\<close>

text \<open>The \<open>UPDATE\<close> of a flush writes the columns whose value changed on the loaded object.\<close>

definition if_changed :: "'a \<Rightarrow> 'a \<Rightarrow> 'a \<Rightarrow> 'a" where
  "if_changed old new stored = (if new = old then stored else new)"

definition write_changes :: "txn \<Rightarrow> txn \<Rightarrow> txn \<Rightarrow> txn" where
  "write_changes t u r =
     r\<lparr>t_transaction_date := if_changed (t_transaction_date t) (t_transaction_date u) (t_transaction_date r),
       t_transaction_time := if_changed (t_transaction_time t) (t_transaction_time u) (t_transaction_time r),
       t_counterparty := if_changed (t_counterparty t) (t_counterparty u) (t_counterparty r),
       t_card_mask := if_changed (t_card_mask t) (t_card_mask u) (t_card_mask r),
       t_card_holder := if_changed (t_card_holder t) (t_card_holder u) (t_card_holder r),
       t_account_mask := if_changed (t_account_mask t) (t_account_mask u) (t_account_mask r),
       t_reference_number := if_changed (t_reference_number t) (t_reference_number u) (t_reference_number r),
       t_channel := if_changed (t_channel t) (t_channel u) (t_channel r),
       t_balance := if_changed (t_balance t) (t_balance u) (t_balance r),
       t_raw_description := if_changed (t_raw_description t) (t_raw_description u) (t_raw_description r),
       t_time_is_received_time :=
         if_changed (t_time_is_received_time t) (t_time_is_received_time u) (t_time_is_received_time r),
       t_counterparty_source :=
         if_changed (t_counterparty_source t) (t_counterparty_source u) (t_counterparty_source r),
       t_source := if_changed (t_source t) (t_source u) (t_source r),
       t_enriched_at := if_changed (t_enriched_at t) (t_enriched_at u) (t_enriched_at r)\<rparr>"

definition flush_changes :: "txn \<Rightarrow> txn \<Rightarrow> db \<Rightarrow> merge_error + db" where
  "flush_changes t u d =
     (if u = t then Inr d
      else if get_txn (t_id t) d = None then Inl Stale_row
      else flush (write_txn (t_id t) (write_changes t u) d))"

definition enrichment_followups :: "env \<Rightarrow> txn \<Rightarrow> db \<Rightarrow> db" where
  "enrichment_followups e t d =
     (let (fired, d') = apply_reference_self_transfer_rule e t d;
          t' = (if fired then mark_self_transfer e d t else t)
      in requeue_after_enrichment e t' d')"

definition apply_transaction_enrichment ::
    "env \<Rightarrow> txn \<Rightarrow> txn_data \<Rightarrow> channel \<Rightarrow> int option \<Rightarrow> int option \<Rightarrow> match_kind \<Rightarrow> db \<Rightarrow>
     merge_error + (enrichment_diff \<times> db)" where
  "apply_transaction_enrichment e t data ch sms_message_id email_id kind d =
     (let source_id = (if ch = Sms then sms_message_id else email_id) in
      case claim_transaction_source_slot t ch source_id d of
        Inl err \<Rightarrow> Inl err
      | Inr d1 \<Rightarrow>
          let diff = compute_applied_enrichment_diff t data ch kind;
              t' = enrich_row (e_now e) data ch diff t
          in case flush_changes t t' d1 of
               Inl err \<Rightarrow> Inl err
             | Inr d2 \<Rightarrow> Inr (diff, enrichment_followups e t' d2))"

section \<open>Merging\<close>

datatype merge_outcome = Created | Enriched | Deferred

record merge_result =
  m_outcome :: merge_outcome
  m_transaction :: "int option"
  m_diff :: enrichment_diff
  m_deferral_reason :: "deferral_reason option"
  m_resolution_candidate_ids :: "int list"

definition created_result :: "txn \<Rightarrow> merge_result" where
  "created_result t = \<lparr>m_outcome = Created, m_transaction = Some (t_id t), m_diff = no_changes,
     m_deferral_reason = None, m_resolution_candidate_ids = []\<rparr>"

definition enriched_result :: "txn \<Rightarrow> enrichment_diff \<Rightarrow> merge_result" where
  "enriched_result t diff = \<lparr>m_outcome = Enriched, m_transaction = Some (t_id t), m_diff = diff,
     m_deferral_reason = None, m_resolution_candidate_ids = []\<rparr>"

definition deferred_result :: "deferral_reason \<Rightarrow> int list \<Rightarrow> merge_result" where
  "deferred_result reason ids = \<lparr>m_outcome = Deferred, m_transaction = None, m_diff = no_changes,
     m_deferral_reason = Some reason, m_resolution_candidate_ids = ids\<rparr>"

definition existing_for_source :: "int option \<Rightarrow> int option \<Rightarrow> db \<Rightarrow> txn option" where
  "existing_for_source sms_message_id email_id d =
     (case (if sms_message_id = None then None
            else find (\<lambda>t. t_sms_message_id t = sms_message_id) (transactions d)) of
        Some row \<Rightarrow> Some row
      | None \<Rightarrow> if email_id = None then None
                 else find (\<lambda>t. t_email_id t = email_id) (transactions d))"

definition insert_new ::
    "env \<Rightarrow> channel \<Rightarrow> txn_data \<Rightarrow> int option \<Rightarrow> int option \<Rightarrow> db \<Rightarrow> merge_error + (merge_result \<times> db)" where
  "insert_new e ch data sms_message_id email_id d =
     (case insert_row e ch data sms_message_id email_id d of
        Inl err \<Rightarrow> Inl err
      | Inr (row, d') \<Rightarrow> Inr (created_result row, snd (apply_reference_self_transfer_rule e row d')))"

definition merge_matched ::
    "env \<Rightarrow> channel \<Rightarrow> txn_data \<Rightarrow> int option \<Rightarrow> int option \<Rightarrow> txn \<Rightarrow> match_kind \<Rightarrow> db \<Rightarrow>
     merge_error + (merge_result \<times> db)" where
  "merge_matched e ch data sms_message_id email_id t kind d =
     (case apply_transaction_enrichment e t data ch sms_message_id email_id kind d of
        Inl Slot_conflict \<Rightarrow> Inr (deferred_result Source_slot_conflict [t_id t], d)
      | Inl err \<Rightarrow> Inl err
      | Inr (diff, d') \<Rightarrow> Inr (enriched_result t diff, d'))"

definition merge_transaction ::
    "env \<Rightarrow> (db \<Rightarrow> db) \<Rightarrow> channel \<Rightarrow> txn_data \<Rightarrow> int option \<Rightarrow> int option \<Rightarrow> bool \<Rightarrow> db \<Rightarrow>
     merge_error + (merge_result \<times> db)" where
  "merge_transaction e race ch data sms_message_id email_id force_new d =
     (if force_new then
        case existing_for_source sms_message_id email_id d of
          Some existing \<Rightarrow> Inr (enriched_result existing no_changes, race d)
        | None \<Rightarrow> insert_new e ch data sms_message_id email_id (race d)
      else
        let source_id = (if ch = Sms then sms_message_id else email_id) in
        case find_match (transactions d) data ch source_id of
          DInsert \<Rightarrow>
            (case insert_new e ch data sms_message_id email_id (race d) of
               Inr r \<Rightarrow> Inr r
             | Inl err \<Rightarrow>
                 (case find_match (transactions (race d)) data ch source_id of
                    DMatch t kind \<Rightarrow> merge_matched e ch data sms_message_id email_id t kind (race d)
                  | _ \<Rightarrow> Inl err))
        | DDefer _ reason ids \<Rightarrow> Inr (deferred_result reason ids, race d)
        | DMatch t kind \<Rightarrow> merge_matched e ch data sms_message_id email_id t kind (race d))"

end
