(* ===== verification/Merge_Facts.thy ===== *)
theory Merge_Facts
  imports Txn_Merge
begin

text \<open>
  The contract of \<open>merge_transaction\<close>: the unique index survives every merge, a merge without a
  race never raises, a merge never rewrites the money of a stored row and adds at most one row,
  and a slot that has an owner keeps it.
\<close>

section \<open>The unique index\<close>

lemma some_values_simps [simp]:
  "some_values f [] = []"
  "some_values f (x # xs) = (case f x of None \<Rightarrow> some_values f xs | Some v \<Rightarrow> v # some_values f xs)"
  "some_values f (xs @ ys) = some_values f xs @ some_values f ys"
  by (auto simp: some_values_def split: option.splits)

lemma in_some_values: "v \<in> set (some_values f xs) \<longleftrightarrow> (\<exists>x\<in>set xs. f x = Some v)"
  by (induction xs) (auto split: option.splits)

definition same_ref_same_id :: "txn list \<Rightarrow> bool" where
  "same_ref_same_id rows \<longleftrightarrow>
     (\<forall>r s k. r \<in> set rows \<longrightarrow> s \<in> set rows \<longrightarrow> ref_key r = Some k \<longrightarrow> ref_key s = Some k \<longrightarrow> t_id r = t_id s)"

lemma same_ref_same_idD:
  "same_ref_same_id rows \<Longrightarrow> r \<in> set rows \<Longrightarrow> s \<in> set rows \<Longrightarrow> ref_key r = Some k \<Longrightarrow>
   ref_key s = Some k \<Longrightarrow> t_id r = t_id s"
  unfolding same_ref_same_id_def by blast

lemma same_ref_same_id_Cons:
  assumes "x \<notin> set xs" "\<And>y. y \<in> set xs \<Longrightarrow> t_id y \<noteq> t_id x"
  shows "same_ref_same_id (x # xs) \<longleftrightarrow>
    same_ref_same_id xs \<and> (\<forall>y\<in>set xs. \<forall>k. ref_key x = Some k \<longrightarrow> ref_key y \<noteq> Some k)" (is "?L \<longleftrightarrow> ?R")
proof
  assume L: ?L
  have "same_ref_same_id xs" unfolding same_ref_same_id_def
    using same_ref_same_idD[OF L] by (meson list.set_intros(2))
  moreover have "ref_key y \<noteq> Some k" if "y \<in> set xs" "ref_key x = Some k" for y k
    using same_ref_same_idD[OF L, of y x k] assms(2) that by auto
  ultimately show ?R by blast
next
  assume R: ?R
  show ?L unfolding same_ref_same_id_def set_simps
    using R same_ref_same_idD by blast
qed

lemma uq_by_id:
  assumes "distinct (map t_id rows)"
  shows "uq_transactions_ref rows \<longleftrightarrow> same_ref_same_id rows"
  using assms
proof (induction rows)
  case Nil
  then show ?case by (simp add: uq_transactions_ref_def same_ref_same_id_def)
next
  case (Cons x xs)
  have "uq_transactions_ref (x # xs) \<longleftrightarrow>
      uq_transactions_ref xs \<and> (\<forall>y\<in>set xs. \<forall>k. ref_key x = Some k \<longrightarrow> ref_key y \<noteq> Some k)"
    by (cases "ref_key x") (auto simp: uq_transactions_ref_def in_some_values)
  moreover have "x \<notin> set xs" "\<And>y. y \<in> set xs \<Longrightarrow> t_id y \<noteq> t_id x"
    using Cons.prems by (auto simp: image_iff)
  ultimately show ?case using Cons same_ref_same_id_Cons by simp
qed

lemma uq_same_keys:
  "map ref_key rows = map ref_key rows' \<Longrightarrow> uq_transactions_ref rows = uq_transactions_ref rows'"
proof -
  have "some_values ref_key rows = map the (filter (\<lambda>k. k \<noteq> None) (map ref_key rows))" for rows
    by (induction rows) (auto split: option.splits)
  then show "map ref_key rows = map ref_key rows' \<Longrightarrow> ?thesis"
    by (simp add: uq_transactions_ref_def)
qed

lemma db_ok_same_keys:
  assumes "map ref_key (transactions d') = map ref_key (transactions d)"
    and "map t_id (transactions d') = map t_id (transactions d)"
  shows "db_ok d' = db_ok d"
  using assms uq_same_keys unfolding db_ok_def by metis

lemma keys_of_drop_category:
  assumes "map drop_category rows = map drop_category rows'"
  shows "map ref_key rows = map ref_key rows'" "map t_id rows = map t_id rows'"
    "map money_facts rows = map money_facts rows'" "map (slot_of ch) rows = map (slot_of ch) rows'"
proof -
  have f: "ref_key (drop_category t) = ref_key t" "t_id (drop_category t) = t_id t"
    "money_facts (drop_category t) = money_facts t" "slot_of ch (drop_category t) = slot_of ch t" for t
    by (simp_all add: drop_category_def ref_key_def money_facts_def slot_of_def split: channel.split)
  have "map h rows = map h rows'" if "\<And>t. h (drop_category t) = h t" for h :: "txn \<Rightarrow> 'b"
  proof -
    have "map h rows = map h (map drop_category rows)" "map h rows' = map h (map drop_category rows')"
      using that by simp_all
    then show ?thesis using assms by simp
  qed
  from this[of ref_key] this[of t_id] this[of money_facts] this[of "slot_of ch"] f
  show "map ref_key rows = map ref_key rows'" "map t_id rows = map t_id rows'"
    "map money_facts rows = map money_facts rows'" "map (slot_of ch) rows = map (slot_of ch) rows'"
    by auto
qed

section \<open>Rows that are kept\<close>

text \<open>What every write of a merge keeps of a stored row: its money, and the owners of its slots.\<close>

definition row_kept :: "txn \<Rightarrow> txn \<Rightarrow> bool" where
  "row_kept r r' \<longleftrightarrow> money_facts r' = money_facts r \<and>
     (\<forall>ch i. slot_of ch r = Some i \<longrightarrow> slot_of ch r' = Some i)"

abbreviation rows_kept :: "txn list \<Rightarrow> txn list \<Rightarrow> bool" where
  "rows_kept \<equiv> list_all2 row_kept"

lemma row_kept_refl [simp, intro]: "row_kept r r"
  by (simp add: row_kept_def)

lemma rows_kept_refl [simp, intro]: "rows_kept rows rows"
  by (rule list_all2_refl) simp

lemma rows_kept_trans: "rows_kept a b \<Longrightarrow> rows_kept b c \<Longrightarrow> rows_kept a c"
  by (rule list_all2_trans[of row_kept row_kept row_kept]) (auto simp: row_kept_def)

lemma rows_kept_update: "(\<And>r. P r \<Longrightarrow> row_kept r (f r)) \<Longrightarrow> rows_kept rows (update_where P f rows)"
  by (induction rows) auto

lemma rows_kept_money: "rows_kept rows rows' \<Longrightarrow> map money_facts rows' = map money_facts rows"
  by (induction rows rows' rule: list_all2_induct) (auto simp: row_kept_def)

lemma rows_kept_ids: "rows_kept rows rows' \<Longrightarrow> map t_id rows' = map t_id rows"
  by (induction rows rows' rule: list_all2_induct) (auto simp: row_kept_def money_facts_def)

lemma drop_category_kept: "drop_category r = drop_category r' \<Longrightarrow> row_kept r r'"
proof -
  assume a: "drop_category r = drop_category r'"
  have "money_facts r' = money_facts r" using keys_of_drop_category(3)[of "[r]" "[r']"] a by simp
  moreover have "slot_of ch r = slot_of ch r'" for ch
    using keys_of_drop_category(4)[of "[r]" "[r']" ch] a by simp
  ultimately show ?thesis by (simp add: row_kept_def)
qed

lemma rows_kept_drop_category:
  "map drop_category rows' = map drop_category rows \<Longrightarrow> rows_kept rows rows'"
proof (induction rows arbitrary: rows')
  case Nil
  then show ?case by simp
next
  case (Cons r rows)
  then obtain q qs where "rows' = q # qs" "drop_category q = drop_category r"
    "map drop_category qs = map drop_category rows" by (cases rows') auto
  then show ?case using Cons.IH drop_category_kept[of r q] by simp
qed

definition drop_enriched :: "txn \<Rightarrow> txn" where
  "drop_enriched t =
     t\<lparr>t_transaction_date := None, t_transaction_time := None, t_counterparty := None,
       t_card_mask := None, t_card_holder := None, t_account_mask := None,
       t_reference_number := None, t_channel := None, t_balance := None, t_raw_description := None,
       t_time_is_received_time := False, t_counterparty_source := [], t_source := None,
       t_enriched_at := None\<rparr>"

lemma drop_enriched_set_field [simp]: "drop_enriched (set_field f v t) = drop_enriched t"
  by (cases f; cases v; simp add: drop_enriched_def)

lemma drop_enriched_apply_diff [simp]: "drop_enriched (apply_diff diff t) = drop_enriched t"
  by (simp add: apply_diff_def fold_frame split_def)

lemma drop_enriched_update [simp]:
  "drop_enriched (t\<lparr>t_time_is_received_time := b\<rparr>) = drop_enriched t"
  "drop_enriched (t\<lparr>t_counterparty_source := s\<rparr>) = drop_enriched t"
  "drop_enriched (t\<lparr>t_source := so\<rparr>) = drop_enriched t"
  "drop_enriched (t\<lparr>t_enriched_at := en\<rparr>) = drop_enriched t"
  by (simp_all add: drop_enriched_def)

lemma drop_enriched_enrich_row [simp]: "drop_enriched (enrich_row n data ch diff t) = drop_enriched t"
  by (simp add: enrich_row_def Let_def sync_counterparty_source_def)

lemma drop_enriched_write_changes [simp]: "drop_enriched (write_changes t u r) = drop_enriched r"
  by (simp add: drop_enriched_def write_changes_def)

lemma of_drop_enriched:
  "t_id (drop_enriched t) = t_id t" "money_facts (drop_enriched t) = money_facts t"
  "slot_of ch (drop_enriched t) = slot_of ch t" "t_bank (drop_enriched t) = t_bank t"
  "t_direction (drop_enriched t) = t_direction t"
  by (simp_all add: drop_enriched_def money_facts_def slot_of_def split: channel.split)

lemma drop_enriched_kept: "drop_enriched r' = drop_enriched r \<Longrightarrow> row_kept r r'"
  unfolding row_kept_def by (metis of_drop_enriched(2,3))

lemma write_changes_self:
  assumes "drop_enriched u = drop_enriched t"
  shows "write_changes t u t = u"
proof -
  have f: "g (drop_enriched u) = g (drop_enriched t)" for g :: "txn \<Rightarrow> 'b" using assms by simp
  have same:
    "t_id u = t_id t"
    "t_email_id u = t_email_id t"
    "t_account_id u = t_account_id t"
    "t_card_id u = t_card_id t"
    "t_bank_statement_upload_id u = t_bank_statement_upload_id t"
    "t_statement_upload_id u = t_statement_upload_id t" "t_amount_source u = t_amount_source t"
    "t_note u = t_note t" "t_attachment_path u = t_attachment_path t"
    "t_bank u = t_bank t"
    "t_email_type u = t_email_type t"
    "t_direction u = t_direction t"
    "t_amount u = t_amount t"
    "t_currency u = t_currency t"
    "t_identifies_by u = t_identifies_by t"
    "t_exclude_from_cashflow u = t_exclude_from_cashflow t"
    "t_voided u = t_voided t"
    "t_category u = t_category t"
    "t_category_method u = t_category_method t"
    "t_category_confidence u = t_category_confidence t"
    "t_category_model u = t_category_model t"
    "t_category_input_hash u = t_category_input_hash t"
    "t_category_vocab_version u = t_category_vocab_version t"
    "t_categorized_at u = t_categorized_at t"
    "t_review_status u = t_review_status t"
    "t_review_reason u = t_review_reason t"
    "t_sms_message_id u = t_sms_message_id t"
    "t_notified_channel u = t_notified_channel t"
    "t_created_at u = t_created_at t"
    "t_last_notified_at u = t_last_notified_at t"
    "t_notify_attempts u = t_notify_attempts t"
    using f[of t_id] f[of t_email_id] f[of t_account_id] f[of t_card_id] f[of
      t_bank_statement_upload_id] f[of t_bank] f[of t_email_type] f[of t_direction] f[of
      t_amount] f[of t_currency] f[of t_identifies_by] f[of t_exclude_from_cashflow] f[of
      t_voided] f[of t_category] f[of t_category_method] f[of t_category_confidence] f[of
      t_category_model] f[of t_category_input_hash] f[of t_category_vocab_version] f[of
      t_categorized_at] f[of t_review_status] f[of t_review_reason] f[of t_sms_message_id]
      f[of t_notified_channel] f[of t_created_at] f[of t_statement_upload_id] f[of t_amount_source]
      f[of t_note] f[of t_attachment_path] f[of t_last_notified_at] f[of t_notify_attempts]
    by (simp_all add: drop_enriched_def)
  show ?thesis
    by (rule txn.equality) (simp_all add: write_changes_def if_changed_def same)
qed

section \<open>The steps\<close>

lemma sum_caseE:
  assumes "(case x of Inl err \<Rightarrow> Inl err | Inr y \<Rightarrow> g y) = Inr z"
  obtains y where "x = Inr y" "g y = Inr z"
  using assms by (cases x) auto

lemma set_slot_kept: "slot_of ch r = None \<or> slot_of ch r = Some i \<Longrightarrow> row_kept r (set_slot ch i r)"
  by (cases ch)
     (auto simp: row_kept_def set_slot_def slot_of_def money_facts_def split: channel.splits)

lemma set_slot_ref_key [simp]: "ref_key (set_slot ch i r) = ref_key r" "t_id (set_slot ch i r) = t_id r"
  by (cases ch; simp add: set_slot_def ref_key_def)+

lemma claim_kept:
  assumes "claim_transaction_source_slot t ch s d = Inr d'"
  shows "rows_kept (transactions d) (transactions d')"
    "map ref_key (transactions d') = map ref_key (transactions d)"
  using assms
  by (auto simp: claim_transaction_source_slot_def Let_def map_update_where split: option.splits if_splits
      intro!: rows_kept_update set_slot_kept)

lemma flush_ok: "flush d = Inr d' \<Longrightarrow> d' = d \<and> uq_transactions_ref (transactions d)"
  by (auto simp: flush_def split: if_splits)

lemma flush_changes_kept:
  assumes "flush_changes t u d = Inr d'" "drop_enriched u = drop_enriched t"
  shows "rows_kept (transactions d) (transactions d')"
    and "db_ok d \<Longrightarrow> db_ok d'"
proof -
  have kept: "rows_kept (transactions d) (transactions (write_txn (t_id t) (write_changes t u) d))"
    unfolding transactions_write_txn by (rule rows_kept_update) (rule drop_enriched_kept, simp)
  have cases: "d' = d \<or> d' = write_txn (t_id t) (write_changes t u) d \<and> uq_transactions_ref (transactions d')"
    using assms(1) by (auto simp: flush_changes_def dest!: flush_ok split: if_splits)
  show "rows_kept (transactions d) (transactions d')" using cases kept by auto
  show "db_ok d \<Longrightarrow> db_ok d'"
    using cases rows_kept_ids[OF kept] by (auto simp: db_ok_def)
qed

lemma rule_kept:
  "rows_kept (transactions d) (transactions (snd (apply_reference_self_transfer_rule e t d)))"
  by (rule rows_kept_drop_category) (rule rule_drop_category)

lemma db_ok_drop_category:
  "map drop_category (transactions d') = map drop_category (transactions d) \<Longrightarrow> db_ok d' = db_ok d"
  using db_ok_same_keys keys_of_drop_category(1,2) by blast

lemma followups_drop_category:
  "map drop_category (transactions (enrichment_followups e t d)) = map drop_category (transactions d)"
  unfolding enrichment_followups_def split_def Let_def
  by (simp only: requeue_drop_category rule_drop_category)

lemma enrichment_kept:
  assumes "apply_transaction_enrichment e t data ch sms em kind d = Inr (diff, d')"
  shows "rows_kept (transactions d) (transactions d')" and "db_ok d \<Longrightarrow> db_ok d'"
proof -
  define s where "s = (if ch = Sms then sms else em)"
  define u where "u = enrich_row (e_now e) data ch (compute_applied_enrichment_diff t data ch kind) t"
  obtain d1 d2 where steps: "claim_transaction_source_slot t ch s d = Inr d1" "flush_changes t u d1 = Inr d2"
    "d' = enrichment_followups e u d2"
    using assms unfolding apply_transaction_enrichment_def Let_def s_def[symmetric] u_def[symmetric]
    by (elim sum_caseE) auto
  have u: "drop_enriched u = drop_enriched t" by (simp add: u_def)
  note c = claim_kept[OF steps(1)] and f = flush_changes_kept[OF steps(2) u]
  show "rows_kept (transactions d) (transactions d')"
    unfolding steps(3)
    by (rule rows_kept_trans[OF c(1) rows_kept_trans[OF f(1) rows_kept_drop_category[OF followups_drop_category]]])
  assume "db_ok d"
  then have "db_ok d1" using db_ok_same_keys[OF c(2) rows_kept_ids[OF c(1)]] by simp
  then show "db_ok d'" using f(2) db_ok_drop_category[OF followups_drop_category[of e u d2]] steps(3) by simp
qed

lemma new_row_money:
  "money_facts (new_row e i ch data sms em) =
     (i, d_bank data, d_direction data, d_amount data, d_currency data, Some False, Some False)"
  by (simp add: new_row_def money_facts_def)

lemma insert_new_kept:
  assumes "insert_new e ch data sms em d = Inr (res, d')"
  shows "m_outcome res = Created" "m_transaction res = Some (next_id (map t_id (transactions d)))"
    and "rows_kept (transactions d @ [new_row e (next_id (map t_id (transactions d))) ch data sms em]) (transactions d')"
    and "db_ok d \<Longrightarrow> db_ok d'"
proof -
  define row where "row = new_row e (next_id (map t_id (transactions d))) ch data sms em"
  define d1 where "d1 = d\<lparr>transactions := transactions d @ [row]\<rparr>"
  have uq: "uq_transactions_ref (transactions d1)" and res: "res = created_result row"
    and d': "d' = snd (apply_reference_self_transfer_rule e row d1)"
    using assms by (auto simp: insert_new_def insert_row_def Let_def row_def[symmetric] d1_def[symmetric]
        dest!: flush_ok split: sum.splits)
  show "m_outcome res = Created" "m_transaction res = Some (next_id (map t_id (transactions d)))"
    by (simp_all add: res created_result_def row_def new_row_def)
  show "rows_kept (transactions d @ [new_row e (next_id (map t_id (transactions d))) ch data sms em]) (transactions d')"
    using rule_kept[of d1 e row] by (simp add: d' d1_def row_def)
  assume "db_ok d"
  moreover have "t_id row = next_id (map t_id (transactions d))" by (simp add: row_def new_row_def)
  then have "t_id row \<notin> t_id ` set (transactions d)"
    using next_id_fresh[of "map t_id (transactions d)"] by simp
  ultimately have "db_ok d1" using uq by (simp add: db_ok_def d1_def)
  then show "db_ok d'" using db_ok_drop_category[OF rule_drop_category[of e row d1]] d' by simp
qed

lemma merge_matched_kept:
  assumes "merge_matched e ch data sms em t kind d = Inr (res, d')"
  shows "m_outcome res \<noteq> Created" "rows_kept (transactions d) (transactions d')" "db_ok d \<Longrightarrow> db_ok d'"
proof -
  consider "res = deferred_result Source_slot_conflict [t_id t]" "d' = d"
    | diff where "apply_transaction_enrichment e t data ch sms em kind d = Inr (diff, d')"
        "res = enriched_result t diff"
    using assms by (auto simp: merge_matched_def split: sum.splits merge_error.splits)
  then show "m_outcome res \<noteq> Created" "rows_kept (transactions d) (transactions d')" "db_ok d \<Longrightarrow> db_ok d'"
    by (cases; use enrichment_kept in \<open>force simp: deferred_result_def enriched_result_def\<close>)+
qed

text \<open>A merge either inserts the one row of its message or leaves the set of rows as it was.\<close>

lemma merge_cases:
  assumes "merge_transaction e race ch data sms em force d = Inr (res, d')"
  obtains "insert_new e ch data sms em (race d) = Inr (res, d')"
  | t kind where "merge_matched e ch data sms em t kind (race d) = Inr (res, d')"
  | "m_outcome res \<noteq> Created" "d' = race d"
  using assms
  by (fastforce simp: merge_transaction_def Let_def enriched_result_def deferred_result_def
      split: if_splits option.splits match_decision.splits sum.splits)

lemma merge_keeps:
  assumes "merge_transaction e race ch data sms em force d = Inr (res, d')"
  shows "db_ok (race d) \<Longrightarrow> db_ok d'"
    and "m_outcome res \<noteq> Created \<Longrightarrow> rows_kept (transactions (race d)) (transactions d')"
    and "m_outcome res = Created \<Longrightarrow>
      rows_kept (transactions (race d) @ [new_row e (next_id (map t_id (transactions (race d)))) ch data sms em]) (transactions d')"
proof -
  show "db_ok (race d) \<Longrightarrow> db_ok d'"
    using merge_cases[OF assms] insert_new_kept(4) merge_matched_kept(3) by metis
  show "m_outcome res \<noteq> Created \<Longrightarrow> rows_kept (transactions (race d)) (transactions d')"
    using merge_cases[OF assms] insert_new_kept(1) merge_matched_kept(2) by (metis rows_kept_refl)
  show "m_outcome res = Created \<Longrightarrow>
      rows_kept (transactions (race d) @ [new_row e (next_id (map t_id (transactions (race d)))) ch data sms em]) (transactions d')"
    using merge_cases[OF assms] insert_new_kept(3) merge_matched_kept(1) by metis
qed

section \<open>The matcher's promise to the unique index\<close>

definition data_key :: "txn_data \<Rightarrow> string \<times> string \<times> string" where
  "data_key d = (d_bank d, ref_of (d_reference_number d), d_direction d)"

text \<open>A reference as the parsers emit it: absent, or not blank and without surrounding white space.\<close>

definition clean_reference :: "txn_data \<Rightarrow> bool" where
  "clean_reference d \<longleftrightarrow>
     (case d_reference_number d of None \<Rightarrow> True | Some r \<Rightarrow> r \<noteq> [] \<and> py_strip r = r)"

lemma clean_referenceD:
  "clean_reference d \<Longrightarrow> d_reference_number d = Some r \<Longrightarrow> ref_of (d_reference_number d) = r \<and> r \<noteq> []"
  by (simp add: clean_reference_def ref_of_def)

lemma uq_write:
  assumes "distinct (map t_id rows)" "uq_transactions_ref rows" "\<And>r. t_id (f r) = t_id r"
    and new: "\<And>r k. r \<in> set rows \<Longrightarrow> t_id r = i \<Longrightarrow> ref_key (f r) = Some k \<Longrightarrow>
      ref_key r = Some k \<or> (\<forall>q\<in>set rows. ref_key q \<noteq> Some k)"
  shows "uq_transactions_ref (update_where (\<lambda>r. t_id r = i) f rows)"
proof -
  let ?rows = "update_where (\<lambda>r. t_id r = i) f rows"
  have ids: "map t_id ?rows = map t_id rows" by (simp add: map_update_where assms(3))
  have same: "same_ref_same_id rows" using assms(1,2) uq_by_id by blast
  have "same_ref_same_id ?rows"
    unfolding same_ref_same_id_def
  proof (intro allI impI)
    fix r s k
    assume r: "r \<in> set ?rows" and s: "s \<in> set ?rows" and k: "ref_key r = Some k" "ref_key s = Some k"
    obtain r0 where r0: "r0 \<in> set rows" "r = (if t_id r0 = i then f r0 else r0)"
      using in_set_update_where[OF r] by blast
    obtain s0 where s0: "s0 \<in> set rows" "s = (if t_id s0 = i then f s0 else s0)"
      using in_set_update_where[OF s] by blast
    show "t_id r = t_id s"
    proof (cases "t_id r0 = i \<and> t_id s0 = i")
      case True
      then show ?thesis using r0 s0 assms(3) by simp
    next
      case False
      then have "ref_key r0 = Some k \<and> ref_key s0 = Some k"
        using r0 s0 k new[of r0 k] new[of s0 k] by (auto split: if_splits)
      then have "t_id r0 = t_id s0" using same_ref_same_idD[OF same r0(1) s0(1)] by blast
      then show ?thesis using r0 s0 assms(3) by (auto split: if_splits)
    qed
  qed
  then show ?thesis using uq_by_id ids assms(1) by metis
qed

locale event_matcher =
  fixes matcher :: "txn list \<Rightarrow> txn_data \<Rightarrow> channel \<Rightarrow> int option \<Rightarrow> match_decision"
  assumes match_is_row:
    "matcher rows d ch s = DMatch c k \<Longrightarrow> c \<in> set rows \<and> t_bank c = d_bank d \<and> t_direction c = d_direction d"
    and insert_is_new:
    "matcher rows d ch s = DInsert \<Longrightarrow> ref_of (d_reference_number d) \<noteq> [] \<Longrightarrow> r \<in> set rows \<Longrightarrow>
       ref_key r \<noteq> Some (data_key d)"
    and match_owns_reference:
    "matcher rows d ch s = DMatch c k \<Longrightarrow> ref_of (d_reference_number d) \<noteq> [] \<Longrightarrow> r \<in> set rows \<Longrightarrow>
       t_reference_number c \<noteq> Some (ref_of (d_reference_number d)) \<Longrightarrow> ref_key r \<noteq> Some (data_key d)"
begin

lemma insert_keeps_uq:
  assumes "matcher rows data ch s = DInsert" "clean_reference data" "uq_transactions_ref rows"
  shows "uq_transactions_ref (rows @ [new_row e i ch data sms em])"
proof (cases "d_reference_number data")
  case None
  then show ?thesis using assms(3) by (simp add: uq_transactions_ref_def new_row_def ref_key_def)
next
  case (Some r)
  then have "ref_of (d_reference_number data) = r" "r \<noteq> []" using clean_referenceD[OF assms(2)] by simp_all
  then have "(d_bank data, r, d_direction data) \<notin> set (some_values ref_key rows)"
    using insert_is_new[OF assms(1)] by (auto simp: in_some_values data_key_def)
  then show ?thesis using assms(3) Some by (simp add: uq_transactions_ref_def new_row_def ref_key_def)
qed

lemma matched_reference_fits:
  assumes "matcher rows data ch s = DMatch c k" "clean_reference data"
    and "t_bank u = t_bank c" "t_direction u = t_direction c" "ref_key u = Some key"
    and "t_reference_number u = t_reference_number c \<or>
      d_reference_number data \<noteq> None \<and> t_reference_number u = d_reference_number data"
  shows "ref_key c = Some key \<or> (\<forall>q\<in>set rows. ref_key q \<noteq> Some key)"
proof (cases "t_reference_number u = t_reference_number c")
  case True
  then show ?thesis using assms(3-5) by (simp add: ref_key_def)
next
  case False
  then obtain r where r: "d_reference_number data = Some r" "t_reference_number u = Some r"
    using assms(6) by auto
  note clean = clean_referenceD[OF assms(2) r(1)]
  have "key = data_key data"
    using assms(3-5) r clean match_is_row[OF assms(1)] by (simp add: ref_key_def data_key_def)
  moreover have "t_reference_number c \<noteq> Some (ref_of (d_reference_number data))"
    using False r clean by auto
  ultimately show ?thesis using match_owns_reference[OF assms(1)] clean by blast
qed

end

lemma rows_with_reference_keys:
  "rows_with_reference rows d (ref_of (d_reference_number d)) = [] \<Longrightarrow> r \<in> set rows \<Longrightarrow>
   ref_key r \<noteq> Some (data_key d)"
  by (auto simp: rows_with_reference_def filter_empty_conv ref_key_def data_key_def)

interpretation fm: event_matcher find_match
proof
  fix rows d ch s c k r
  show "c \<in> set rows \<and> t_bank c = d_bank d \<and> t_direction c = d_direction d"
    if "find_match rows d ch s = DMatch c k"
    using find_match_sound[OF that] by (auto simp: same_identity_def)
  show "ref_key r \<noteq> Some (data_key d)"
    if "find_match rows d ch s = DInsert" "ref_of (d_reference_number d) \<noteq> []" "r \<in> set rows"
    using find_match_insert_no_reference[OF that(1,2)] rows_with_reference_keys that(3) by blast
  show "ref_key r \<noteq> Some (data_key d)"
    if "find_match rows d ch s = DMatch c k" "ref_of (d_reference_number d) \<noteq> []" "r \<in> set rows"
      "t_reference_number c \<noteq> Some (ref_of (d_reference_number d))"
    using find_match_reference_or_free[OF that(1,2)] rows_with_reference_keys that(3,4) by blast
qed

section \<open>A merge without a race does not fail\<close>

text \<open>A diff can only write the values it lists.\<close>

lemma get_set_field_cases: "get_field f (set_field g v t) \<in> {get_field f t} \<union> (if f = g then {Some v} else {})"
  by (cases g; cases v; cases f) simp_all

lemma get_fold_set_field:
  "get_field f (fold (\<lambda>(g, e). set_field g (val e)) es t) \<in> {get_field f t} \<union> {Some (val e) | e. (f, e) \<in> set es}"
proof (induction es arbitrary: t)
  case Nil
  show ?case by simp
next
  case (Cons x es)
  obtain g e where x: "x = (g, e)" by (cases x)
  have "get_field f (fold (\<lambda>(g, e). set_field g (val e)) es (set_field g (val e) t)) \<in>
      {get_field f (set_field g (val e) t)} \<union> {Some (val e) | e. (f, e) \<in> set es}" by (rule Cons.IH)
  then show ?case using get_set_field_cases[of f g "val e" t] x by (auto split: if_splits)
qed

lemma apply_diff_values:
  "get_field f (apply_diff diff t) = get_field f t \<or>
   (\<exists>v. get_field f (apply_diff diff t) = Some v \<and>
      ((f, v) \<in> set (filled diff) \<or> (\<exists>w. (f, w, v) \<in> set (overwritten diff))))"
proof -
  have eq: "apply_diff diff t = fold (\<lambda>(f, e). set_field f (snd e)) (overwritten diff)
      (fold (\<lambda>(f, e). set_field f (id e)) (filled diff) t)"
    by (simp add: apply_diff_def split_def)
  show ?thesis
    using get_fold_set_field[of f snd "overwritten diff" "fold (\<lambda>(f, e). set_field f (id e)) (filled diff) t"]
      get_fold_set_field[of f id "filled diff" t]
    unfolding eq by (auto 4 4)
qed

lemma diff_reference_value:
  assumes "(F_reference_number, v) \<in> set (filled (compute_applied_enrichment_diff t data ch kind)) \<or>
    (\<exists>w. (F_reference_number, w, v) \<in> set (overwritten (compute_applied_enrichment_diff t data ch kind)))"
  shows "incoming_field F_reference_number data = Some v"
proof -
  have "(F_reference_number, v) \<in> set (filled (compute_enrichment_diff t data ch)) \<or>
    (\<exists>w. (F_reference_number, w, v) \<in> set (overwritten (compute_enrichment_diff t data ch)))"
    using assms by (auto simp: compute_applied_enrichment_diff_def Let_def put_overwritten_def split: if_splits)
  then show ?thesis unfolding filled_iff overwritten_iff using enrich_field_new_value by blast
qed

lemma reference_enrich_row:
  fixes data t ch n kind
  defines "u \<equiv> enrich_row n data ch (compute_applied_enrichment_diff t data ch kind) t"
  shows "t_reference_number u = t_reference_number t \<or>
    d_reference_number data \<noteq> None \<and> t_reference_number u = d_reference_number data"
proof -
  let ?diff = "compute_applied_enrichment_diff t data ch kind"
  have g: "get_field F_reference_number u = get_field F_reference_number (apply_diff ?diff t)"
    by (simp add: u_def enrich_row_def Let_def del: get_field.simps)
  have inj: "map_option VStr a = map_option VStr b \<longleftrightarrow> a = b" for a b
    by (cases a; cases b) auto
  from apply_diff_values[of F_reference_number ?diff t] show ?thesis
  proof
    assume "get_field F_reference_number (apply_diff ?diff t) = get_field F_reference_number t"
    then show ?thesis using g inj by simp
  next
    assume "\<exists>v. get_field F_reference_number (apply_diff ?diff t) = Some v \<and>
      ((F_reference_number, v) \<in> set (filled ?diff) \<or> (\<exists>w. (F_reference_number, w, v) \<in> set (overwritten ?diff)))"
    then obtain v where "get_field F_reference_number (apply_diff ?diff t) = Some v"
      "incoming_field F_reference_number data = Some v"
      using diff_reference_value by blast
    then have "get_field F_reference_number u = incoming_field F_reference_number data"
      "incoming_field F_reference_number data \<noteq> None" using g by (simp_all del: get_field.simps incoming_field.simps)
    then show ?thesis using inj by simp
  qed
qed

lemma claim_ok:
  assumes "db_ok d" "t \<in> set (transactions d)"
  shows "\<exists>d1. claim_transaction_source_slot t ch s d = Inr d1"
proof (cases "\<exists>i. s = Some i \<and> slot_of ch t = None")
  case False
  then show ?thesis
    by (cases s) (simp_all add: claim_transaction_source_slot_def)
next
  case True
  then obtain i where i: "s = Some i" "slot_of ch t = None" by blast
  have "filter (\<lambda>r. t_id r = t_id t \<and> (slot_of ch r = None \<or> slot_of ch r = Some i)) rows = [t]"
    if "distinct (map t_id rows)" "t \<in> set rows" for rows
    using that
  proof (induction rows)
    case (Cons r rows)
    show ?case
    proof (cases "r = t")
      case True
      then have "\<And>q. q \<in> set rows \<Longrightarrow> t_id q \<noteq> t_id t" using Cons.prems by (auto simp: image_iff)
      then show ?thesis using True i by (simp add: filter_empty_conv)
    next
      case False
      then have "t_id r \<noteq> t_id t" using Cons.prems by (auto simp: image_iff)
      then show ?thesis using False Cons by simp
    qed
  qed simp
  then show ?thesis using assms i by (simp add: claim_transaction_source_slot_def Let_def db_ok_def)
qed

lemma claim_result:
  assumes "claim_transaction_source_slot t ch s d = Inr d1"
  shows "d1 = d \<or> (\<exists>P i. d1 = d\<lparr>transactions := update_where P (set_slot ch i) (transactions d)\<rparr>)"
  using assms by (simp add: claim_transaction_source_slot_def Let_def split: option.splits if_splits) blast

lemma in_claimed:
  assumes "claim_transaction_source_slot t ch s d = Inr d1" "r \<in> set (transactions d1)"
  obtains q where "q \<in> set (transactions d)" "r = q \<or> (\<exists>i. r = set_slot ch i q)"
  using claim_result[OF assms(1)]
proof
  assume "d1 = d"
  then show ?thesis using assms(2) that by blast
next
  assume "\<exists>P i. d1 = d\<lparr>transactions := update_where P (set_slot ch i) (transactions d)\<rparr>"
  then obtain P i where "r \<in> set (update_where P (set_slot ch i) (transactions d))"
    using assms(2) by auto
  from in_set_update_where[OF this] show ?thesis using that by metis
qed

lemma set_slot_columns [simp]:
  "t_bank (set_slot ch i t) = t_bank t" "t_direction (set_slot ch i t) = t_direction t"
  "t_reference_number (set_slot ch i t) = t_reference_number t"
  by (cases ch; simp add: set_slot_def)+

lemma get_txn_claimed:
  assumes "claim_transaction_source_slot t ch s d = Inr d1" "t \<in> set (transactions d)"
  shows "get_txn (t_id t) d1 \<noteq> None"
proof -
  have "t_id t \<in> set (map t_id (transactions d1))"
    unfolding rows_kept_ids[OF claim_kept(1)[OF assms(1)]] using assms(2) by simp
  then obtain r where "r \<in> set (transactions d1)" "t_id r = t_id t" by auto
  then show ?thesis unfolding get_txn_def by (auto simp: find_None_iff simp del: not_None_eq)
qed

lemma matched_flush:
  assumes "db_ok d" "find_match (transactions d) data ch s = DMatch t k" "clean_reference data"
    and "claim_transaction_source_slot t ch s' d = Inr d1"
    and u: "u = enrich_row n data ch (compute_applied_enrichment_diff t data ch kind) t"
  shows "\<exists>d2. flush_changes t u d1 = Inr d2"
proof (cases "u = t")
  case True
  then show ?thesis by (simp add: flush_changes_def)
next
  case False
  have t: "t \<in> set (transactions d)" using fm.match_is_row[OF assms(2)] by blast
  have "db_ok d1"
    using assms(1) db_ok_same_keys[OF claim_kept(2)[OF assms(4)] rows_kept_ids[OF claim_kept(1)[OF assms(4)]]]
    by simp
  then have ids: "distinct (map t_id (transactions d1))" and uq: "uq_transactions_ref (transactions d1)"
    by (simp_all add: db_ok_def)
  have frame: "drop_enriched u = drop_enriched t" by (simp add: u)
  have u_cols: "t_bank u = t_bank t" "t_direction u = t_direction t"
    using arg_cong[OF frame, of t_bank] arg_cong[OF frame, of t_direction] by (simp_all add: of_drop_enriched)
  have inj: "q = t" if "q \<in> set (transactions d)" "t_id q = t_id t" for q
    using assms(1) t that by (auto simp: db_ok_def distinct_map inj_on_def)
  have keys: "set (map ref_key (transactions d1)) = set (map ref_key (transactions d))"
    unfolding claim_kept(2)[OF assms(4)] ..
  have new: "ref_key r = Some key \<or> (\<forall>q\<in>set (transactions d1). ref_key q \<noteq> Some key)"
    if r: "r \<in> set (transactions d1)" "t_id r = t_id t" and k: "ref_key (write_changes t u r) = Some key" for r key
  proof -
    obtain q where "q \<in> set (transactions d)" "r = q \<or> (\<exists>i. r = set_slot ch i q)"
      by (rule in_claimed[OF assms(4) r(1)])
    then have r: "r = t \<or> (\<exists>i. r = set_slot ch i t)" using inj[of q] r(2) by auto
    then have "ref_key r = ref_key t" "ref_key (write_changes t u r) = ref_key u"
      by (auto simp: ref_key_def write_changes_def if_changed_def u_cols)
    moreover have "ref_key t = Some key \<or> (\<forall>q\<in>set (transactions d). ref_key q \<noteq> Some key)"
      by (rule fm.matched_reference_fits[OF assms(2,3) u_cols])
         (use k calculation reference_enrich_row[of n data ch t kind] in \<open>simp_all add: u\<close>)
    ultimately show ?thesis using keys by (metis image_eqI image_iff list.set_map)
  qed
  have "uq_transactions_ref (update_where (\<lambda>r. t_id r = t_id t) (write_changes t u) (transactions d1))"
    by (rule uq_write[OF ids uq _ new]) (simp_all add: write_changes_def)
  then show ?thesis
    using False get_txn_claimed[OF assms(4) t] by (simp add: flush_changes_def flush_def)
qed

text \<open>The outcome of a merge nobody interferes with is the decision of the matcher.\<close>

definition outcome_of :: "match_decision \<Rightarrow> merge_outcome" where
  "outcome_of m = (case m of DInsert \<Rightarrow> Created | DMatch _ _ \<Rightarrow> Enriched | DDefer _ _ _ \<Rightarrow> Deferred)"

lemma merge_without_race:
  assumes "db_ok d" "clean_reference data"
  shows "\<exists>res d'. merge_transaction e (\<lambda>d. d) ch data sms em False d = Inr (res, d') \<and>
    m_outcome res = outcome_of (find_match (transactions d) data ch (if ch = Sms then sms else em))"
proof -
  define s where "s = (if ch = Sms then sms else em)"
  show ?thesis
  proof (cases "find_match (transactions d) data ch s")
    case (DMatch t kind)
    have t: "t \<in> set (transactions d)" using fm.match_is_row[OF DMatch] by blast
    obtain d1 where c: "claim_transaction_source_slot t ch s d = Inr d1"
      using claim_ok[OF assms(1) t] by blast
    obtain d2 where "flush_changes t (enrich_row (e_now e) data ch
        (compute_applied_enrichment_diff t data ch kind) t) d1 = Inr d2"
      using matched_flush[OF assms(1) DMatch assms(2) c refl] by blast
    then show ?thesis
      using DMatch c
      by (simp add: merge_transaction_def Let_def s_def[symmetric] merge_matched_def
          apply_transaction_enrichment_def outcome_of_def enriched_result_def)
  next
    case DInsert
    have "uq_transactions_ref (transactions d @ [new_row e (next_id (map t_id (transactions d))) ch data sms em])"
      using fm.insert_keeps_uq[OF DInsert assms(2)] assms(1) by (simp add: db_ok_def)
    then show ?thesis
      using DInsert
      by (simp add: merge_transaction_def Let_def s_def[symmetric] insert_new_def insert_row_def flush_def
          outcome_of_def created_result_def)
  next
    case (DDefer k r ids)
    then show ?thesis
      by (simp add: merge_transaction_def Let_def s_def[symmetric] outcome_of_def deferred_result_def)
  qed
qed

section \<open>Redelivery\<close>

text \<open>A row that holds everything a message says, as the row created from it does.\<close>

definition row_of_message :: "txn_data \<Rightarrow> txn \<Rightarrow> bool" where
  "row_of_message data t \<longleftrightarrow>
     (\<forall>f. incoming_field f data = None \<or> get_field f t = incoming_field f data)"

lemma row_of_message_nothing_new:
  assumes "row_of_message data t"
  shows "compute_applied_enrichment_diff t data ch Standard = no_changes"
proof -
  have "enrich_field t data ch f = Keep" for f
  proof (cases "incoming_field f data")
    case None
    then show ?thesis by (simp add: enrich_field_def)
  next
    case (Some v)
    then show ?thesis using assms unfolding row_of_message_def by (metis enrich_field_equal option.distinct(1))
  qed
  then have "compute_enrichment_diff t data ch = no_changes"
    by (simp add: compute_enrichment_diff_def diff_loop_eq fill_value_def overwrite_value_def entries_def)
  then show ?thesis by (simp add: compute_applied_enrichment_diff_def)
qed

lemma get_field_drop_category [simp]: "get_field f (drop_category t) = get_field f t"
  by (cases f) (simp_all add: drop_category_def)

lemma row_of_message_new_row:
  "row_of_message data (new_row e i ch data sms em)"
  unfolding row_of_message_def by (intro allI, rename_tac f, case_tac f) (simp_all add: new_row_def)

lemma rows_with_reference_drop_category:
  "map drop_category (rows_with_reference rows d r) = rows_with_reference (map drop_category rows) d r"
  by (simp add: rows_with_reference_def filter_map o_def drop_category_def)

lemma insert_new_rows:
  assumes "insert_new e ch data sms em d = Inr (res, d')"
  shows "map drop_category (transactions d') =
    map drop_category (transactions d @ [new_row e (next_id (map t_id (transactions d))) ch data sms em])"
proof -
  define row where "row = new_row e (next_id (map t_id (transactions d))) ch data sms em"
  define d1 where "d1 = d\<lparr>transactions := transactions d @ [row]\<rparr>"
  have "d' = snd (apply_reference_self_transfer_rule e row d1)"
    using assms unfolding insert_new_def insert_row_def Let_def row_def[symmetric] d1_def[symmetric]
    by (auto dest!: flush_ok split: sum.splits)
  then show ?thesis using rule_drop_category[of e row d1] by (simp add: d1_def row_def)
qed

lemma created_by_insert:
  assumes "merge_transaction e (\<lambda>d. d) ch data sms em False d = Inr (res, d')" "m_outcome res = Created"
  shows "find_match (transactions d) data ch (if ch = Sms then sms else em) = DInsert \<and>
    insert_new e ch data sms em d = Inr (res, d')"
proof (cases "find_match (transactions d) data ch (if ch = Sms then sms else em)")
  case (DMatch t k)
  then have "merge_matched e ch data sms em t k d = Inr (res, d')"
    using assms(1) by (simp add: merge_transaction_def Let_def)
  then show ?thesis using merge_matched_kept(1) assms(2) by blast
next
  case DInsert
  then show ?thesis
    using assms(1) by (cases "insert_new e ch data sms em d") (simp_all add: merge_transaction_def Let_def)
next
  case (DDefer k r ids)
  then have "merge_transaction e (\<lambda>d. d) ch data sms em False d = Inr (deferred_result r ids, d)"
    unfolding merge_transaction_def Let_def by simp
  then have "res = deferred_result r ids" using assms(1) by (metis sum.inject(2) prod.inject)
  then show ?thesis using assms(2) by (simp add: deferred_result_def)
qed

lemma created_row_found:
  assumes first: "merge_transaction e (\<lambda>d. d) ch data sms em False d = Inr (res, d')"
    and "m_outcome res = Created"
    and "clean_reference data" "d_reference_number data \<noteq> None"
  obtains c where "rows_with_reference (transactions d') data (ref_of (d_reference_number data)) = [c]"
    "drop_category c = drop_category (new_row e (next_id (map t_id (transactions d))) ch data sms em)"
    "m_transaction res = Some (t_id c)"
proof -
  define row where "row = new_row e (next_id (map t_id (transactions d))) ch data sms em"
  obtain r where r: "d_reference_number data = Some r" using assms(4) by blast
  note clean = clean_referenceD[OF assms(3) r]
  have ins: "find_match (transactions d) data ch (if ch = Sms then sms else em) = DInsert"
    and new: "insert_new e ch data sms em d = Inr (res, d')"
    using created_by_insert[OF first assms(2)] by simp_all
  have "rows_with_reference (transactions d) data r = []"
    using find_match_insert_no_reference[OF ins] clean by simp
  moreover have "rows_with_reference [row] data r = [row]"
    using r by (simp add: rows_with_reference_def row_def new_row_def)
  ultimately have one: "rows_with_reference (transactions d @ [row]) data r = [row]"
    by (simp add: rows_with_reference_def)
  have "map drop_category (transactions d') = map drop_category (transactions d @ [row])"
    using insert_new_rows[OF new] by (simp add: row_def)
  then have "map drop_category (rows_with_reference (transactions d') data r) = [drop_category row]"
    using one rows_with_reference_drop_category by (metis list.simps(8,9))
  then obtain c where c: "rows_with_reference (transactions d') data r = [c]" "drop_category c = drop_category row"
    by auto
  then have "t_id c = t_id row" using keys_of_drop_category(2)[of "[c]" "[row]"] by simp
  then show ?thesis
    using that[of c] c insert_new_kept(2)[OF new] clean by (simp add: row_def new_row_def)
qed

lemma matched_enriched_result:
  assumes "merge_matched e ch data sms em t k d = Inr (res, d')" "m_outcome res = Enriched"
  shows "res = enriched_result t (compute_applied_enrichment_diff t data ch k)"
proof (cases "apply_transaction_enrichment e t data ch sms em k d")
  case (Inl err)
  then show ?thesis
    using assms by (cases err) (auto simp: merge_matched_def deferred_result_def)
next
  case (Inr r)
  have "fst r = compute_applied_enrichment_diff t data ch k"
    using Inr unfolding apply_transaction_enrichment_def Let_def by (elim sum_caseE) auto
  then show ?thesis using assms Inr by (cases r) (simp add: merge_matched_def)
qed

lemma redelivery:
  assumes ok: "db_ok d" and first: "merge_transaction e (\<lambda>d. d) ch data sms em False d = Inr (res, d')"
    and "m_outcome res = Created" "clean_reference data" "d_reference_number data \<noteq> None"
  shows "\<exists>res' d''. merge_transaction e' (\<lambda>d. d) ch' data sms' em' False d' = Inr (res', d'') \<and>
    m_outcome res' = Enriched \<and> m_transaction res' = m_transaction res \<and> m_diff res' = no_changes \<and>
    map money_facts (transactions d'') = map money_facts (transactions d')"
proof -
  let ?s = "if ch' = Sms then sms' else em'"
  obtain c where c: "rows_with_reference (transactions d') data (ref_of (d_reference_number data)) = [c]"
    "drop_category c = drop_category (new_row e (next_id (map t_id (transactions d))) ch data sms em)"
    "m_transaction res = Some (t_id c)"
    by (rule created_row_found[OF first assms(3-5)])
  have msg: "row_of_message data c"
    using row_of_message_new_row c(2) unfolding row_of_message_def by (metis get_field_drop_category)
  have "t_amount (drop_category c) = d_amount data \<and> t_balance (drop_category c) = d_balance data"
    unfolding c(2) by (simp add: drop_category_def new_row_def)
  then have "t_amount c = d_amount data" "\<not> balances_contradict c data"
    by (simp_all add: drop_category_def balances_contradict_def)
  moreover have "ref_of (d_reference_number data) \<noteq> []"
    using assms(4,5) clean_referenceD by auto
  ultimately have m: "find_match (transactions d') data ch' ?s = DMatch c Standard"
    using c(1) by (simp add: find_match_def Let_def)
  have "db_ok d'" using merge_keeps(1)[OF first] ok by simp
  then obtain res' d'' where second: "merge_transaction e' (\<lambda>d. d) ch' data sms' em' False d' = Inr (res', d'')"
    "m_outcome res' = Enriched"
    using merge_without_race[of d' data e' ch' sms' em'] assms(4) m by (auto simp: outcome_of_def)
  have "merge_matched e' ch' data sms' em' c Standard d' = Inr (res', d'')"
    using second(1) m by (simp add: merge_transaction_def Let_def)
  then have "res' = enriched_result c (compute_applied_enrichment_diff c data ch' Standard)"
    using second(2) by (rule matched_enriched_result)
  then have "m_transaction res' = m_transaction res" "m_diff res' = no_changes"
    using c(3) row_of_message_nothing_new[OF msg] by (simp_all add: enriched_result_def)
  moreover have "map money_facts (transactions d'') = map money_facts (transactions d')"
    using rows_kept_money merge_keeps(2)[OF second(1)] second(2) by simp
  ultimately show ?thesis using second by blast
qed

section \<open>Properties\<close>

lemma empty_db_ok [simp]: "db_ok empty_db"
  by (simp add: db_ok_def empty_db_def uq_transactions_ref_def)

lemma clean_blank_data [simp]: "clean_reference blank_data"
  by (simp add: clean_reference_def blank_data_def)

lemma undated_unknown_reference:
  assumes "d_transaction_date data = None" "rows_with_reference rows data (ref_of (d_reference_number data)) = []"
  shows "find_match rows data ch s = DInsert"
proof -
  have "find_fuzzy rows data ch s = DInsert"
    using assms(1) by (simp add: find_fuzzy_def gather_fuzzy_candidates_def)
  then show ?thesis using find_match_no_hit[of data rows ch s] assms(2) by simp
qed

definition referenced :: "string \<Rightarrow> txn_data" where
  "referenced r = blank_data\<lparr>d_reference_number := Some r\<rparr>"

lemma clean_referenced [simp]: "clean_reference (referenced ''R1'')"
  by (simp add: clean_reference_def referenced_def py_strip_def strip_chars_def py_isspace_def)

text \<open>C2. Ingestion is total: on a database that satisfies its constraints, and while no other session
  interferes, merging a message with a clean reference never raises, whatever the message says, and
  its outcome is the decision of the matcher.\<close>

theorem merge_never_raises:
  assumes "db_ok d" "clean_reference data"
  shows "\<exists>res d'. merge_transaction e (\<lambda>d. d) ch data sms em False d = Inr (res, d') \<and> db_ok d' \<and>
    m_outcome res = outcome_of (find_match (transactions d) data ch (if ch = Sms then sms else em))"
proof -
  obtain res d' where m: "merge_transaction e (\<lambda>d. d) ch data sms em False d = Inr (res, d')"
    "m_outcome res = outcome_of (find_match (transactions d) data ch (if ch = Sms then sms else em))"
    using merge_without_race[OF assms] by blast
  then show ?thesis using merge_keeps(1)[OF m(1) assms(1)] by blast
qed

theorem merge_never_raises_witness:
  "\<exists>res d'. merge_transaction sample_env (\<lambda>d. d) Sms blank_data (Some 4) None False empty_db = Inr (res, d') \<and>
    db_ok d' \<and> m_outcome res = outcome_of (find_match (transactions empty_db) blank_data Sms (Some 4))"
  using merge_never_raises[OF empty_db_ok clean_blank_data, of sample_env Sms "Some 4" None] by simp



text \<open>C5. A merge never loses or rewrites money: every row that was stored, also by a racing session, is
  still stored in its place with its id, bank, direction, amount, currency and exclusion flags, every
  source slot that had an owner keeps it, and only a merge that reports a creation adds a row, one.\<close>

theorem merge_keeps_money_and_slots:
  assumes "merge_transaction e race ch data sms em force d = Inr (res, d')"
  shows "if m_outcome res = Created
    then rows_kept (transactions (race d) @ [new_row e (next_id (map t_id (transactions (race d)))) ch data sms em]) (transactions d')
    else rows_kept (transactions (race d)) (transactions d')"
  using merge_keeps(2,3)[OF assms] by simp

theorem merge_keeps_money_and_slots_witness:
  "\<exists>res d'. merge_transaction sample_env (\<lambda>d. d) Sms (referenced ''R1'') (Some 4) None False empty_db = Inr (res, d') \<and>
    length (transactions d') \<le> 1"
proof -
  obtain res d' where m: "merge_transaction sample_env (\<lambda>d. d) Sms (referenced ''R1'') (Some 4) None False empty_db = Inr (res, d')"
    using merge_without_race[OF empty_db_ok clean_referenced, of sample_env Sms "Some 4" None] by auto
  have "length (transactions d') \<le> 1"
    using merge_keeps_money_and_slots[OF m] by (auto simp: empty_db_def dest!: list_all2_lengthD split: if_splits)
  then show ?thesis using m by blast
qed

text \<open>C4. A message with a reference is stored once: delivering the same message again, over either
  channel and at any later time, enriches the row the first delivery created, with no changes, instead of
  adding a second one, and no amount changes.\<close>

theorem redelivery_creates_nothing:
  assumes "db_ok d" "merge_transaction e (\<lambda>d. d) ch data sms em False d = Inr (res, d')"
    and "m_outcome res = Created" "clean_reference data" "d_reference_number data \<noteq> None"
  shows "\<exists>res' d''. merge_transaction e' (\<lambda>d. d) ch' data sms' em' False d' = Inr (res', d'') \<and>
    m_outcome res' = Enriched \<and> m_transaction res' = m_transaction res \<and> m_diff res' = no_changes \<and>
    map money_facts (transactions d'') = map money_facts (transactions d')"
  by (rule redelivery[OF assms])

theorem redelivery_creates_nothing_witness:
  "\<exists>res d' res' d''. merge_transaction sample_env (\<lambda>d. d) Sms (referenced ''R1'') (Some 4) None False empty_db = Inr (res, d') \<and>
    merge_transaction sample_env (\<lambda>d. d) Email (referenced ''R1'') None (Some 8) False d' = Inr (res', d'') \<and>
    m_outcome res' = Enriched \<and> m_transaction res' = m_transaction res"
proof -
  obtain res d' where m: "merge_transaction sample_env (\<lambda>d. d) Sms (referenced ''R1'') (Some 4) None False empty_db = Inr (res, d')"
    "m_outcome res = outcome_of (find_match (transactions empty_db) (referenced ''R1'') Sms (Some 4))"
    using merge_without_race[OF empty_db_ok clean_referenced, of sample_env Sms "Some 4" None] by auto
  have "m_outcome res = Created"
    unfolding m(2)
    by (subst undated_unknown_reference)
       (simp_all add: rows_with_reference_def empty_db_def outcome_of_def referenced_def blank_data_def)
  then show ?thesis
    using redelivery_creates_nothing[OF empty_db_ok m(1) _ clean_referenced, of sample_env Email None "Some 8"] m(1)
    by (auto simp: referenced_def)
qed


end
