(* ===== verification/Cc_Cycle.thy ===== *)
theory Cc_Cycle
  imports Txn_Match
begin

text \<open>
  The billing cycle of a credit-card statement (\<^verbatim>\<open>services/cc_cycle.py\<close>) and the one active
  statement of an account (\<^verbatim>\<open>db/active_statement.py\<close>). The date parser of dateutil is not under
  \<^verbatim>\<open>src/\<close>: it is the argument \<open>parse\<close>, \<open>parser.parse(text, dayfirst=True).date()\<close>, with \<^const>\<open>None\<close>
  for a \<open>ValueError\<close>.
\<close>

section \<open>Dates and windows\<close>

type_synonym date_parser = "string \<Rightarrow> date option"

text \<open>\<open>parse_cc_date\<close>: \<open>parse_date\<close> strips the text and refuses the empty one.\<close>

definition parse_cc_date :: "date_parser \<Rightarrow> string \<Rightarrow> date option" where
  "parse_cc_date parse s = (let text = py_strip s in if text = [] then None else parse text)"

definition due_of :: "date_parser \<Rightarrow> string option \<Rightarrow> date option" where
  "due_of parse due_text =
     (if \<not> truthy due_text then None else parse_cc_date parse (or_empty due_text))"

definition boundary :: "date option \<Rightarrow> datetime option \<Rightarrow> date option" where
  "boundary earlier_due later_created =
     (case earlier_due of
        Some due \<Rightarrow> Some (due + 1)
      | None \<Rightarrow> (case later_created of Some dt \<Rightarrow> Some (date_of dt) | None \<Rightarrow> None))"

record cycle_window =
  w_start :: date
  w_end :: "date option"

datatype cycle_error = Comparison_with_none

definition min_created :: "datetime option list \<Rightarrow> datetime option" where
  "min_created cs =
     (case concat (map (\<lambda>c. case c of None \<Rightarrow> [] | Some x \<Rightarrow> [x]) cs) of
        [] \<Rightarrow> None | x # xs \<Rightarrow> Some (fold min xs x))"

definition account_statements :: "db \<Rightarrow> int \<Rightarrow> statement_upload list" where
  "account_statements d account_id = filter (\<lambda>u. su_account_id u = account_id) (statement_uploads d)"

definition unanchored_window ::
    "date \<Rightarrow> statement_upload \<Rightarrow> db \<Rightarrow> cycle_error + cycle_window" where
  "unanchored_window created_start upload d =
     (case su_created_at upload of
        None \<Rightarrow> Inl Comparison_with_none
      | Some c \<Rightarrow>
          let later = filter (\<lambda>x. c < x) (concat (map (\<lambda>u. case su_created_at u of None \<Rightarrow> [] | Some x \<Rightarrow> [x])
                        (account_statements d (su_account_id upload))))
          in Inr \<lparr>w_start = created_start,
                  w_end = map_option date_of (min_created (map Some later))\<rparr>)"

text \<open>The anchors: due date, id and ingestion time of every statement whose due date parses.\<close>

definition anchors :: "date_parser \<Rightarrow> db \<Rightarrow> int \<Rightarrow> (date \<times> int \<times> datetime option) list" where
  "anchors parse d account_id =
     sort_key (\<lambda>(due, i, _). (due, i))
       (concat (map (\<lambda>u. case due_of parse (su_due_date u) of
                           None \<Rightarrow> [] | Some due \<Rightarrow> [(due, su_id u, su_created_at u)])
         (account_statements d account_id)))"

definition anchored_window ::
    "date_parser \<Rightarrow> date \<Rightarrow> statement_upload \<Rightarrow> date \<Rightarrow> db \<Rightarrow> cycle_window" where
  "anchored_window parse created_start upload this_due d =
     (let ancs = anchors parse d (su_account_id upload);
          earlier = filter (\<lambda>a. fst a < this_due) ancs;
          later = filter (\<lambda>a. this_due < fst a) ancs;
          prev_due = (if earlier \<noteq> [] then Some (fst (last earlier)) else None);
          group = map (\<lambda>(_, _, c). c) (filter (\<lambda>a. fst a = this_due) ancs);
          group_created = (case min_created group of None \<Rightarrow> su_created_at upload | Some c \<Rightarrow> Some c)
      in \<lparr>w_start = (case boundary prev_due group_created of Some x \<Rightarrow> x | None \<Rightarrow> created_start),
          w_end = (if later \<noteq> [] then boundary (Some this_due) (snd (snd (hd later))) else None)\<rparr>)"

definition cc_cycle_window ::
    "date_parser \<Rightarrow> datetime \<Rightarrow> statement_upload \<Rightarrow> db \<Rightarrow> cycle_error + cycle_window" where
  "cc_cycle_window parse now upload d =
     (let created_start = date_of (case su_created_at upload of None \<Rightarrow> now | Some c \<Rightarrow> c) in
      case due_of parse (su_due_date upload) of
        None \<Rightarrow> unanchored_window created_start upload d
      | Some this_due \<Rightarrow> Inr (anchored_window parse created_start upload this_due d))"

definition transactions_in_cycle :: "cycle_window \<Rightarrow> txn \<Rightarrow> bool" where
  "transactions_in_cycle w t =
     ((case t_transaction_date t of
         None \<Rightarrow> False
       | Some x \<Rightarrow> w_start w \<le> x \<and> (case w_end w of None \<Rightarrow> True | Some en \<Rightarrow> x < en)) \<or>
      (t_transaction_date t = None \<and>
       (case t_created_at t of
          None \<Rightarrow> False
        | Some c \<Rightarrow> combine (w_start w) 0 \<le> c \<and>
            (case w_end w of None \<Rightarrow> True | Some en \<Rightarrow> c < combine en 0))))"

section \<open>The active statement\<close>

text \<open>\<open>parser.parse(row.due_date, dayfirst=True)\<close> without the strip; the parser is given the raw text.\<close>

definition ranked_statements :: "date_parser \<Rightarrow> db \<Rightarrow> int \<Rightarrow> (date \<times> int) list" where
  "ranked_statements parse d account_id =
     concat (map (\<lambda>u. if \<not> truthy (su_due_date u) then []
                       else case parse (or_empty (su_due_date u)) of
                              None \<Rightarrow> [] | Some due \<Rightarrow> [(due, su_id u)])
       (account_statements d account_id))"

definition set_active_statement :: "date_parser \<Rightarrow> int \<Rightarrow> db \<Rightarrow> int option \<times> db" where
  "set_active_statement parse account_id d =
     (let ranked = ranked_statements parse d account_id;
          active_id = (case ranked of [] \<Rightarrow> None | r # rs \<Rightarrow> Some (snd (fold max rs r)));
          cleared = update_where
            (\<lambda>u. su_account_id u = account_id \<and> su_is_active u \<and> Some (su_id u) \<noteq> active_id)
            (\<lambda>u. u\<lparr>su_is_active := False\<rparr>) (statement_uploads d);
          marked = (case active_id of
              None \<Rightarrow> cleared
            | Some i \<Rightarrow> update_where (\<lambda>u. su_id u = i) (\<lambda>u. u\<lparr>su_is_active := True\<rparr>) cleared)
      in (active_id, d\<lparr>statement_uploads := marked\<rparr>))"

section \<open>Placing a row\<close>

definition in_window_dates :: "cycle_window \<Rightarrow> date \<Rightarrow> bool" where
  "in_window_dates w x \<longleftrightarrow> w_start w \<le> x \<and> (case w_end w of None \<Rightarrow> True | Some en \<Rightarrow> x < en)"

definition placed_date :: "txn \<Rightarrow> date option" where
  "placed_date t =
     (case t_transaction_date t of Some x \<Rightarrow> Some x | None \<Rightarrow> map_option date_of (t_created_at t))"

lemma combine_le_iff: "combine x 0 \<le> c \<longleftrightarrow> x \<le> date_of c"
  by (simp add: combine_def date_of_def day_us_def) linarith

lemma less_combine_iff: "c < combine x 0 \<longleftrightarrow> date_of c < x"
  using combine_le_iff[of x c] by linarith

lemma in_cycle_placed:
  "transactions_in_cycle w t \<longleftrightarrow> (\<exists>x. placed_date t = Some x \<and> in_window_dates w x)"
proof (cases "t_transaction_date t")
  case (Some x)
  then show ?thesis by (simp add: transactions_in_cycle_def placed_date_def in_window_dates_def)
next
  case None
  then show ?thesis
    by (cases "t_created_at t"; cases "w_end w")
       (simp_all add: transactions_in_cycle_def placed_date_def in_window_dates_def combine_le_iff
          less_combine_iff)
qed

section \<open>Adjacent cycles\<close>

definition due_dates :: "date_parser \<Rightarrow> db \<Rightarrow> int \<Rightarrow> date set" where
  "due_dates parse d account_id =
     {x. \<exists>u\<in>set (statement_uploads d). su_account_id u = account_id \<and> due_of parse (su_due_date u) = Some x}"

lemma set_anchors:
  "a \<in> set (anchors parse d i) \<longleftrightarrow>
     (\<exists>u\<in>set (statement_uploads d). su_account_id u = i \<and> due_of parse (su_due_date u) = Some (fst a) \<and>
        snd a = (su_id u, su_created_at u))"
  by (cases a) (fastforce simp: anchors_def account_statements_def split: option.splits)

lemma fst_anchors: "fst ` set (anchors parse d i) = due_dates parse d i"
proof -
  have img_fst: "x \<in> fst ` set (anchors parse d i)"
    if "u \<in> set (statement_uploads d)" "su_account_id u = i" "due_of parse (su_due_date u) = Some x" for u x
  proof -
    have "(x, su_id u, su_created_at u) \<in> set (anchors parse d i)" using that by (auto simp: set_anchors)
    then show ?thesis by (metis fst_conv imageI)
  qed
  have "x \<in> fst ` set (anchors parse d i)" if x: "x \<in> due_dates parse d i" for x
  proof -
    obtain u where "u \<in> set (statement_uploads d)" "su_account_id u = i" "due_of parse (su_due_date u) = Some x"
      using x unfolding due_dates_def by blast
    from img_fst[OF this] show ?thesis .
  qed
  moreover have "fst a \<in> due_dates parse d i" if "a \<in> set (anchors parse d i)" for a
    using that unfolding set_anchors due_dates_def by blast
  ultimately show ?thesis by blast
qed

lemma sorted_anchors: "sorted (map fst (anchors parse d i))"
proof -
  have "sorted (map fst xs)" if "sorted (map (\<lambda>(x, i, c). (x::date, i::int)) xs)"
    for xs :: "(date \<times> int \<times> datetime option) list"
    using that by (induction xs) (auto simp: less_eq_prod_def)
  then show ?thesis unfolding anchors_def by (simp add: split_def)
qed

lemma last_sorted_max:
  assumes "sorted (map fst xs)" "x \<in> set xs"
  shows "fst x \<le> fst (last xs)"
proof -
  obtain ys y where "xs = ys @ [y]" using assms(2) by (metis append_butlast_last_id empty_iff list.set(1))
  then show ?thesis using assms by (auto simp: sorted_append)
qed

lemma prev_due_max:
  fixes xs :: "(date \<times> int \<times> datetime option) list"
  assumes "sorted (map fst xs)" "filter (\<lambda>a. fst a < y) xs \<noteq> []"
  shows "fst (last (filter (\<lambda>a. fst a < y) xs)) \<in> fst ` set xs"
    "fst (last (filter (\<lambda>a. fst a < y) xs)) < y"
    "x \<in> fst ` set xs \<Longrightarrow> x < y \<Longrightarrow> x \<le> fst (last (filter (\<lambda>a. fst a < y) xs))"
proof -
  let ?ys = "filter (\<lambda>a. fst a < y) xs"
  have "last ?ys \<in> set ?ys" using assms(2) by (rule last_in_set)
  then show "fst (last ?ys) \<in> fst ` set xs" "fst (last ?ys) < y" by auto
  have "sorted (map fst ?ys)" using assms(1) by (simp add: sorted_filter)
  then show "x \<in> fst ` set xs \<Longrightarrow> x < y \<Longrightarrow> x \<le> fst (last ?ys)"
    using last_sorted_max by fastforce
qed

text \<open>The window of a statement with a readable due date, in terms of the due dates of its account.\<close>

definition anchor_of :: "date_parser \<Rightarrow> db \<Rightarrow> statement_upload \<Rightarrow> date \<Rightarrow> bool" where
  "anchor_of parse d u y \<longleftrightarrow> u \<in> set (statement_uploads d) \<and> due_of parse (su_due_date u) = Some y"

lemma anchor_due: "anchor_of parse d u y \<Longrightarrow> y \<in> due_dates parse d (su_account_id u)"
  by (auto simp: anchor_of_def due_dates_def)

lemma due_anchor: "y \<in> due_dates parse d i \<Longrightarrow> \<exists>u. anchor_of parse d u y \<and> su_account_id u = i"
  by (auto simp: anchor_of_def due_dates_def)

lemma window_of_anchor:
  "due_of parse (su_due_date u) = Some y \<Longrightarrow>
   cc_cycle_window parse now u d =
     Inr (anchored_window parse (date_of (case su_created_at u of None \<Rightarrow> now | Some c \<Rightarrow> c)) u y d)"
  by (simp add: cc_cycle_window_def)

lemma window_end:
  "w_end (anchored_window parse cs u y d) =
     (if \<exists>z\<in>due_dates parse d (su_account_id u). y < z then Some (y + 1) else None)"
proof -
  have "(filter (\<lambda>a. y < fst a) (anchors parse d i) \<noteq> []) = (\<exists>z\<in>due_dates parse d i. y < z)" for i
    by (auto simp: fst_anchors[symmetric] filter_empty_conv)
  then show ?thesis by (simp add: anchored_window_def Let_def boundary_def)
qed

lemma window_start_earlier:
  assumes "z \<in> due_dates parse d (su_account_id u)" "z < y"
  obtains p where "p \<in> due_dates parse d (su_account_id u)" "p < y" "z \<le> p"
    "w_start (anchored_window parse cs u y d) = p + 1"
    "\<And>q. q \<in> due_dates parse d (su_account_id u) \<Longrightarrow> q < y \<Longrightarrow> q \<le> p"
proof -
  let ?a = "anchors parse d (su_account_id u)"
  let ?ys = "filter (\<lambda>a. fst a < y) ?a"
  have ne: "?ys \<noteq> []" using assms by (auto simp: fst_anchors[symmetric] filter_empty_conv)
  note max = prev_due_max[OF sorted_anchors ne, unfolded fst_anchors]
  have "w_start (anchored_window parse cs u y d) = fst (last ?ys) + 1"
    using ne by (simp add: anchored_window_def Let_def boundary_def)
  then show ?thesis using that[of "fst (last ?ys)"] max assms by blast
qed

lemma later_cycle_disjoint:
  assumes "anchor_of parse d u y" "anchor_of parse d v z" "su_account_id u = su_account_id v" "y < z"
  shows "\<not> (in_window_dates (anchored_window parse cu u y d) x \<and>
            in_window_dates (anchored_window parse cv v z d) x)"
proof -
  have y: "y \<in> due_dates parse d (su_account_id v)" and z: "z \<in> due_dates parse d (su_account_id u)"
    using assms anchor_due by metis+
  have "w_end (anchored_window parse cu u y d) = Some (y + 1)"
    using z assms(4) by (auto simp: window_end)
  moreover obtain p where "w_start (anchored_window parse cv v z d) = p + 1" "y \<le> p"
    using window_start_earlier[OF y assms(4)] by blast
  ultimately show ?thesis by (simp add: in_window_dates_def)
qed

lemma due_dates_finite: "finite (due_dates parse d i)"
  unfolding fst_anchors[symmetric] by simp

lemma cycle_covers:
  assumes "d0 \<in> due_dates parse d i" "d1 \<in> due_dates parse d i" "d0 < d1" "d0 < x"
  obtains u y where "anchor_of parse d u y" "su_account_id u = i"
    "\<And>cs. in_window_dates (anchored_window parse cs u y d) x"
proof -
  let ?D = "due_dates parse d i"
  let ?later = "{z \<in> ?D. x \<le> z}"
  have fin: "finite ?later" using due_dates_finite by simp
  show ?thesis
  proof (cases "?later = {}")
    case False
    define y where "y = Min ?later"
    have y: "y \<in> ?later" unfolding y_def using fin False by (rule Min_in)
    have least: "y \<le> z" if "z \<in> ?later" for z unfolding y_def using fin that by (rule Min_le)
    obtain u where u: "anchor_of parse d u y" "su_account_id u = i" using y due_anchor by blast
    have "in_window_dates (anchored_window parse cs u y d) x" for cs
    proof -
      obtain p where p: "p \<in> ?D" "p < y" "w_start (anchored_window parse cs u y d) = p + 1"
        using window_start_earlier[of d0 parse d u y cs] assms(1,4) y u(2) by auto
      have "p < x" using least[of p] p by force
      then show ?thesis using p y by (simp add: in_window_dates_def window_end)
    qed
    then show ?thesis using that u by blast
  next
    case True
    define y where "y = Max ?D"
    have y: "y \<in> ?D" "\<And>z. z \<in> ?D \<Longrightarrow> z \<le> y"
      using due_dates_finite assms(1) by (auto simp: y_def intro: Max_in)
    have y0: "d0 < y" using y(2)[OF assms(2)] assms(3) by linarith
    have yx: "y < x" using True y(1) by force
    obtain u where u: "anchor_of parse d u y" "su_account_id u = i" using y(1) due_anchor by blast
    have "in_window_dates (anchored_window parse cs u y d) x" for cs
    proof -
      obtain p where p: "p < y" "w_start (anchored_window parse cs u y d) = p + 1"
        using window_start_earlier[of d0 parse d u y cs] assms(1) y0 u(2) by metis
      have "w_end (anchored_window parse cs u y d) = None" using y(2) u(2) by (auto simp: window_end not_less)
      then show ?thesis using p yx by (simp add: in_window_dates_def)
    qed
    then show ?thesis using that u by blast
  qed
qed

section \<open>One active statement\<close>

lemma in_concat_map: "x \<in> set (concat (map g xs)) \<longleftrightarrow> (\<exists>u\<in>set xs. x \<in> set (g u))"
  by auto

lemma set_case_option:
  "x \<in> set (if \<not> b then [] else case z of None \<Rightarrow> [] | Some y \<Rightarrow> [f y]) \<longleftrightarrow> b \<and> (\<exists>y. z = Some y \<and> x = f y)"
  by (cases z) auto

definition one_active :: "db \<Rightarrow> int \<Rightarrow> bool" where
  "one_active d i \<longleftrightarrow>
     length (filter (\<lambda>u. su_account_id u = i \<and> su_is_active u) (statement_uploads d)) \<le> 1"

lemma fold_max: "fold max rs r = Max (set (r # rs))" for r :: "'a::linorder"
  by (rule Max.set_eq_fold[symmetric])

lemma set_active_statement_active:
  assumes "set_active_statement parse i d = (active_id, d')" "u \<in> set (statement_uploads d')"
    and "su_account_id u = i" "su_is_active u"
  shows "active_id = Some (su_id u)"
proof -
  define cleared where "cleared = update_where
    (\<lambda>u. su_account_id u = i \<and> su_is_active u \<and> Some (su_id u) \<noteq> active_id)
    (\<lambda>u. u\<lparr>su_is_active := False\<rparr>) (statement_uploads d)"
  have c: "Some (su_id v) = active_id"
    if v: "v \<in> set cleared" "su_account_id v = i" "su_is_active v" for v
  proof -
    obtain q where q: "v = (if su_account_id q = i \<and> su_is_active q \<and> Some (su_id q) \<noteq> active_id
        then q\<lparr>su_is_active := False\<rparr> else q)"
      using in_set_update_where[OF v(1)[unfolded cleared_def]] by blast
    show ?thesis
    proof (cases "su_account_id q = i \<and> su_is_active q \<and> Some (su_id q) \<noteq> active_id")
      case True
      then show ?thesis using q v(3) by simp
    next
      case False
      then have "v = q" using q by simp
      then show ?thesis using False v(2,3) by blast
    qed
  qed
  have d': "statement_uploads d' = (case active_id of None \<Rightarrow> cleared
      | Some j \<Rightarrow> update_where (\<lambda>u. su_id u = j) (\<lambda>u. u\<lparr>su_is_active := True\<rparr>) cleared)"
    using assms(1) unfolding set_active_statement_def Let_def cleared_def by auto
  show ?thesis
  proof (cases active_id)
    case None
    then show ?thesis using c[of u] assms d' by simp
  next
    case (Some j)
    then have "u \<in> set (update_where (\<lambda>u. su_id u = j) (\<lambda>u. u\<lparr>su_is_active := True\<rparr>) cleared)"
      using assms(2) d' by simp
    from in_set_update_where[OF this] show ?thesis
      using c[of u] assms(3,4) Some by (auto split: if_splits)
  qed
qed

lemma set_active_statement_latest:
  assumes "set_active_statement parse i d = (Some j, d')"
  shows "\<exists>u\<in>set (statement_uploads d). su_id u = j \<and> su_account_id u = i \<and> truthy (su_due_date u) \<and>
    (\<exists>due. parse (or_empty (su_due_date u)) = Some due \<and>
      (\<forall>v\<in>set (statement_uploads d). su_account_id v = i \<longrightarrow> truthy (su_due_date v) \<longrightarrow>
        (\<forall>dv. parse (or_empty (su_due_date v)) = Some dv \<longrightarrow> (dv, su_id v) \<le> (due, j))))"
proof -
  obtain r rs where r: "ranked_statements parse d i = r # rs" "j = snd (fold max rs r)"
    using assms by (auto simp: set_active_statement_def Let_def split: list.splits)
  define m where "m = fold max rs r"
  have m: "m \<in> set (ranked_statements parse d i)" "\<And>q. q \<in> set (ranked_statements parse d i) \<Longrightarrow> q \<le> m"
    unfolding m_def fold_max r(1) by (rule Max_in, simp, simp) (rule Max_ge, simp)
  have mem: "(due, k) \<in> set (ranked_statements parse d i) \<longleftrightarrow>
      (\<exists>u\<in>set (statement_uploads d). su_id u = k \<and> su_account_id u = i \<and> truthy (su_due_date u) \<and>
        parse (or_empty (su_due_date u)) = Some due)" for due k
    unfolding ranked_statements_def account_statements_def in_concat_map set_case_option by auto
  obtain due where due: "m = (due, j)" using r(2) by (cases m) (simp add: m_def)
  then show ?thesis using m mem[of due j] mem by blast
qed

section \<open>Properties\<close>

text \<open>A parser for the examples: day and month names of one letter.\<close>

definition sample_parse :: date_parser where
  "sample_parse s = (if s = ''d'' then Some 30 else if s = ''e'' then Some 60 else None)"

definition two_cycles :: db where
  "two_cycles = empty_db\<lparr>statement_uploads := [blank_upload, blank_upload\<lparr>su_id := 2, su_due_date := Some ''e''\<rparr>]\<rparr>"

lemma sample_due [simp]:
  "due_of sample_parse (Some ''d'') = Some 30" "due_of sample_parse (Some ''e'') = Some 60"
  by (simp_all add: due_of_def parse_cc_date_def sample_parse_def py_strip_def strip_chars_def py_isspace_def)

text \<open>C31. No payment is counted twice: a transaction falls into the cycles of two statements of one card
  only when these carry the same due date.\<close>

theorem cycles_disjoint:
  assumes "u \<in> set (statement_uploads d)" "v \<in> set (statement_uploads d)" "su_account_id u = su_account_id v"
    and "due_of parse (su_due_date u) = Some y" "due_of parse (su_due_date v) = Some z"
    and "cc_cycle_window parse now u d = Inr wu" "cc_cycle_window parse now v d = Inr wv"
    and "transactions_in_cycle wu t" "transactions_in_cycle wv t"
  shows "y = z"
proof (rule ccontr)
  assume "y \<noteq> z"
  note w = window_of_anchor[OF assms(4), of now d] window_of_anchor[OF assms(5), of now d]
  have au: "anchor_of parse d u y" and av: "anchor_of parse d v z"
    using assms(1,2,4,5) by (simp_all add: anchor_of_def)
  obtain x where x: "in_window_dates wu x" "in_window_dates wv x"
    using assms(8,9) by (auto simp: in_cycle_placed)
  consider "y < z" | "z < y" using \<open>y \<noteq> z\<close> by linarith
  then show False
  proof cases
    case 1
    then show ?thesis using later_cycle_disjoint[OF au av assms(3)] x w assms(6,7) by auto
  next
    case 2
    then show ?thesis using later_cycle_disjoint[OF av au assms(3)[symmetric]] x w assms(6,7) by auto
  qed
qed

definition twice_uploaded :: db where
  "twice_uploaded = empty_db\<lparr>statement_uploads := [blank_upload, blank_upload\<lparr>su_id := 2\<rparr>]\<rparr>"

lemma twice_uploaded_window:
  assumes "u \<in> set (statement_uploads twice_uploaded)"
  shows "cc_cycle_window sample_parse 0 u twice_uploaded = Inr \<lparr>w_start = 0, w_end = None\<rparr>"
  using assms
  by (auto simp: twice_uploaded_def cc_cycle_window_def anchored_window_def anchors_def account_statements_def
      empty_db_def blank_upload_def boundary_def min_created_def date_of_def)

theorem cycles_disjoint_witness:
  "\<exists>w. cc_cycle_window sample_parse 0 blank_upload twice_uploaded = Inr w \<and>
    transactions_in_cycle w (blank_txn\<lparr>t_transaction_date := Some 5\<rparr>) \<and>
    due_of sample_parse (su_due_date blank_upload) = due_of sample_parse (su_due_date (blank_upload\<lparr>su_id := 2\<rparr>))"
proof -
  let ?t = "blank_txn\<lparr>t_transaction_date := Some 5\<rparr>" and ?v = "blank_upload\<lparr>su_id := 2\<rparr>"
  have u: "blank_upload \<in> set (statement_uploads twice_uploaded)" "?v \<in> set (statement_uploads twice_uploaded)"
    by (simp_all add: twice_uploaded_def)
  have t: "transactions_in_cycle \<lparr>w_start = 0, w_end = None\<rparr> ?t" by (simp add: transactions_in_cycle_def)
  have "(30::date) = 30"
    by (rule cycles_disjoint[OF u _ _ _ twice_uploaded_window[OF u(1)] twice_uploaded_window[OF u(2)] t t])
       (simp_all add: blank_upload_def)
  then show ?thesis using twice_uploaded_window[OF u(1)] t by (auto simp: blank_upload_def)
qed

text \<open>No payment falls between two cycles: when a card has statements due on two days, every later
  transaction lies in the cycle of one of its statements.\<close>

theorem cycles_cover:
  assumes "d0 \<in> due_dates parse d i" "d1 \<in> due_dates parse d i" "d0 < d1" "placed_date t = Some x" "d0 < x"
  shows "\<exists>u\<in>set (statement_uploads d). su_account_id u = i \<and>
    (\<exists>w. cc_cycle_window parse now u d = Inr w \<and> transactions_in_cycle w t)"
proof -
  obtain u y where u: "anchor_of parse d u y" "su_account_id u = i"
    "\<And>cs. in_window_dates (anchored_window parse cs u y d) x"
    using cycle_covers[OF assms(1-3,5)] by metis
  then have "cc_cycle_window parse now u d =
      Inr (anchored_window parse (date_of (case su_created_at u of None \<Rightarrow> now | Some c \<Rightarrow> c)) u y d)"
    by (intro window_of_anchor) (simp add: anchor_of_def)
  then show ?thesis using u assms(4) by (auto simp: anchor_of_def in_cycle_placed)
qed

theorem cycles_cover_witness:
  "\<exists>u\<in>set (statement_uploads two_cycles). su_account_id u = 1 \<and>
    (\<exists>w. cc_cycle_window sample_parse 0 u two_cycles = Inr w \<and>
         transactions_in_cycle w (blank_txn\<lparr>t_transaction_date := Some 45\<rparr>))"
  by (rule cycles_cover[of 30 _ _ _ 60 _ 45])
     (auto simp: due_dates_def two_cycles_def blank_upload_def empty_db_def placed_date_def)

text \<open>The active statement: after \<open>set_active_statement\<close> only the statement it returns can be active
  among those of the account; that one belongs to the account and has a due date, and no statement of
  the account with a due date that parses has a later one, or the same one and a larger id.\<close>

theorem active_statement_unique_latest:
  assumes "set_active_statement parse i d = (active_id, d')"
  shows "(\<forall>u\<in>set (statement_uploads d'). su_account_id u = i \<longrightarrow> su_is_active u \<longrightarrow> active_id = Some (su_id u)) \<and>
    (\<forall>j. active_id = Some j \<longrightarrow>
      (\<exists>u\<in>set (statement_uploads d). su_id u = j \<and> su_account_id u = i \<and>
        (\<exists>due. parse (or_empty (su_due_date u)) = Some due \<and>
          (\<forall>v\<in>set (statement_uploads d). su_account_id v = i \<longrightarrow> truthy (su_due_date v) \<longrightarrow>
            (\<forall>dv. parse (or_empty (su_due_date v)) = Some dv \<longrightarrow> (dv, su_id v) \<le> (due, j))))))"
  using set_active_statement_active[OF assms] set_active_statement_latest[of parse i d _ d'] assms
  by blast

theorem active_statement_unique_latest_witness:
  "\<not> list_ex (\<lambda>u. su_account_id u = 1 \<and> su_is_active u \<and>
       fst (set_active_statement sample_parse 1 two_cycles) \<noteq> Some (su_id u))
     (statement_uploads (snd (set_active_statement sample_parse 1 two_cycles)))"
  using active_statement_unique_latest[of sample_parse 1 two_cycles, OF prod.collapse[symmetric]]
  by (auto simp: list_ex_iff)

end
