(* ===== verification/Cc_Disambiguation.thy ===== *)
theory Cc_Disambiguation
  imports Cc_Cycle Linker
begin

text \<open>
  Which credit card a bill payment without a card mask belongs to
  (\<^verbatim>\<open>services/cc_disambiguation.py\<close>), with \<open>parse_cc_amount\<close> of \<^verbatim>\<open>services/statements/cc.py\<close>.
\<close>

section \<open>Amount texts\<close>

text \<open>\<open>Decimal(text)\<close>: white space around and underscores anywhere are ignored, then sign, digits,
  fraction and exponent. The texts of an infinity or a NaN are taken as unparseable.\<close>

definition digits_value :: "string \<Rightarrow> nat" where
  "digits_value s = foldl (\<lambda>n c. 10 * n + (char_code c - 48)) 0 s"

definition split_sign :: "string \<Rightarrow> bool \<times> string" where
  "split_sign s =
     (case s of [] \<Rightarrow> (False, [])
      | c # r \<Rightarrow> if c = CHR ''-'' then (True, r) else if c = CHR ''+'' then (False, r) else (False, s))"

definition parse_exponent :: "string \<Rightarrow> int option" where
  "parse_exponent s =
     (case s of
        [] \<Rightarrow> Some 0
      | c # r \<Rightarrow>
          if c = CHR ''e'' \<or> c = CHR ''E'' then
            (let (neg, ds) = split_sign r in
             if ds \<noteq> [] \<and> list_all ascii_digit ds
             then Some (if neg then - int (digits_value ds) else int (digits_value ds)) else None)
          else None)"

definition scale10 :: "int \<Rightarrow> decimal" where
  "scale10 n = (if 0 \<le> n then 10 ^ nat n else 1 / 10 ^ nat (- n))"

definition parse_unsigned :: "string \<Rightarrow> decimal option" where
  "parse_unsigned s =
     (let ip = takeWhile ascii_digit s;
          r = dropWhile ascii_digit s;
          (frac, e) = (case r of
              [] \<Rightarrow> ([], [])
            | c # q \<Rightarrow> if c = CHR ''.'' then (takeWhile ascii_digit q, dropWhile ascii_digit q) else ([], r))
      in if ip @ frac = [] then None
         else map_option (\<lambda>n. of_nat (digits_value (ip @ frac)) * scale10 (n - int (length frac)))
                (parse_exponent e))"

definition parse_decimal :: "string \<Rightarrow> decimal option" where
  "parse_decimal s =
     (let (neg, body) = split_sign (filter (\<lambda>c. c \<noteq> CHR ''_'') (py_strip s))
      in map_option (\<lambda>v. if neg then - v else v) (parse_unsigned body))"

definition parse_cc_amount :: "string \<Rightarrow> decimal option" where
  "parse_cc_amount s = parse_decimal (filter (\<lambda>c. c \<noteq> CHR '','') s)"

section \<open>Which alerts are bill payments\<close>

definition CC_PAYMENT_RECEIVED_SUFFIXES :: "string list" where
  "CC_PAYMENT_RECEIVED_SUFFIXES =
     [''_cc_payment_alert'', ''_cc_upi_payment_alert'', ''_cc_credit_alert'', ''_cc_payment'',
      ''_cc_bill_paid'', ''_cc_payment_received_alert'', ''_cc_bill_paid_alert'',
      ''_cc_repayment_received_alert'', ''sbi_payment_ack'']"

definition is_cc_payment_received_email :: "string \<Rightarrow> bool" where
  "is_cc_payment_received_email email_type =
     (if email_type = [] then False
      else list_ex (\<lambda>s. suffix s email_type) CC_PAYMENT_RECEIVED_SUFFIXES)"

definition should_auto_reconcile_statement :: "txn \<Rightarrow> bool" where
  "should_auto_reconcile_statement t \<longleftrightarrow>
     t_direction t = ''credit'' \<and> t_account_id t \<noteq> None \<and> is_cc_payment_received_email (t_email_type t)"

section \<open>The cascade\<close>

definition ACTIVE_STATUSES :: "string list" where
  "ACTIVE_STATUSES = [''unpaid'', ''partially_paid'', ''late'']"

definition status_in :: "string list \<Rightarrow> string option \<Rightarrow> bool" where
  "status_in statuses s = (case s of None \<Rightarrow> False | Some x \<Rightarrow> x \<in> set statuses)"

definition load_cc_candidates :: "db \<Rightarrow> string \<Rightarrow> account list" where
  "load_cc_candidates d bank =
     filter (\<lambda>a. a_bank a = bank \<and> a_type a = ''credit_card'') (accounts d)"

definition latest_statements :: "db \<Rightarrow> int list \<Rightarrow> statement_upload list" where
  "latest_statements d ids =
     filter (\<lambda>u. su_account_id u \<in> set ids \<and> su_is_active u \<and> su_total_amount_due u \<noteq> None)
       (statement_uploads d)"

definition parse_total_due :: "statement_upload \<Rightarrow> decimal option" where
  "parse_total_due u =
     (case su_total_amount_due u of None \<Rightarrow> None | Some s \<Rightarrow> parse_cc_amount s)"

definition paid_amount :: "statement_upload \<Rightarrow> decimal" where
  "paid_amount u = (case su_payment_paid_amount u of None \<Rightarrow> 0 | Some p \<Rightarrow> p)"

definition parse_outstanding :: "statement_upload \<Rightarrow> decimal option" where
  "parse_outstanding u = map_option (\<lambda>due. due - paid_amount u) (parse_total_due u)"

definition find_cc_account_by_total_due :: "db \<Rightarrow> decimal \<Rightarrow> int list \<Rightarrow> int option" where
  "find_cc_account_by_total_due d amount ids =
     the_single (map su_account_id
       (filter (\<lambda>u. parse_total_due u = Some amount)
         (filter (\<lambda>u. status_in ACTIVE_STATUSES (su_payment_status u)) (latest_statements d ids))))"

definition untracked :: "statement_upload \<Rightarrow> bool" where
  "untracked u \<longleftrightarrow> su_payment_status u = None \<or> parse_outstanding u = None"

definition find_cc_account_by_outstanding :: "statement_upload list \<Rightarrow> decimal \<Rightarrow> int option" where
  "find_cc_account_by_outstanding latest amount =
     (if list_ex untracked latest then None
      else the_single (map su_account_id (filter (\<lambda>u. parse_outstanding u = Some amount) latest)))"

record cc_payload =
  cp_txn_id :: int
  cp_candidate_account_ids :: "int list"
  cp_candidate_labels :: "(int \<times> string) list"
  cp_amount :: decimal
  cp_bank :: string

definition build_payload_from_candidates :: "account list \<Rightarrow> txn \<Rightarrow> cc_payload" where
  "build_payload_from_candidates cands t =
     \<lparr>cp_txn_id = t_id t, cp_candidate_account_ids = map a_id cands,
      cp_candidate_labels = map (\<lambda>a. (a_id a, a_label a)) cands,
      cp_amount = t_amount t, cp_bank = t_bank t\<rparr>"

definition maskless_cc_payment :: "txn \<Rightarrow> bool" where
  "maskless_cc_payment t \<longleftrightarrow>
     \<not> (t_account_id t \<noteq> None \<or> t_direction t \<noteq> ''credit'' \<or>
        \<not> is_cc_payment_received_email (t_email_type t)) \<and> \<not> t_amount t \<le> 0"

text \<open>The account the cascade settles on when the bank has several cards.\<close>

definition cascade_account :: "db \<Rightarrow> txn \<Rightarrow> int list \<Rightarrow> int option" where
  "cascade_account d t ids =
     (case find_cc_account_by_total_due d (t_amount t) ids of
        Some a \<Rightarrow> Some a
      | None \<Rightarrow>
          let latest = latest_statements d ids in
          if set (map su_account_id latest) \<noteq> set ids then None
          else find_cc_account_by_outstanding latest (t_amount t))"

definition resolve_cc_payment_account :: "db \<Rightarrow> txn \<Rightarrow> cc_payload option \<times> txn" where
  "resolve_cc_payment_account d t =
     (if \<not> maskless_cc_payment t then (None, t)
      else
        let cands = load_cc_candidates d (t_bank t) in
        case cands of
          [] \<Rightarrow> (None, t)
        | [a] \<Rightarrow> (None, t\<lparr>t_account_id := Some (a_id a)\<rparr>)
        | _ \<Rightarrow>
            (case cascade_account d t (map a_id cands) of
               Some i \<Rightarrow> (None, t\<lparr>t_account_id := Some i\<rparr>)
             | None \<Rightarrow> (Some (build_payload_from_candidates cands t), t)))"

section \<open>Facts\<close>

lemma total_due_picks:
  assumes "find_cc_account_by_total_due d amount ids = Some i"
  shows "i \<in> set ids" and "\<exists>!u. u \<in> set (latest_statements d ids) \<and>
    status_in ACTIVE_STATUSES (su_payment_status u) \<and> parse_total_due u = Some amount"
    and "\<exists>u\<in>set (latest_statements d ids). su_account_id u = i \<and> parse_total_due u = Some amount"
proof -
  obtain u where u: "filter (\<lambda>u. parse_total_due u = Some amount)
      (filter (\<lambda>u. status_in ACTIVE_STATUSES (su_payment_status u)) (latest_statements d ids)) = [u]"
    "i = su_account_id u"
    using assms by (auto simp: find_cc_account_by_total_due_def)
  note f = filter_singleton_unique[OF u(1)]
  have l: "u \<in> set (latest_statements d ids)" using f by simp
  then show "i \<in> set ids" using u(2) by (simp add: latest_statements_def)
  show "\<exists>!u. u \<in> set (latest_statements d ids) \<and>
      status_in ACTIVE_STATUSES (su_payment_status u) \<and> parse_total_due u = Some amount"
    using f by auto
  show "\<exists>u\<in>set (latest_statements d ids). su_account_id u = i \<and> parse_total_due u = Some amount"
    using l f u(2) by blast
qed

lemma outstanding_picks:
  assumes "find_cc_account_by_outstanding latest amount = Some i"
  shows "\<exists>u\<in>set latest. su_account_id u = i \<and> parse_outstanding u = Some amount \<and>
    (\<forall>v\<in>set latest. \<not> untracked v \<and> (parse_outstanding v = Some amount \<longrightarrow> v = u))"
proof -
  obtain u where "filter (\<lambda>u. parse_outstanding u = Some amount) latest = [u]" "i = su_account_id u"
    "\<not> list_ex untracked latest"
    using assms by (auto simp: find_cc_account_by_outstanding_def split: if_splits)
  then show ?thesis using filter_singleton_unique[of _ latest u] by (auto simp: list_ex_iff)
qed

lemma cascade_account_in:
  assumes "cascade_account d t ids = Some i"
  shows "i \<in> set ids"
proof (cases "find_cc_account_by_total_due d (t_amount t) ids")
  case (Some a)
  then show ?thesis using assms total_due_picks(1) by (simp add: cascade_account_def)
next
  case None
  then have "find_cc_account_by_outstanding (latest_statements d ids) (t_amount t) = Some i"
    using assms by (simp add: cascade_account_def Let_def split: if_splits)
  then show ?thesis using outstanding_picks by (fastforce simp: latest_statements_def)
qed

lemma resolve_cases:
  obtains "resolve_cc_payment_account d t = (None, t)"
      "\<not> maskless_cc_payment t \<or> load_cc_candidates d (t_bank t) = []"
  | i where "resolve_cc_payment_account d t = (None, t\<lparr>t_account_id := Some i\<rparr>)" "maskless_cc_payment t"
      "load_cc_candidates d (t_bank t) \<noteq> []"
      "i \<in> a_id ` set (load_cc_candidates d (t_bank t))"
      "length (load_cc_candidates d (t_bank t)) = 1 \<or>
       cascade_account d t (map a_id (load_cc_candidates d (t_bank t))) = Some i"
  | "resolve_cc_payment_account d t =
       (Some (build_payload_from_candidates (load_cc_candidates d (t_bank t)) t), t)" "maskless_cc_payment t"
      "2 \<le> length (load_cc_candidates d (t_bank t))"
      "cascade_account d t (map a_id (load_cc_candidates d (t_bank t))) = None"
proof -
  let ?c = "load_cc_candidates d (t_bank t)"
  consider "\<not> maskless_cc_payment t \<or> ?c = []" | a where "maskless_cc_payment t" "?c = [a]"
    | a b cs where "maskless_cc_payment t" "?c = a # b # cs"
    by (cases ?c rule: remdups_adj.cases) auto
  then show ?thesis
  proof cases
    case 1
    then show ?thesis using that(1) by (auto simp: resolve_cc_payment_account_def)
  next
    case 2
    then show ?thesis using that(2)[of "a_id a"] by (simp add: resolve_cc_payment_account_def)
  next
    case 3
    show ?thesis
    proof (cases "cascade_account d t (map a_id ?c)")
      case None
      then show ?thesis using that(3) 3 by (simp add: resolve_cc_payment_account_def)
    next
      case (Some i)
      then have "i \<in> a_id ` set ?c" using cascade_account_in[OF Some] by simp
      then show ?thesis using that(2)[of i] Some 3 by (simp add: resolve_cc_payment_account_def)
    qed
  qed
qed

section \<open>Properties\<close>

text \<open>The resolver is sound: it changes nothing but the account, it only ever assigns a credit card of
  the bank that sent the alert, and with several cards only one whose active statement has exactly the
  paid amount as its total due or as its outstanding; a question to the user lists every candidate and
  leaves the row alone.\<close>

theorem resolver_sound:
  "case resolve_cc_payment_account d t of
     (Some payload, t') \<Rightarrow> t' = t \<and> 2 \<le> length (load_cc_candidates d (t_bank t)) \<and>
       cp_candidate_account_ids payload = map a_id (load_cc_candidates d (t_bank t))
   | (None, t') \<Rightarrow> t' = t \<or>
       (\<exists>a\<in>set (load_cc_candidates d (t_bank t)). t' = t\<lparr>t_account_id := Some (a_id a)\<rparr> \<and>
          (load_cc_candidates d (t_bank t) = [a] \<or>
           (\<exists>u\<in>set (latest_statements d (map a_id (load_cc_candidates d (t_bank t)))).
              su_account_id u = a_id a \<and>
              (parse_total_due u = Some (t_amount t) \<or> parse_outstanding u = Some (t_amount t)))))"
proof -
  let ?cands = "load_cc_candidates d (t_bank t)"
  have evidence: "\<exists>u\<in>set (latest_statements d ids). su_account_id u = i \<and>
      (parse_total_due u = Some (t_amount t) \<or> parse_outstanding u = Some (t_amount t))"
    if c: "cascade_account d t ids = Some i" for i ids
  proof (cases "find_cc_account_by_total_due d (t_amount t) ids")
    case (Some a)
    then have "a = i" using c by (simp add: cascade_account_def)
    then show ?thesis using total_due_picks(3)[OF Some] by blast
  next
    case None
    then have "find_cc_account_by_outstanding (latest_statements d ids) (t_amount t) = Some i"
      using c by (simp add: cascade_account_def Let_def split: if_splits)
    from outstanding_picks[OF this] show ?thesis by blast
  qed
  show ?thesis
  proof (cases rule: resolve_cases[of d t])
    case (2 i)
    obtain a where a: "a \<in> set ?cands" "a_id a = i" using 2(4) by auto
    have "?cands = [a] \<or> (\<exists>u\<in>set (latest_statements d (map a_id ?cands)). su_account_id u = a_id a \<and>
        (parse_total_due u = Some (t_amount t) \<or> parse_outstanding u = Some (t_amount t)))"
      using 2(5) evidence[of "map a_id ?cands" i] a by (auto simp: length_Suc_conv)
    then show ?thesis using 2(1) a by auto
  qed (simp_all add: build_payload_from_candidates_def)
qed

text \<open>The resolver is complete: a bill payment without a card mask at a bank where the user has a
  card is never dropped; it is assigned to an account or the user is asked.\<close>

theorem resolver_complete:
  assumes "maskless_cc_payment t" "load_cc_candidates d (t_bank t) \<noteq> []"
  shows "case resolve_cc_payment_account d t of (payload, t') \<Rightarrow> (payload \<noteq> None) \<noteq> (t_account_id t' \<noteq> None)"
proof -
  have "t_account_id t = None" using assms(1) by (simp add: maskless_cc_payment_def)
  then show ?thesis using assms by (cases rule: resolve_cases[of d t]) simp_all
qed

theorem resolver_complete_witness:
  "case resolve_cc_payment_account (empty_db\<lparr>accounts := [blank_account\<lparr>a_type := ''credit_card''\<rparr>]\<rparr>)
     (blank_txn\<lparr>t_direction := ''credit'', t_email_type := ''sbi_payment_ack''\<rparr>)
   of (payload, t') \<Rightarrow> (payload \<noteq> None) \<noteq> (t_account_id t' \<noteq> None)"
  by (rule resolver_complete)
     (simp_all add: maskless_cc_payment_def is_cc_payment_received_email_def CC_PAYMENT_RECEIVED_SUFFIXES_def
       load_cc_candidates_def blank_txn_def blank_account_def)

end
