(* ===== verification/Calendar.thy ===== *)
theory Calendar
  imports Prelude
begin

text \<open>
  The proleptic Gregorian calendar of the \<open>datetime\<close> module, on ordinals: year, month and day of an
  ordinal, by the cycles of 400, 100, 4 and 1 years, and the days of a month.
\<close>

definition is_leap :: "int \<Rightarrow> bool" where
  "is_leap y \<longleftrightarrow> y mod 4 = 0 \<and> (y mod 100 \<noteq> 0 \<or> y mod 400 = 0)"

definition days_in_month :: "int \<Rightarrow> int \<Rightarrow> int" where
  "days_in_month y m =
     (if m = 2 then (if is_leap y then 29 else 28)
      else if m \<in> {4, 6, 9, 11} then 30 else 31)"

text \<open>The month that holds day \<open>n\<close> (from 0) of the year, counting on from month \<open>m\<close>.\<close>

fun month_of_day :: "nat \<Rightarrow> int \<Rightarrow> int \<Rightarrow> int \<Rightarrow> int \<times> int" where
  "month_of_day 0 y m n = (m, n + 1)"
| "month_of_day (Suc k) y m n =
     (if n < days_in_month y m then (m, n + 1) else month_of_day k y (m + 1) (n - days_in_month y m))"

definition ord2ymd :: "date \<Rightarrow> int \<times> int \<times> int" where
  "ord2ymd x =
     (let n = x - 1;
          n400 = n div 146097; n = n mod 146097;
          n100 = n div 36524; n = n mod 36524;
          n4 = n div 1461; n = n mod 1461;
          n1 = n div 365; n = n mod 365;
          y = n400 * 400 + n100 * 100 + n4 * 4 + n1
      in if n1 = 4 \<or> n100 = 4 then (y, 12, 31)
         else (let (m, d) = month_of_day 11 (y + 1) 1 n in (y + 1, m, d)))"

text \<open>\<open>day.replace(day=1)\<close>.\<close>

definition first_of_month :: "date \<Rightarrow> date" where
  "first_of_month x = (case ord2ymd x of (_, _, d) \<Rightarrow> x - (d - 1))"

lemma month_of_day_ge: "0 \<le> n \<Longrightarrow> 1 \<le> snd (month_of_day k y m n)"
  by (induction k y m n rule: month_of_day.induct) auto

lemma ord2ymd_day_ge: "1 \<le> snd (snd (ord2ymd x))"
  unfolding ord2ymd_def Let_def split_def using month_of_day_ge by simp

lemma first_of_month_le: "first_of_month x \<le> x"
  unfolding first_of_month_def split_def using ord2ymd_day_ge[of x] by simp

end
