(* ===== verification/Cc_Payments.thy ===== *)
theory Cc_Payments
  imports Cc_Disambiguation Calendar
begin

text \<open>
  The payment state of a credit-card statement (\<^verbatim>\<open>services/reminders.py\<close>): how it is recomputed from
  the credits of its cycle, marked paid by hand, and reminded about, with the snapshot each change
  emits (\<^verbatim>\<open>services/snapshots.py\<close>). \<open>now\<close> is the clock and \<open>today\<close> the current date.
\<close>

section \<open>Snapshots\<close>

definition same_snapshot :: "int \<Rightarrow> string \<Rightarrow> date \<Rightarrow> snapshot \<Rightarrow> bool" where
  "same_snapshot account_id category as_of s \<longleftrightarrow>
     sn_account_id s = Some account_id \<and> sn_category s = category \<and> sn_as_of_date s = as_of"

definition upsert_account_snapshot ::
    "int \<Rightarrow> string \<Rightarrow> string \<Rightarrow> date \<Rightarrow> decimal \<Rightarrow> string \<Rightarrow> snapshot list \<Rightarrow> snapshot list" where
  "upsert_account_snapshot account_id kind category as_of v src rows =
     (if list_ex (same_snapshot account_id category as_of) rows
      then update_where (same_snapshot account_id category as_of)
             (\<lambda>s. s\<lparr>sn_kind := kind, sn_value := v, sn_source := src, sn_currency := ''INR''\<rparr>) rows
      else rows @ [\<lparr>sn_account_id = Some account_id, sn_kind = kind, sn_category = category,
                    sn_as_of_date = as_of, sn_value = v, sn_source = src, sn_currency = ''INR''\<rparr>])"

definition emit_cc_snapshot :: "datetime \<Rightarrow> statement_upload \<Rightarrow> db \<Rightarrow> bool \<times> db" where
  "emit_cc_snapshot now u d =
     (if \<not> truthy (su_total_amount_due u) then (False, d)
      else case parse_total_due u of
          None \<Rightarrow> (False, d)
        | Some amount_due \<Rightarrow>
            let v = (if su_payment_status u = Some ''paid'' \<or> amount_due \<le> 0 then 0
                     else max (amount_due - paid_amount u) 0);
                created_at = (case su_created_at u of None \<Rightarrow> now | Some c \<Rightarrow> c)
            in (True, d\<lparr>snapshots := upsert_account_snapshot (su_account_id u) ''liability''
                  ''cc_outstanding'' (date_of created_at) v ''cc_statement'' (snapshots d)\<rparr>))"

section \<open>Recomputing the paid amount\<close>

datatype payment_error = Missing_total | Unparseable_total | Cycle_failed cycle_error

definition qualifying_credit :: "statement_upload \<Rightarrow> cycle_window \<Rightarrow> txn \<Rightarrow> bool" where
  "qualifying_credit u w t \<longleftrightarrow>
     t_account_id t = Some (su_account_id u) \<and> t_direction t = ''credit'' \<and>
     transactions_in_cycle w t \<and> is_cc_payment_received_email (t_email_type t)"

definition qualifying_payment_credit_sum ::
    "date_parser \<Rightarrow> datetime \<Rightarrow> statement_upload \<Rightarrow> db \<Rightarrow> cycle_error + decimal" where
  "qualifying_payment_credit_sum parse now u d =
     (case cc_cycle_window parse now u d of
        Inl e \<Rightarrow> Inl e
      | Inr w \<Rightarrow> Inr (quantize2 (dsum t_amount (filter (qualifying_credit u w) (transactions d)))))"

definition paid_state ::
    "datetime \<Rightarrow> bool \<Rightarrow> decimal \<Rightarrow> decimal \<Rightarrow> statement_upload \<Rightarrow> statement_upload" where
  "paid_state now unpaid_when_zero amount_due recomputed u =
     (if amount_due \<le> recomputed then
        u\<lparr>su_payment_paid_amount := Some recomputed,
          su_payment_paid_at := (if su_payment_status u \<noteq> Some ''paid'' then Some now else su_payment_paid_at u),
          su_payment_status := Some ''paid''\<rparr>
      else
        u\<lparr>su_payment_paid_amount := Some recomputed,
          su_payment_status := (if 0 < recomputed \<or> \<not> unpaid_when_zero then Some ''partially_paid''
                                else Some ''unpaid''),
          su_payment_paid_at := None\<rparr>)"

definition write_upload :: "statement_upload \<Rightarrow> db \<Rightarrow> db" where
  "write_upload u d =
     d\<lparr>statement_uploads := update_where (\<lambda>v. su_id v = su_id u) (\<lambda>_. u) (statement_uploads d)\<rparr>"

definition recompute_cc_payment_state ::
    "date_parser \<Rightarrow> datetime \<Rightarrow> bool \<Rightarrow> statement_upload \<Rightarrow> db \<Rightarrow>
     payment_error + (decimal \<times> statement_upload \<times> db)" where
  "recompute_cc_payment_state parse now unpaid_when_zero u d =
     (if su_total_amount_due u = None then Inl Missing_total
      else case qualifying_payment_credit_sum parse now u d of
          Inl e \<Rightarrow> Inl (Cycle_failed e)
        | Inr recomputed \<Rightarrow>
            (case parse_total_due u of
               None \<Rightarrow> Inl Unparseable_total
             | Some amount_due \<Rightarrow>
                 let u' = paid_state now unpaid_when_zero amount_due recomputed u
                 in Inr (recomputed, u', snd (emit_cc_snapshot now u' (write_upload u' d)))))"

section \<open>Who recomputes\<close>

text \<open>\<open>init_payment_tracking\<close>; every exception is logged and reported as \<open>False\<close> with nothing committed.\<close>

definition init_payment_tracking ::
    "date_parser \<Rightarrow> datetime \<Rightarrow> date \<Rightarrow> int \<Rightarrow> db \<Rightarrow> bool \<times> db" where
  "init_payment_tracking parse now today upload_id d =
     (case find (\<lambda>u. su_id u = upload_id) (statement_uploads d) of
        None \<Rightarrow> (False, d)
      | Some u \<Rightarrow>
          if \<not> truthy (su_due_date u) \<or> \<not> truthy (su_total_amount_due u) \<or> su_payment_status u \<noteq> None
          then (False, d)
          else
            (case (parse_cc_date parse (or_empty (su_due_date u)), parse_total_due u) of
               (Some due, Some amount_due) \<Rightarrow>
                 if due < first_of_month today then (False, d)
                 else if \<not> su_is_active u then (False, d)
                 else if amount_due \<le> 0 then
                   let u' = u\<lparr>su_payment_status := Some ''paid'', su_payment_paid_at := Some now,
                              su_payment_paid_amount := Some amount_due\<rparr>
                   in (True, snd (emit_cc_snapshot now u' (write_upload u' d)))
                 else
                   (case recompute_cc_payment_state parse now True u d of
                      Inl _ \<Rightarrow> (False, d)
                    | Inr (_, _, d') \<Rightarrow> (True, d'))
             | _ \<Rightarrow> (False, d)))"

text \<open>At most one row qualifies: the index \<open>uq_statement_uploads_one_active\<close> allows one active statement
  per account, so \<open>scalar_one_or_none\<close> does not raise.\<close>

definition latest_active_cycle :: "int \<Rightarrow> bool \<Rightarrow> db \<Rightarrow> statement_upload option" where
  "latest_active_cycle account_id include_paid d =
     (let statuses = (if include_paid then ACTIVE_STATUSES @ [''paid''] else ACTIVE_STATUSES) in
      find (\<lambda>u. su_account_id u = account_id \<and> su_is_active u \<and> status_in statuses (su_payment_status u))
        (statement_uploads d))"

definition is_credit_card_account :: "db \<Rightarrow> int \<Rightarrow> bool" where
  "is_credit_card_account d account_id =
     (case find (\<lambda>a. a_id a = account_id) (accounts d) of
        None \<Rightarrow> False | Some a \<Rightarrow> a_type a = ''credit_card'')"

definition resync_tracked_cc_payment_state ::
    "date_parser \<Rightarrow> datetime \<Rightarrow> statement_upload \<Rightarrow> db \<Rightarrow> payment_error + (bool \<times> db)" where
  "resync_tracked_cc_payment_state parse now u d =
     (if \<not> status_in ACTIVE_STATUSES (su_payment_status u) \<or> \<not> su_is_active u \<or> parse_total_due u = None
      then Inr (False, d)
      else case recompute_cc_payment_state parse now True u d of
          Inl e \<Rightarrow> Inl e | Inr (_, _, d') \<Rightarrow> Inr (True, d'))"

definition recompute_cc_payment_for_account ::
    "date_parser \<Rightarrow> datetime \<Rightarrow> int \<Rightarrow> db \<Rightarrow> payment_error + (decimal option \<times> db)" where
  "recompute_cc_payment_for_account parse now account_id d =
     (if \<not> is_credit_card_account d account_id then Inr (None, d)
      else case latest_active_cycle account_id True d of
          None \<Rightarrow> Inr (None, d)
        | Some u \<Rightarrow>
            if parse_total_due u = None then Inr (None, d)
            else (case recompute_cc_payment_state parse now False u d of
                    Inl e \<Rightarrow> Inl e | Inr (paid, _, d') \<Rightarrow> Inr (Some paid, d')))"

definition check_payment_received ::
    "date_parser \<Rightarrow> datetime \<Rightarrow> int \<Rightarrow> db \<Rightarrow> payment_error + (bool \<times> db)" where
  "check_payment_received parse now account_id d =
     (if \<not> is_credit_card_account d account_id then Inr (False, d)
      else case latest_active_cycle account_id False d of
          None \<Rightarrow> Inr (False, d)
        | Some u \<Rightarrow>
            (case parse_total_due u of
               None \<Rightarrow> Inr (False, d)
             | Some amount_due \<Rightarrow>
                 (case recompute_cc_payment_state parse now False u d of
                    Inl e \<Rightarrow> Inl e | Inr (paid, _, d') \<Rightarrow> Inr (amount_due \<le> paid, d'))))"

datatype mark_paid_answer = Not_found | Replaced | Already_paid | Marked_paid

definition handle_mark_paid :: "datetime \<Rightarrow> int \<Rightarrow> db \<Rightarrow> mark_paid_answer \<times> db" where
  "handle_mark_paid now upload_id d =
     (case find (\<lambda>u. su_id u = upload_id) (statement_uploads d) of
        None \<Rightarrow> (Not_found, d)
      | Some u \<Rightarrow>
          if \<not> su_is_active u then (Replaced, d)
          else if su_payment_status u = Some ''paid'' then (Already_paid, d)
          else
            let paid = (if truthy (su_total_amount_due u)
                        then (case parse_total_due u of Some a \<Rightarrow> Some a | None \<Rightarrow> su_payment_paid_amount u)
                        else su_payment_paid_amount u);
                u' = u\<lparr>su_payment_status := Some ''paid'', su_payment_paid_at := Some now,
                       su_payment_paid_amount := paid\<rparr>
            in (Marked_paid, snd (emit_cc_snapshot now u' (write_upload u' d))))"

section \<open>Reminders\<close>

definition STALE_DAYS :: int where "STALE_DAYS = 7"

record reminder_state =
  rs_sent :: "int list"
  rs_changed :: bool
  rs_notified :: bool

definition remind_offset :: "bool \<Rightarrow> date \<Rightarrow> date \<Rightarrow> int \<Rightarrow> reminder_state \<Rightarrow> reminder_state" where
  "remind_offset late due today offset st =
     (if offset \<in> set (rs_sent st) then st
      else if late \<and> 0 < offset then st\<lparr>rs_sent := offset # rs_sent st, rs_changed := True\<rparr>
      else if due - offset \<le> today
      then st\<lparr>rs_sent := offset # rs_sent st, rs_changed := True, rs_notified := True\<rparr>
      else st)"

definition remind_offsets :: "bool \<Rightarrow> date \<Rightarrow> date \<Rightarrow> int list \<Rightarrow> reminder_state \<Rightarrow> reminder_state" where
  "remind_offsets late due today offs st = fold (remind_offset late due today) offs st"

definition mark_late :: "date \<Rightarrow> date \<Rightarrow> statement_upload \<Rightarrow> statement_upload" where
  "mark_late due today u =
     (if status_in [''unpaid'', ''partially_paid''] (su_payment_status u) \<and> due < today
      then u\<lparr>su_payment_status := Some ''late''\<rparr> else u)"

datatype reminder_action = Nothing | Settled | Polled bool

definition remind_upload ::
    "date_parser \<Rightarrow> int list \<Rightarrow> datetime \<Rightarrow> date \<Rightarrow> statement_upload \<Rightarrow> reminder_action \<times> statement_upload" where
  "remind_upload parse offsets now today u =
     (case due_of parse (su_due_date u) of
        None \<Rightarrow> (Nothing, u)
      | Some due \<Rightarrow>
          let u = mark_late due today u in
          if STALE_DAYS < today - due then (Nothing, u)
          else case parse_total_due u of
              None \<Rightarrow> (Nothing, u)
            | Some amount_due \<Rightarrow>
                if amount_due \<le> 0 then (Settled, u\<lparr>su_payment_status := Some ''paid''\<rparr>)
                else
                  let st = remind_offsets (su_payment_status u = Some ''late'') due today offsets
                             \<lparr>rs_sent = su_payment_sent_offsets u, rs_changed = False, rs_notified = False\<rparr>;
                      u1 = (if rs_notified st then u\<lparr>su_payment_last_reminded_at := Some now\<rparr> else u);
                      u2 = (if rs_changed st
                            then u1\<lparr>su_payment_sent_offsets := sort (remdups (rs_sent st))\<rparr> else u1)
                  in (Polled (rs_notified st), u2))"

definition remind_one ::
    "date_parser \<Rightarrow> int list \<Rightarrow> datetime \<Rightarrow> date \<Rightarrow> int \<Rightarrow> nat \<times> db \<Rightarrow> nat \<times> db" where
  "remind_one parse offsets now today upload_id s =
     (case find (\<lambda>u. su_id u = upload_id) (statement_uploads (snd s)) of
        None \<Rightarrow> s
      | Some u \<Rightarrow>
          let (action, u') = remind_upload parse offsets now today u;
              d = write_upload u' (snd s)
          in (case action of
                Nothing \<Rightarrow> (fst s, d)
              | Settled \<Rightarrow> (fst s, snd (emit_cc_snapshot now u' d))
              | Polled sent \<Rightarrow> (if sent then fst s + 1 else fst s, d)))"

definition check_and_send_reminders ::
    "date_parser \<Rightarrow> bool \<Rightarrow> int list \<Rightarrow> datetime \<Rightarrow> date \<Rightarrow> db \<Rightarrow> nat \<times> db" where
  "check_and_send_reminders parse enabled offsets now today d =
     (if \<not> enabled \<or> offsets = [] then (0, d)
      else fold (remind_one parse offsets now today)
             (map su_id (filter (\<lambda>u. su_is_active u \<and> status_in ACTIVE_STATUSES (su_payment_status u))
               (statement_uploads d)))
             (0, d))"

section \<open>Reminding twice\<close>

lemma remind_offset_step:
  "set (rs_sent st) \<subseteq> set (rs_sent (remind_offset late due today x st))"
  "x \<notin> set (rs_sent (remind_offset late due today x st)) \<Longrightarrow> \<not> (late \<and> 0 < x) \<and> today < due - x"
  "x \<in> set (rs_sent st) \<or> \<not> (late \<and> 0 < x) \<and> today < due - x \<Longrightarrow> remind_offset late due today x st = st"
  "\<not> rs_changed (remind_offset late due today x st) \<Longrightarrow> remind_offset late due today x st = st"
  by (auto simp: remind_offset_def split: if_splits)

lemma remind_offsets_simps [simp]:
  "remind_offsets late due today [] st = st"
  "remind_offsets late due today (x # offs) st =
     remind_offsets late due today offs (remind_offset late due today x st)"
  by (simp_all add: remind_offsets_def)

lemma remind_offsets_sent: "set (rs_sent st) \<subseteq> set (rs_sent (remind_offsets late due today offs st))"
proof (induction offs arbitrary: st)
  case (Cons x offs)
  then show ?case
    using remind_offset_step(1)[of st late due today x] by (fastforce simp del: remind_offset_step)
qed simp

lemma remind_offsets_done:
  "x \<in> set offs \<Longrightarrow> x \<notin> set (rs_sent (remind_offsets late due today offs st)) \<Longrightarrow>
   \<not> (late \<and> 0 < x) \<and> today < due - x"
proof (induction offs arbitrary: st)
  case (Cons y offs)
  show ?case
  proof (cases "x = y")
    case True
    then have "x \<notin> set (rs_sent (remind_offset late due today x st))"
      using Cons.prems(2) remind_offsets_sent by fastforce
    then show ?thesis by (rule remind_offset_step(2))
  next
    case False
    then show ?thesis using Cons.IH[of "remind_offset late due today y st"] Cons.prems by simp
  qed
qed simp

lemma remind_offsets_quiet:
  "\<forall>x\<in>set offs. x \<in> set (rs_sent st) \<or> \<not> (late \<and> 0 < x) \<and> today < due - x \<Longrightarrow>
   remind_offsets late due today offs st = st"
  by (induction offs) (simp_all add: remind_offset_step(3))

lemma remind_offsets_still: "rs_changed st \<Longrightarrow> rs_changed (remind_offsets late due today offs st)"
  by (induction offs arbitrary: st) (simp_all add: remind_offset_def)

lemma remind_offsets_changed:
  "\<not> rs_changed (remind_offsets late due today offs st) \<Longrightarrow> remind_offsets late due today offs st = st"
proof (induction offs arbitrary: st)
  case (Cons x offs)
  have "\<not> rs_changed (remind_offset late due today x st)"
    using Cons.prems remind_offsets_still by auto
  then have "remind_offset late due today x st = st" by (rule remind_offset_step(4))
  then show ?case using Cons by simp
qed simp

lemma mark_late_fields [simp]:
  "su_due_date (mark_late due today u) = su_due_date u"
  "su_total_amount_due (mark_late due today u) = su_total_amount_due u"
  "su_payment_sent_offsets (mark_late due today u) = su_payment_sent_offsets u"
  "su_id (mark_late due today u) = su_id u"
  by (simp_all add: mark_late_def)

text \<open>Polling a statement again on the same day notifies nobody.\<close>

lemma remind_upload_twice:
  "fst (remind_upload parse offsets now' today (snd (remind_upload parse offsets now today u))) \<noteq> Polled True"
proof (cases "due_of parse (su_due_date u)")
  case None
  then show ?thesis by (simp add: remind_upload_def)
next
  case (Some due)
  define v where "v = mark_late due today u"
  define late where "late = (su_payment_status v = Some ''late'')"
  define st where "st = remind_offsets late due today offsets
    \<lparr>rs_sent = su_payment_sent_offsets v, rs_changed = False, rs_notified = False\<rparr>"
  define w where "w = snd (remind_upload parse offsets now today u)"
  have due: "due_of parse (su_due_date v) = Some due" using Some by (simp add: v_def)
  show ?thesis
  proof (cases "STALE_DAYS < today - due \<or> (\<forall>a. parse_total_due v = Some a \<longrightarrow> a \<le> 0)")
    case True
    then have stale: "STALE_DAYS < today - due \<or> (\<forall>a. parse_total_due u = Some a \<longrightarrow> a \<le> 0)"
      by (simp add: v_def parse_total_due_def)
    have fields: "su_due_date w = su_due_date u" "parse_total_due w = parse_total_due u"
      using True Some
      by (auto simp: w_def remind_upload_def v_def Let_def parse_total_due_def split: option.splits)
    show ?thesis
      using stale Some fields unfolding w_def[symmetric]
      by (auto simp: remind_upload_def Let_def parse_total_due_def split: option.splits)
  next
    case False
    then obtain a where a: "parse_total_due v = Some a" "0 < a" "\<not> STALE_DAYS < today - due" by force
    then have "parse_total_due u = Some a" by (simp add: v_def parse_total_due_def)
    then have w: "w = (let u1 = (if rs_notified st then v\<lparr>su_payment_last_reminded_at := Some now\<rparr> else v)
        in if rs_changed st then u1\<lparr>su_payment_sent_offsets := sort (remdups (rs_sent st))\<rparr> else u1)"
      using a Some by (simp add: w_def remind_upload_def v_def st_def late_def Let_def parse_total_due_def)
    have sent: "set (su_payment_sent_offsets w) = set (rs_sent st)"
      using remind_offsets_changed[of late due today offsets
          "\<lparr>rs_sent = su_payment_sent_offsets v, rs_changed = False, rs_notified = False\<rparr>"]
      by (auto simp: w Let_def st_def)
    have status: "su_payment_status w = su_payment_status v" and wd: "su_due_date w = su_due_date v"
      and wt: "parse_total_due w = parse_total_due v"
      by (simp_all add: w Let_def parse_total_due_def)
    have again: "su_payment_status (mark_late due today w) = su_payment_status v"
      using status by (auto simp: mark_late_def v_def status_in_def split: option.splits)
    have quiet: "remind_offsets late due today offsets
        \<lparr>rs_sent = su_payment_sent_offsets w, rs_changed = False, rs_notified = False\<rparr> =
        \<lparr>rs_sent = su_payment_sent_offsets w, rs_changed = False, rs_notified = False\<rparr>"
      by (rule remind_offsets_quiet) (use sent remind_offsets_done in \<open>fastforce simp: st_def\<close>)
    show ?thesis
      unfolding w_def[symmetric]
      using a due wd wt again quiet
      by (simp add: remind_upload_def Let_def parse_total_due_def late_def)
  qed
qed

lemma write_upload_uploads [simp]:
  "statement_uploads (write_upload u d) = update_where (\<lambda>v. su_id v = su_id u) (\<lambda>_. u) (statement_uploads d)"
  "transactions (write_upload u d) = transactions d"
  "accounts (write_upload u d) = accounts d"
  by (simp_all add: write_upload_def)

lemma emit_frame [simp]:
  "statement_uploads (snd (emit_cc_snapshot now u d)) = statement_uploads d"
  "transactions (snd (emit_cc_snapshot now u d)) = transactions d"
  "accounts (snd (emit_cc_snapshot now u d)) = accounts d"
  by (simp_all add: emit_cc_snapshot_def Let_def split: option.split)

lemma remind_upload_id [simp]: "su_id (snd (remind_upload parse offsets now today u)) = su_id u"
  by (simp add: remind_upload_def Let_def split: option.split)

definition reminded :: "date_parser \<Rightarrow> int list \<Rightarrow> datetime \<Rightarrow> date \<Rightarrow> statement_upload \<Rightarrow> statement_upload" where
  "reminded parse offsets now today u = snd (remind_upload parse offsets now today u)"

definition notifies :: "date_parser \<Rightarrow> int list \<Rightarrow> datetime \<Rightarrow> date \<Rightarrow> statement_upload \<Rightarrow> bool" where
  "notifies parse offsets now today u \<longleftrightarrow> fst (remind_upload parse offsets now today u) = Polled True"

lemma find_distinct:
  "distinct (map su_id us) \<Longrightarrow> u \<in> set us \<Longrightarrow> find (\<lambda>v. su_id v = su_id u) us = Some u"
  by (induction us) (auto simp: image_iff)

lemma update_where_at:
  assumes "distinct (map su_id us)" "u \<in> set us" "su_id w = su_id u"
  shows "update_where (\<lambda>v. su_id v = su_id u) (\<lambda>_. w) us = map (\<lambda>v. if v = u then w else v) us"
proof -
  have "su_id v = su_id u \<longleftrightarrow> v = u" if "v \<in> set us" for v
    using assms(1,2) that by (auto simp: distinct_map inj_on_def)
  then show ?thesis by (simp add: update_where_def cong: map_cong)
qed

lemma remind_one_step:
  assumes "distinct (map su_id (statement_uploads d))" "u \<in> set (statement_uploads d)"
  shows "fst (remind_one parse offsets now today (su_id u) (n, d)) =
      n + (if notifies parse offsets now today u then 1 else 0)"
    "statement_uploads (snd (remind_one parse offsets now today (su_id u) (n, d))) =
      map (\<lambda>v. if v = u then reminded parse offsets now today u else v) (statement_uploads d)"
proof -
  obtain a w where aw: "remind_upload parse offsets now today u = (a, w)" by force
  have id: "su_id w = su_id u" using remind_upload_id[of parse offsets now today u] aw by simp
  have f: "find (\<lambda>v. su_id v = su_id u) (statement_uploads d) = Some u"
    using find_distinct[OF assms] .
  show "fst (remind_one parse offsets now today (su_id u) (n, d)) =
      n + (if notifies parse offsets now today u then 1 else 0)"
    using aw f by (cases a) (simp_all add: remind_one_def notifies_def)
  have "statement_uploads (snd (remind_one parse offsets now today (su_id u) (n, d))) =
      update_where (\<lambda>v. su_id v = su_id u) (\<lambda>_. w) (statement_uploads d)"
    using aw f id by (cases a) (simp_all add: remind_one_def)
  then show "statement_uploads (snd (remind_one parse offsets now today (su_id u) (n, d))) =
      map (\<lambda>v. if v = u then reminded parse offsets now today u else v) (statement_uploads d)"
    using update_where_at[OF assms id] aw by (simp add: reminded_def)
qed

lemma remind_fold:
  assumes "distinct (map su_id (statement_uploads d))" "set us \<subseteq> set (statement_uploads d)" "distinct us"
  shows "fst (fold (remind_one parse offsets now today) (map su_id us) (n, d)) =
      n + length (filter (notifies parse offsets now today) us) \<and>
    statement_uploads (snd (fold (remind_one parse offsets now today) (map su_id us) (n, d))) =
      map (\<lambda>v. if v \<in> set us then reminded parse offsets now today v else v) (statement_uploads d)"
  using assms
proof (induction us arbitrary: n d)
  case Nil
  then show ?case by simp
next
  case (Cons u us)
  let ?r = "reminded parse offsets now today"
  obtain m d1 where s1: "remind_one parse offsets now today (su_id u) (n, d) = (m, d1)" by force
  have u: "u \<in> set (statement_uploads d)" using Cons.prems by simp
  have step: "m = n + (if notifies parse offsets now today u then 1 else 0)"
    "statement_uploads d1 = map (\<lambda>v. if v = u then ?r u else v) (statement_uploads d)"
    using remind_one_step[OF Cons.prems(1) u, of parse offsets now today n] s1 by simp_all
  have "map su_id (statement_uploads d1) = map su_id (statement_uploads d)"
    unfolding step(2) by (simp add: reminded_def)
  then have ids: "distinct (map su_id (statement_uploads d1))" using Cons.prems by simp
  have sub: "set us \<subseteq> set (statement_uploads d1)"
  proof
    fix v assume "v \<in> set us"
    then have "v \<in> set (statement_uploads d)" "v \<noteq> u" using Cons.prems by auto
    then show "v \<in> set (statement_uploads d1)" unfolding step(2) by force
  qed
  have fresh: "?r u \<notin> set us"
  proof
    assume r: "?r u \<in> set us"
    then have "?r u \<in> set (statement_uploads d)" using Cons.prems by auto
    moreover have "su_id (?r u) = su_id u" by (simp add: reminded_def)
    ultimately have "?r u = u" using Cons.prems(1) u by (auto simp: distinct_map inj_on_def)
    then show False using r Cons.prems by simp
  qed
  have IH: "fst (fold (remind_one parse offsets now today) (map su_id us) (m, d1)) =
      m + length (filter (notifies parse offsets now today) us)"
    "statement_uploads (snd (fold (remind_one parse offsets now today) (map su_id us) (m, d1))) =
      map (\<lambda>v. if v \<in> set us then ?r v else v) (statement_uploads d1)"
    using Cons.IH[OF ids sub, of m] Cons.prems by simp_all
  show ?case
    using IH step fresh Cons.prems(3) s1 by (auto simp: comp_def)
qed

definition reminder_due :: "statement_upload \<Rightarrow> bool" where
  "reminder_due u \<longleftrightarrow> su_is_active u \<and> status_in ACTIVE_STATUSES (su_payment_status u)"

lemma reminders_result:
  assumes "distinct (map su_id (statement_uploads d))" "enabled" "offsets \<noteq> []"
  shows "fst (check_and_send_reminders parse enabled offsets now today d) =
      length (filter (notifies parse offsets now today) (filter reminder_due (statement_uploads d)))"
    "statement_uploads (snd (check_and_send_reminders parse enabled offsets now today d)) =
      map (\<lambda>v. if reminder_due v then reminded parse offsets now today v else v) (statement_uploads d)"
proof -
  let ?us = "filter reminder_due (statement_uploads d)"
  have sel: "filter (\<lambda>u. su_is_active u \<and> status_in ACTIVE_STATUSES (su_payment_status u)) (statement_uploads d) = ?us"
    by (simp add: reminder_due_def cong: filter_cong)
  have dist: "distinct ?us" using assms(1) by (simp add: distinct_map)
  have sub: "set ?us \<subseteq> set (statement_uploads d)" by auto
  note f = remind_fold[OF assms(1) sub dist, of parse offsets now today 0]
  have eq: "check_and_send_reminders parse enabled offsets now today d =
      fold (remind_one parse offsets now today) (map su_id ?us) (0, d)"
    unfolding check_and_send_reminders_def sel using assms(2,3) by simp
  show "fst (check_and_send_reminders parse enabled offsets now today d) =
      length (filter (notifies parse offsets now today) ?us)" unfolding eq using f by simp
  have "map (\<lambda>v. if v \<in> set ?us then reminded parse offsets now today v else v) (statement_uploads d) =
      map (\<lambda>v. if reminder_due v then reminded parse offsets now today v else v) (statement_uploads d)"
    by (simp cong: map_cong)
  then show "statement_uploads (snd (check_and_send_reminders parse enabled offsets now today d)) =
      map (\<lambda>v. if reminder_due v then reminded parse offsets now today v else v) (statement_uploads d)"
    unfolding eq using f by metis
qed

lemma reminders_twice:
  assumes "distinct (map su_id (statement_uploads d))"
  shows "fst (check_and_send_reminders parse enabled offsets now' today
    (snd (check_and_send_reminders parse enabled offsets now today d))) = 0"
proof (cases "enabled \<and> offsets \<noteq> []")
  case False
  then show ?thesis by (auto simp: check_and_send_reminders_def)
next
  case True
  define d1 where "d1 = snd (check_and_send_reminders parse enabled offsets now today d)"
  have ups: "statement_uploads d1 =
      map (\<lambda>v. if reminder_due v then reminded parse offsets now today v else v) (statement_uploads d)"
    using reminders_result(2)[OF assms] True by (simp add: d1_def)
  then have "map su_id (statement_uploads d1) = map su_id (statement_uploads d)"
    by (simp add: reminded_def)
  then have ids: "distinct (map su_id (statement_uploads d1))" using assms by simp
  have "\<not> notifies parse offsets now' today u" if u: "u \<in> set (statement_uploads d1)" "reminder_due u" for u
  proof -
    obtain v where v: "u = (if reminder_due v then reminded parse offsets now today v else v)"
      using u(1) unfolding ups set_map by blast
    then have "u = reminded parse offsets now today v" using u(2) by (auto split: if_splits)
    then show ?thesis using remind_upload_twice by (simp add: notifies_def reminded_def)
  qed
  then have "filter (notifies parse offsets now' today) (filter reminder_due (statement_uploads d1)) = []"
    by (auto simp: filter_empty_conv)
  then have "fst (check_and_send_reminders parse enabled offsets now' today d1) = 0"
    using reminders_result(1)[OF ids] True by (metis list.size(3))
  then show ?thesis by (simp add: d1_def)
qed

section \<open>Recomputing twice\<close>

definition cycle_key :: "statement_upload \<Rightarrow> int \<times> int \<times> string option \<times> datetime option" where
  "cycle_key u = (su_id u, su_account_id u, su_due_date u, su_created_at u)"

lemma keyed_concat:
  assumes "map cycle_key us = map cycle_key vs"
    and "\<And>u v. cycle_key u = cycle_key v \<Longrightarrow> P u = P v" "\<And>u v. cycle_key u = cycle_key v \<Longrightarrow> g u = g v"
  shows "concat (map g (filter P us)) = concat (map g (filter P vs))"
  using assms(1)
proof (induction us arbitrary: vs)
  case (Cons u us)
  then obtain v ws where "vs = v # ws" "cycle_key u = cycle_key v" "map cycle_key us = map cycle_key ws"
    by (cases vs) auto
  then show ?case using Cons.IH[of ws] assms(2)[of u v] assms(3)[of u v] by simp
qed simp

lemma anchors_keyed:
  assumes "map cycle_key (statement_uploads d) = map cycle_key (statement_uploads d')"
  shows "anchors parse d i = anchors parse d' i"
  unfolding anchors_def account_statements_def
  by (subst keyed_concat[OF assms]) (auto simp: cycle_key_def split: option.split)

lemma window_keyed:
  assumes "map cycle_key (statement_uploads d) = map cycle_key (statement_uploads d')"
    and "cycle_key u = cycle_key u'" "su_created_at u \<noteq> None"
  shows "cc_cycle_window parse now u d = cc_cycle_window parse now' u' d'"
proof -
  obtain c where c: "su_created_at u = Some c" "su_created_at u' = Some c"
    and k: "su_account_id u = su_account_id u'" "su_due_date u = su_due_date u'"
    using assms(2,3) by (auto simp: cycle_key_def)
  have "concat (map (\<lambda>u. case su_created_at u of None \<Rightarrow> [] | Some x \<Rightarrow> [x]) (account_statements d i)) =
      concat (map (\<lambda>u. case su_created_at u of None \<Rightarrow> [] | Some x \<Rightarrow> [x]) (account_statements d' i))" for i
    unfolding account_statements_def by (rule keyed_concat[OF assms(1)]) (simp_all add: cycle_key_def)
  then show ?thesis
    using c k anchors_keyed[OF assms(1)]
    by (simp add: cc_cycle_window_def unanchored_window_def anchored_window_def cong: option.case_cong)
qed

lemma paid_state_key [simp]: "cycle_key (paid_state now z due paid u) = cycle_key u"
  "su_total_amount_due (paid_state now z due paid u) = su_total_amount_due u"
  "su_created_at (paid_state now z due paid u) = su_created_at u"
  "su_id (paid_state now z due paid u) = su_id u"
  "su_account_id (paid_state now z due paid u) = su_account_id u"
  by (simp_all add: paid_state_def cycle_key_def)

lemma paid_state_again: "paid_state now' z due paid (paid_state now z due paid u) = paid_state now z due paid u"
  by (simp add: paid_state_def)

lemma upsert_again:
  "upsert_account_snapshot a k c x v s (upsert_account_snapshot a k c x v s rows) =
   upsert_account_snapshot a k c x v s rows"
proof -
  let ?f = "\<lambda>r. r\<lparr>sn_kind := k, sn_value := v, sn_source := s, sn_currency := ''INR''\<rparr>"
  let ?P = "same_snapshot a c x"
  have P: "?P (?f r) = ?P r" for r by (simp add: same_snapshot_def)
  have twice: "update_where ?P ?f (update_where ?P ?f rows) = update_where ?P ?f rows"
    by (rule trans[OF update_where_update_where]) (simp_all add: P)
  have ex: "list_ex ?P (update_where ?P ?f rows) = list_ex ?P rows"
    by (induction rows) (simp_all add: P)
  have new: "update_where ?P ?f rows = rows" if "\<not> list_ex ?P rows"
    using that by (intro update_where_False) (auto simp: list_ex_iff)
  show ?thesis
  proof (cases "list_ex ?P rows")
    case True
    then show ?thesis by (simp add: upsert_account_snapshot_def twice ex)
  next
    case False
    define r where "r = \<lparr>sn_account_id = Some a, sn_kind = k, sn_category = c, sn_as_of_date = x,
      sn_value = v, sn_source = s, sn_currency = ''INR''\<rparr>"
    have r: "?P r" "?f r = r" by (simp_all add: r_def same_snapshot_def)
    have "upsert_account_snapshot a k c x v s rows = rows @ [r]"
      using False by (simp add: upsert_account_snapshot_def r_def)
    moreover have "upsert_account_snapshot a k c x v s (rows @ [r]) = update_where ?P ?f (rows @ [r])"
      using r by (simp add: upsert_account_snapshot_def)
    moreover have "update_where ?P ?f (rows @ [r]) = update_where ?P ?f rows @ [r]"
      using r by (simp add: update_where_def)
    ultimately show ?thesis using new[OF False] by simp
  qed
qed

lemma recompute_again:
  assumes ids: "distinct (map su_id (statement_uploads d))" "u \<in> set (statement_uploads d)"
    and created: "su_created_at u \<noteq> None"
    and first: "recompute_cc_payment_state parse now z u d = Inr (paid, u', d')"
  shows "recompute_cc_payment_state parse now' z u' d' = Inr (paid, u', d')"
proof -
  obtain due where sum: "qualifying_payment_credit_sum parse now u d = Inr paid"
    and due: "parse_total_due u = Some due" "su_total_amount_due u \<noteq> None"
    and u': "u' = paid_state now z due paid u"
    and d': "d' = snd (emit_cc_snapshot now u' (write_upload u' d))"
    using first
    by (auto simp: recompute_cc_payment_state_def Let_def split: if_splits sum.splits option.splits)
  have ups: "statement_uploads d' = map (\<lambda>v. if v = u then u' else v) (statement_uploads d)"
    using update_where_at[OF ids, of u'] u' by (simp add: d')
  have "map cycle_key (statement_uploads d) = map cycle_key (statement_uploads d')"
    unfolding ups using u' by simp
  then have w: "cc_cycle_window parse now u d = cc_cycle_window parse now' u' d'"
    by (rule window_keyed) (simp_all add: u' created)
  have q: "qualifying_credit u' = qualifying_credit u"
    by (intro ext) (simp add: qualifying_credit_def u')
  have tr: "transactions d' = transactions d" by (simp add: d')
  have sum': "qualifying_payment_credit_sum parse now' u' d' = Inr paid"
    using sum unfolding qualifying_payment_credit_sum_def w q tr .
  have due': "parse_total_due u' = Some due" "su_total_amount_due u' \<noteq> None"
    using due by (simp_all add: u' parse_total_due_def)
  have "update_where (\<lambda>v. su_id v = su_id u') (\<lambda>_. u') (statement_uploads d') = statement_uploads d'"
    unfolding d' emit_frame write_upload_uploads by (simp add: update_where_def comp_def)
  then have wu: "write_upload u' d' = d'" by (simp add: write_upload_def)
  obtain c where c: "su_created_at u' = Some c" using created u' by auto
  have "snd (emit_cc_snapshot now' u' d') = d'"
    using c by (simp add: d' emit_cc_snapshot_def upsert_again Let_def split: option.split)
  then show ?thesis
    using sum' due' wu by (simp add: recompute_cc_payment_state_def Let_def u' paid_state_again)
qed

lemma recompute_status:
  assumes "recompute_cc_payment_state parse now z u d = Inr (paid, u', d')"
  shows "\<exists>due. parse_total_due u = Some due \<and> su_payment_paid_amount u' = Some paid \<and>
    (su_payment_status u' = Some ''paid'' \<longleftrightarrow> due \<le> paid) \<and>
    (su_payment_status u' = Some ''paid'' \<longrightarrow> su_payment_paid_at u' \<noteq> None \<or> su_payment_status u = Some ''paid'') \<and>
    (su_payment_status u' \<noteq> Some ''paid'' \<longrightarrow> su_payment_paid_at u' = None)"
  using assms
  by (auto simp: recompute_cc_payment_state_def paid_state_def Let_def split: if_splits sum.splits option.splits)

section \<open>Properties\<close>

definition snapshot_key :: "snapshot \<Rightarrow> int option \<times> string \<times> date" where
  "snapshot_key s = (sn_account_id s, sn_category s, sn_as_of_date s)"

text \<open>A snapshot per account, category and day: an upsert keeps the keys of the table distinct, leaves
  the rows of every other key as they were, and stores the given value under its own.\<close>

theorem upsert_snapshot_keyed:
  assumes "distinct (map snapshot_key rows)"
  shows "distinct (map snapshot_key (upsert_account_snapshot a k c x v s rows)) \<and>
    filter (\<lambda>r. snapshot_key r \<noteq> (Some a, c, x)) (upsert_account_snapshot a k c x v s rows) =
      filter (\<lambda>r. snapshot_key r \<noteq> (Some a, c, x)) rows \<and>
    (\<exists>!r. r \<in> set (upsert_account_snapshot a k c x v s rows) \<and> snapshot_key r = (Some a, c, x) \<and> sn_value r = v)"
proof -
  let ?rows' = "upsert_account_snapshot a k c x v s rows"
  let ?f = "\<lambda>s'. s'\<lparr>sn_kind := k, sn_value := v, sn_source := s, sn_currency := ''INR''\<rparr>"
  have same: "same_snapshot a c x r \<longleftrightarrow> snapshot_key r = (Some a, c, x)" for r
    by (simp add: same_snapshot_def snapshot_key_def)
  have keys: "map snapshot_key (update_where (same_snapshot a c x) ?f rows) = map snapshot_key rows"
    by (rule map_update_where) (simp add: snapshot_key_def)
  have d: "distinct (map snapshot_key ?rows')"
    using assms keys
    by (auto simp: upsert_account_snapshot_def list_ex_iff same) (auto simp: snapshot_key_def)
  have "filter (\<lambda>r. snapshot_key r \<noteq> (Some a, c, x)) (update_where (same_snapshot a c x) ?f rows) =
      filter (\<lambda>r. snapshot_key r \<noteq> (Some a, c, x)) rows"
    by (induction rows) (auto simp: same, simp_all add: snapshot_key_def)
  then have "filter (\<lambda>r. snapshot_key r \<noteq> (Some a, c, x)) ?rows' = filter (\<lambda>r. snapshot_key r \<noteq> (Some a, c, x)) rows"
    by (auto simp: upsert_account_snapshot_def snapshot_key_def)
  moreover have "\<exists>r\<in>set ?rows'. snapshot_key r = (Some a, c, x) \<and> sn_value r = v"
  proof (cases "list_ex (same_snapshot a c x) rows")
    case True
    then obtain q where "q \<in> set rows" "same_snapshot a c x q" by (auto simp: list_ex_iff)
    then have "?f q \<in> set ?rows'" using True by (force simp: upsert_account_snapshot_def update_where_def)
    moreover have "snapshot_key (?f q) = (Some a, c, x)"
      using \<open>same_snapshot a c x q\<close> by (simp add: same snapshot_key_def)
    ultimately show ?thesis by (intro bexI[of _ "?f q"]) simp_all
  qed (simp add: upsert_account_snapshot_def snapshot_key_def)
  ultimately show ?thesis using d by (auto simp: distinct_map inj_on_def)
qed

theorem upsert_snapshot_keyed_witness:
  "distinct (map snapshot_key (upsert_account_snapshot 1 ''liability'' ''cc_outstanding'' 5 100 ''cc_statement'' []))"
  using upsert_snapshot_keyed[of "[]" 1 "''liability''" "''cc_outstanding''" 5 100 "''cc_statement''"] by simp

text \<open>Recomputing the paid amount of a statement is idempotent: a second recomputation, at any later
  time, returns the same amount and leaves the statement, the database and the time of payment as they are.\<close>

theorem recompute_idempotent:
  assumes "distinct (map su_id (statement_uploads d))" "u \<in> set (statement_uploads d)"
    and "su_created_at u \<noteq> None"
    and "recompute_cc_payment_state parse now z u d = Inr (paid, u', d')"
  shows "recompute_cc_payment_state parse now' z u' d' = Inr (paid, u', d')"
  by (rule recompute_again[OF assms])

definition one_statement :: db where
  "one_statement = empty_db\<lparr>statement_uploads := [blank_upload]\<rparr>"

lemma parse_100: "parse_cc_amount ''100'' = Some 100"
  by (simp add: parse_cc_amount_def parse_decimal_def py_strip_def strip_chars_def py_isspace_def split_sign_def
      parse_unsigned_def ascii_digit_def digits_value_def parse_exponent_def scale10_def)

lemma one_statement_window: "\<exists>w. cc_cycle_window sample_parse now blank_upload one_statement = Inr w"
  by (simp add: cc_cycle_window_def blank_upload_def)

lemma one_statement_recompute:
  "\<exists>u' d'. recompute_cc_payment_state sample_parse 3 True blank_upload one_statement = Inr (0, u', d')"
proof -
  obtain w where "cc_cycle_window sample_parse 3 blank_upload one_statement = Inr w"
    using one_statement_window by blast
  moreover have "parse_total_due blank_upload = Some 100" "su_total_amount_due blank_upload = Some ''100''"
    by (simp_all add: parse_total_due_def blank_upload_def parse_100)
  moreover have "transactions one_statement = []" by (simp add: one_statement_def empty_db_def)
  ultimately show ?thesis
    by (simp add: recompute_cc_payment_state_def qualifying_payment_credit_sum_def quantize2_def
        round_half_even_def Let_def)
qed

theorem recompute_idempotent_witness:
  "\<exists>u' d'. recompute_cc_payment_state sample_parse 3 True blank_upload one_statement = Inr (0, u', d') \<and>
    recompute_cc_payment_state sample_parse 8 True u' d' = Inr (0, u', d')"
proof -
  obtain u' d' where r: "recompute_cc_payment_state sample_parse 3 True blank_upload one_statement = Inr (0, u', d')"
    using one_statement_recompute by blast
  have "recompute_cc_payment_state sample_parse 8 True u' d' = Inr (0, u', d')"
    by (rule recompute_idempotent[OF _ _ _ r]) (simp_all add: one_statement_def blank_upload_def)
  then show ?thesis using r by blast
qed



text \<open>C29. No reminder is sent twice: polling every statement again on the same day sends nothing, however
  many offsets were due and whatever the first poll wrote.\<close>

theorem reminders_sent_once:
  assumes "distinct (map su_id (statement_uploads d))"
  shows "fst (check_and_send_reminders parse enabled offsets now' today
    (snd (check_and_send_reminders parse enabled offsets now today d))) = 0"
  by (rule reminders_twice[OF assms])

theorem reminders_sent_once_witness:
  "fst (check_and_send_reminders sample_parse True [3, 1] 8 29
    (snd (check_and_send_reminders sample_parse True [3, 1] 3 29 one_statement))) = 0"
  by (rule reminders_sent_once) (simp add: one_statement_def)

end
