(* ===== verification/Buckets.thy ===== *)
theory Buckets
  imports Db_Model
begin

text \<open>
  The category vocabulary and its report buckets: the slug sets of \<^verbatim>\<open>categorization/slugs.py\<close> and
  \<^verbatim>\<open>categorization/polarity.py\<close> with the direction guard, \<^verbatim>\<open>cashflow/buckets.py\<close>, and the category
  table of \<^verbatim>\<open>categorization/vocabulary.py\<close>. The two module-level sets of user categories are the
  argument of type \<open>user_slugs\<close>.
\<close>

section \<open>Slugs and the direction guard\<close>

definition SEED_CATEGORIES :: "string list" where
  "SEED_CATEGORIES =
     [''salary'', ''interest'', ''refund'', ''cashback_rewards'', ''reimbursement'', ''other_income'',
      ''repayment'', ''expense'', ''investment'', ''investment_redemption'', ''self_transfer'',
      ''passthrough'', ''personal_loan'', ''family'', ''credit_card_payment'', ''bill_payment'',
      ''groceries'', ''dining'', ''cafe'', ''fuel'', ''car_maintenance'', ''transport'', ''shopping'',
      ''utilities'', ''subscriptions'', ''rent'', ''emi_loan'', ''insurance'', ''healthcare'',
      ''entertainment'', ''travel'', ''education'', ''personal_care'', ''fees_charges'', ''laundry'',
      ''professional_services'', ''tax'', ''tax_refund'', ''cash_withdrawal'', ''charity_gift'', ''gift'',
      ''misc'', ''unknown'']"

definition EXPENSE_SLUGS :: "string list" where
  "EXPENSE_SLUGS =
     [''expense'', ''bill_payment'', ''groceries'', ''dining'', ''cafe'', ''fuel'', ''car_maintenance'',
      ''transport'', ''shopping'', ''utilities'', ''subscriptions'', ''rent'', ''emi_loan'', ''insurance'',
      ''healthcare'', ''entertainment'', ''travel'', ''education'', ''personal_care'', ''fees_charges'',
      ''laundry'', ''professional_services'', ''tax'', ''cash_withdrawal'', ''charity_gift'', ''gift'']"

definition INCOME_SLUGS :: "string list" where
  "INCOME_SLUGS =
     [''salary'', ''interest'', ''refund'', ''cashback_rewards'', ''other_income'', ''repayment'',
      ''investment_redemption'', ''tax_refund'']"

record user_slugs =
  USER_EXPENSE_SLUGS :: "string list"
  USER_INCOME_SLUGS :: "string list"

definition is_expense_slug :: "user_slugs \<Rightarrow> string \<Rightarrow> bool" where
  "is_expense_slug us s \<longleftrightarrow> s \<in> set EXPENSE_SLUGS \<or> s \<in> set (USER_EXPENSE_SLUGS us)"

definition is_income_slug :: "user_slugs \<Rightarrow> string \<Rightarrow> bool" where
  "is_income_slug us s \<longleftrightarrow> s \<in> set INCOME_SLUGS \<or> s \<in> set (USER_INCOME_SLUGS us)"

definition CC_IMPOSSIBLE_CREDIT_SLUGS :: "string list" where
  "CC_IMPOSSIBLE_CREDIT_SLUGS = filter (\<lambda>s. s \<notin> {''refund'', ''cashback_rewards''}) INCOME_SLUGS"

definition resolve_direction :: "user_slugs \<Rightarrow> string \<Rightarrow> string \<Rightarrow> string option \<Rightarrow> string \<times> bool" where
  "resolve_direction us slug direction account_type =
     (if direction = ''debit'' then
        (if is_income_slug us slug \<or> slug = ''unknown'' then (''expense'', True) else (slug, False))
      else if direction = ''credit'' then
        (if account_type = Some ''credit_card'' then
           (if is_expense_slug us slug \<or> slug \<in> set CC_IMPOSSIBLE_CREDIT_SLUGS \<or>
               slug \<in> set (USER_INCOME_SLUGS us) \<or> slug = ''unknown''
            then (''credit_card_payment'', True) else (slug, False))
         else if is_expense_slug us slug \<or> slug = ''unknown'' then (''repayment'', True)
         else (slug, False))
      else (slug, False))"

section \<open>Buckets\<close>

datatype bucket = Income | Expense | Investment | Transfers_in | Family | Internal | Uncategorized

datatype scope = Bank | Card | Unaccounted

definition CONTRA_EXPENSE_SLUGS :: "string list" where
  "CONTRA_EXPENSE_SLUGS = [''refund'', ''cashback_rewards'', ''reimbursement'']"

definition INTERNAL_SLUGS :: "string list" where
  "INTERNAL_SLUGS = [''self_transfer'', ''passthrough'', ''personal_loan'', ''credit_card_payment'']"

definition BANK_INTERNAL_SLUGS :: "string list" where
  "BANK_INTERNAL_SLUGS = [''self_transfer'', ''passthrough'', ''personal_loan'']"

definition INCOME_BUCKET :: "string list" where
  "INCOME_BUCKET =
     filter (\<lambda>s. s \<notin> set CONTRA_EXPENSE_SLUGS \<and> s \<notin> {''investment_redemption'', ''repayment''}) INCOME_SLUGS"

definition EXPENSE_BUCKET :: "string list" where
  "EXPENSE_BUCKET = EXPENSE_SLUGS @ CONTRA_EXPENSE_SLUGS @ [''cash_withdrawal'', ''misc'']"

definition INVESTMENT_BUCKET :: "string list" where
  "INVESTMENT_BUCKET = [''investment'', ''investment_redemption'']"

text \<open>A later entry of the dict display wins, so the map is read from its last entry.\<close>

definition BUCKET_BY_SLUG :: "(string \<times> bucket) list" where
  "BUCKET_BY_SLUG =
     rev (map (\<lambda>s. (s, Income)) INCOME_BUCKET @ map (\<lambda>s. (s, Expense)) EXPENSE_BUCKET @
          map (\<lambda>s. (s, Investment)) INVESTMENT_BUCKET @ map (\<lambda>s. (s, Internal)) INTERNAL_SLUGS @
          [(''repayment'', Transfers_in), (''family'', Family)])"

definition bucket_for_slug ::
    "user_slugs \<Rightarrow> string option \<Rightarrow> scope option \<Rightarrow> string option \<Rightarrow> bucket" where
  "bucket_for_slug us slug sc direction =
     (if \<not> truthy slug \<or> slug = Some ''unknown'' then Uncategorized
      else
        let s = or_empty slug in
        if sc = Some Bank \<and> s = ''credit_card_payment'' then Expense
        else if s = ''gift'' \<and> direction = Some ''credit'' then Income
        else case map_of BUCKET_BY_SLUG s of
            Some b \<Rightarrow> b
          | None \<Rightarrow> if s \<in> set (USER_EXPENSE_SLUGS us) then Expense
                    else if s \<in> set (USER_INCOME_SLUGS us) then Income
                    else Uncategorized)"

definition internal_slugs_for_scope :: "scope option \<Rightarrow> string list" where
  "internal_slugs_for_scope sc = (if sc = Some Bank then BANK_INTERNAL_SLUGS else INTERNAL_SLUGS)"

definition LABEL_OVERRIDES :: "(string \<times> string) list" where
  "LABEL_OVERRIDES =
     [(''credit_card_payment'', ''Card bills''), (''emi_loan'', ''EMI / Loan''),
      (''cash_withdrawal'', ''Cash Withdrawal''), (''cashback_rewards'', ''Cashback Rewards''),
      (''fees_charges'', ''Fees & Charges''), (''charity_gift'', ''Charity & Gifts'')]"

definition py_cased :: "char \<Rightarrow> bool" where
  "py_cased c \<longleftrightarrow> lower_char c \<noteq> c \<or> upper_char c \<noteq> c \<or> char_code c \<in> {170, 181, 186, 223, 255}"

fun title_loop :: "bool \<Rightarrow> string \<Rightarrow> string" where
  "title_loop prev [] = []"
| "title_loop prev (c # s) =
     (if py_cased c then (if prev then lower_char c else upper_char c) else c) # title_loop (py_cased c) s"

definition label_for_slug :: "user_slugs \<Rightarrow> string option \<Rightarrow> string" where
  "label_for_slug us slug =
     (case slug of
        None \<Rightarrow> ''(uncategorized)''
      | Some s \<Rightarrow>
          (case map_of LABEL_OVERRIDES s of
             Some l \<Rightarrow> l
           | None \<Rightarrow>
               if s \<notin> fst ` set BUCKET_BY_SLUG \<and> s \<notin> set (USER_EXPENSE_SLUGS us) \<and>
                  s \<notin> set (USER_INCOME_SLUGS us) \<and> s \<noteq> ''unknown''
               then ''unmapped: '' @ s
               else title_loop False (map (\<lambda>c. if c = CHR ''_'' then CHR '' '' else c) s)))"

section \<open>The category table\<close>

definition slug_char :: "char \<Rightarrow> bool" where
  "slug_char c \<longleftrightarrow> (97 \<le> char_code c \<and> char_code c \<le> 122) \<or> ascii_digit c"

text \<open>\<open>re.sub(r"[^a-z0-9]+", "_", s)\<close>.\<close>

fun sub_runs :: "bool \<Rightarrow> string \<Rightarrow> string" where
  "sub_runs in_run [] = []"
| "sub_runs in_run (c # s) =
     (if slug_char c then c # sub_runs False s
      else if in_run then sub_runs True s
      else CHR ''_'' # sub_runs True s)"

definition canonicalize_slug :: "string \<Rightarrow> string" where
  "canonicalize_slug raw = strip_chars (\<lambda>c. c = CHR ''_'') (sub_runs False (py_lower (py_strip raw)))"

text \<open>\<open>^[a-z][a-z0-9_]{1,40}$\<close>, where \<open>$\<close> also matches before a final newline.\<close>

definition is_valid_slug :: "string \<Rightarrow> bool" where
  "is_valid_slug slug =
     (let body = (if slug \<noteq> [] \<and> last slug = CHR 10 then butlast slug else slug) in
      case body of
        [] \<Rightarrow> False
      | c # r \<Rightarrow> 97 \<le> char_code c \<and> char_code c \<le> 122 \<and> 1 \<le> length r \<and> length r \<le> 40 \<and>
                 list_all (\<lambda>x. slug_char x \<or> x = CHR ''_'') r)"

definition user_bucket_rows :: "category list \<Rightarrow> category list" where
  "user_bucket_rows cs =
     filter (\<lambda>c. k_bucket c \<in> {Some ''expense'', Some ''income''} \<and> k_slug c \<notin> fst ` set BUCKET_BY_SLUG) cs"

definition load_user_buckets :: "category list \<Rightarrow> user_slugs" where
  "load_user_buckets cs =
     \<lparr>USER_EXPENSE_SLUGS = map k_slug (filter (\<lambda>c. k_bucket c = Some ''expense'') (user_bucket_rows cs)),
      USER_INCOME_SLUGS = map k_slug (filter (\<lambda>c. k_bucket c = Some ''income'') (user_bucket_rows cs))\<rparr>"

datatype category_error = Unprocessable | Conflict

definition bump_vocab_version :: "int \<Rightarrow> int" where
  "bump_vocab_version v = v + 1"

definition create_category ::
    "string \<Rightarrow> string \<Rightarrow> category list \<times> int \<Rightarrow> category_error + (category list \<times> int)" where
  "create_category raw_slug bucket s =
     (let (cs, version) = s; slug = canonicalize_slug raw_slug in
      if \<not> is_valid_slug slug then Inl Unprocessable
      else if slug \<in> set SEED_CATEGORIES then Inl Conflict
      else if list_ex (\<lambda>c. k_slug c = slug \<and> k_bucket c = None) cs
      then Inr (update_where (\<lambda>c. k_slug c = slug \<and> k_bucket c = None)
                  (\<lambda>c. c\<lparr>k_bucket := Some bucket, k_active := True\<rparr>) cs,
                bump_vocab_version version)
      else if list_ex (\<lambda>c. k_slug c = slug) cs then Inl Conflict
      else Inr (cs @ [\<lparr>k_slug = slug, k_active = True, k_bucket = Some bucket\<rparr>], bump_vocab_version version))"

definition ensure_category :: "string \<Rightarrow> category list \<times> int \<Rightarrow> bool \<times> category list \<times> int" where
  "ensure_category slug s =
     (let (cs, version) = s in
      if list_ex (\<lambda>c. k_slug c = slug) cs then (False, cs, version)
      else (True, cs @ [\<lparr>k_slug = slug, k_active = True, k_bucket = None\<rparr>], bump_vocab_version version))"

section \<open>Facts about the vocabulary\<close>

definition builtin_slugs :: "string list" where
  "builtin_slugs = map fst BUCKET_BY_SLUG"

lemma builtin_iff: "s \<in> fst ` set BUCKET_BY_SLUG \<longleftrightarrow> s \<in> set builtin_slugs"
  by (simp add: builtin_slugs_def)

lemma seed_builtin: "s \<in> set SEED_CATEGORIES \<Longrightarrow> s \<noteq> ''unknown'' \<Longrightarrow> s \<in> set builtin_slugs"
proof -
  have "list_all (\<lambda>s. s = ''unknown'' \<or> s \<in> set builtin_slugs) SEED_CATEGORIES" by code_simp
  then show "s \<in> set SEED_CATEGORIES \<Longrightarrow> s \<noteq> ''unknown'' \<Longrightarrow> ?thesis" by (auto simp: list_all_iff)
qed

lemma builtin_bucketed: "s \<in> set builtin_slugs \<Longrightarrow> \<exists>b. map_of BUCKET_BY_SLUG s = Some b \<and> b \<noteq> Uncategorized"
proof -
  have "list_all (\<lambda>e. snd e \<noteq> Uncategorized) BUCKET_BY_SLUG" by code_simp
  moreover assume "s \<in> set builtin_slugs"
  then obtain b where "map_of BUCKET_BY_SLUG s = Some b"
    by (metis builtin_iff map_of_eq_None_iff option.exhaust)
  ultimately show ?thesis by (force simp: list_all_iff dest: map_of_SomeD)
qed

lemma user_slugs_not_builtin:
  "s \<in> set (USER_EXPENSE_SLUGS (load_user_buckets cs)) \<Longrightarrow> s \<notin> set builtin_slugs"
  "s \<in> set (USER_INCOME_SLUGS (load_user_buckets cs)) \<Longrightarrow> s \<notin> set builtin_slugs"
  by (auto simp: load_user_buckets_def user_bucket_rows_def builtin_iff)

lemma income_bucket_income:
  "map_of BUCKET_BY_SLUG s = Some Income \<Longrightarrow> s \<in> set INCOME_SLUGS"
proof -
  have "list_all (\<lambda>e. snd e = Income \<longrightarrow> fst e \<in> set INCOME_SLUGS) BUCKET_BY_SLUG" by code_simp
  then show "map_of BUCKET_BY_SLUG s = Some Income \<Longrightarrow> ?thesis"
    by (force simp: list_all_iff dest: map_of_SomeD)
qed

lemma defaults_builtin:
  "''expense'' \<in> set builtin_slugs" "''repayment'' \<in> set builtin_slugs" "''credit_card_payment'' \<in> set builtin_slugs"
  by code_simp+

lemma defaults_slugs:
  "''expense'' \<notin> set INCOME_SLUGS" "''repayment'' \<notin> set EXPENSE_SLUGS"
  "''credit_card_payment'' \<notin> set EXPENSE_SLUGS" "''credit_card_payment'' \<notin> set CC_IMPOSSIBLE_CREDIT_SLUGS"
  by code_simp+

text \<open>What the guard calls impossible for a direction.\<close>

definition impossible_slug :: "user_slugs \<Rightarrow> string \<Rightarrow> string option \<Rightarrow> string \<Rightarrow> bool" where
  "impossible_slug us direction account_type s \<longleftrightarrow>
     (direction = ''debit'' \<and> (is_income_slug us s \<or> s = ''unknown'')) \<or>
     (direction = ''credit'' \<and> (is_expense_slug us s \<or> s = ''unknown'')) \<or>
     (direction = ''credit'' \<and> account_type = Some ''credit_card'' \<and>
        (s \<in> set CC_IMPOSSIBLE_CREDIT_SLUGS \<or> s \<in> set (USER_INCOME_SLUGS us)))"

lemma resolve_direction_possible:
  "\<not> impossible_slug (load_user_buckets cs) direction account_type
      (fst (resolve_direction (load_user_buckets cs) slug direction account_type))"
  using user_slugs_not_builtin[of _ cs] defaults_builtin defaults_slugs
  by (auto simp: impossible_slug_def resolve_direction_def is_income_slug_def is_expense_slug_def)

lemma resolve_direction_keeps:
  "\<not> impossible_slug us direction account_type slug \<Longrightarrow>
   resolve_direction us slug direction account_type = (slug, False)"
  by (auto simp: impossible_slug_def resolve_direction_def)

lemma guarded_debit_not_income:
  assumes "us = load_user_buckets cs" "slug' = fst (resolve_direction us slug ''debit'' account_type)"
  shows "bucket_for_slug us (Some slug') sc (Some ''debit'') \<noteq> Income"
proof -
  have "\<not> is_income_slug us slug'"
    using resolve_direction_possible[of cs "''debit''" account_type slug] assms by (simp add: impossible_slug_def)
  then show ?thesis
    using income_bucket_income by (auto simp: bucket_for_slug_def Let_def is_income_slug_def split: option.splits)
qed

lemma bucket_scope:
  "s \<noteq> Some ''credit_card_payment'' \<Longrightarrow> bucket_for_slug us s sc dir = bucket_for_slug us s None dir"
  by (cases s) (simp_all add: bucket_for_slug_def Let_def)

section \<open>Facts about the category table\<close>

definition categories_ok :: "category list \<Rightarrow> bool" where
  "categories_ok cs \<longleftrightarrow> distinct (map k_slug cs) \<and>
     (\<forall>c\<in>set cs. k_bucket c \<noteq> None \<longrightarrow> is_valid_slug (k_slug c) \<and> k_slug c \<notin> set SEED_CATEGORIES)"

lemma create_category_ok:
  assumes "create_category raw bucket (cs, v) = Inr (cs', v')" "categories_ok cs"
  shows "categories_ok cs'" "v' = v + 1"
    "\<exists>c\<in>set cs'. k_slug c = canonicalize_slug raw \<and> k_bucket c = Some bucket \<and> k_active c"
proof -
  let ?s = "canonicalize_slug raw"
  let ?P = "\<lambda>c. k_slug c = ?s \<and> k_bucket c = None"
  have ok: "is_valid_slug ?s" "?s \<notin> set SEED_CATEGORIES" and v: "v' = v + 1"
    using assms(1) by (auto simp: create_category_def Let_def bump_vocab_version_def split: if_splits)
  consider c where "c \<in> set cs" "?P c" "cs' = update_where ?P (\<lambda>c. c\<lparr>k_bucket := Some bucket, k_active := True\<rparr>) cs"
    | "\<forall>c\<in>set cs. k_slug c \<noteq> ?s" "cs' = cs @ [\<lparr>k_slug = ?s, k_active = True, k_bucket = Some bucket\<rparr>]"
    using assms(1) by (auto simp: create_category_def Let_def list_ex_iff split: if_splits)
  then have "categories_ok cs' \<and> (\<exists>c\<in>set cs'. k_slug c = ?s \<and> k_bucket c = Some bucket \<and> k_active c)"
  proof cases
    case 1
    have "map k_slug cs' = map k_slug cs" using 1(3) by (simp add: map_update_where)
    then have "distinct (map k_slug cs')" using assms(2) by (simp add: categories_ok_def)
    moreover have "is_valid_slug (k_slug x) \<and> k_slug x \<notin> set SEED_CATEGORIES"
      if x: "x \<in> set cs'" "k_bucket x \<noteq> None" for x
    proof -
      obtain q where "q \<in> set cs" and "x = (if ?P q then q\<lparr>k_bucket := Some bucket, k_active := True\<rparr> else q)"
        using in_set_update_where[OF x(1)[unfolded 1(3)]] by blast
      then show ?thesis using x(2) ok assms(2) by (cases "?P q") (simp_all add: categories_ok_def)
    qed
    ultimately have "categories_ok cs'" by (simp add: categories_ok_def)
    moreover have "\<exists>c\<in>set cs'. k_slug c = ?s \<and> k_bucket c = Some bucket \<and> k_active c"
      using 1 by (intro bexI[of _ "c\<lparr>k_bucket := Some bucket, k_active := True\<rparr>"]) (auto simp: update_where_def)
    ultimately show ?thesis by blast
  next
    case 2
    then show ?thesis using assms(2) ok by (auto simp: categories_ok_def)
  qed
  then show "categories_ok cs'" "v' = v + 1"
    "\<exists>c\<in>set cs'. k_slug c = ?s \<and> k_bucket c = Some bucket \<and> k_active c"
    using v by blast+
qed

lemma valid_slug_lead:
  "is_valid_slug s \<Longrightarrow> \<exists>c r. s = c # r \<and> 97 \<le> char_code c \<and> char_code c \<le> 122"
proof (cases s)
  case (Cons c r)
  assume "is_valid_slug s"
  then show ?thesis
    using Cons by (cases "r = []") (auto simp: is_valid_slug_def Let_def split: if_splits list.splits)
qed (simp add: is_valid_slug_def)

section \<open>Properties\<close>

text \<open>The direction guard: whatever category the rules or the model propose, the category stored for
  a debit is never summed as income in any scope, the guard's own fallback is never impossible, and a
  proposal that is possible is kept.\<close>

theorem direction_guard:
  fixes cs slug account_type
  defines "us \<equiv> load_user_buckets cs"
  shows "bucket_for_slug us (Some (fst (resolve_direction us slug ''debit'' account_type))) sc (Some ''debit'') \<noteq> Income \<and>
    \<not> impossible_slug us direction account_type (fst (resolve_direction us slug direction account_type)) \<and>
    (\<not> impossible_slug us direction account_type slug \<longrightarrow>
       resolve_direction us slug direction account_type = (slug, False))"
  using guarded_debit_not_income[OF us_def[THEN meta_eq_to_obj_eq] refl, of slug account_type sc]
    resolve_direction_possible[of cs direction account_type slug] resolve_direction_keeps[of us direction account_type slug]
  by (simp add: us_def)

theorem direction_guard_witness:
  "resolve_direction (load_user_buckets []) ''salary'' ''credit'' None = (''salary'', False)"
proof -
  have "\<not> impossible_slug (load_user_buckets []) ''credit'' None ''salary''"
    by (simp add: impossible_slug_def is_expense_slug_def load_user_buckets_def user_bucket_rows_def EXPENSE_SLUGS_def)
  then show ?thesis using direction_guard[of "[]" "''salary''" None None "''credit''"] by simp
qed

text \<open>Creating a category keeps the table well formed: slugs stay distinct, every bucketed slug is a
  valid one that is not built in, the new category is there, active and bucketed, and the vocabulary
  version moves by one.\<close>

theorem create_category_keeps:
  assumes "create_category raw bucket (cs, v) = Inr (cs', v')" "categories_ok cs"
  shows "categories_ok cs' \<and> v' = v + 1 \<and>
    (\<exists>c\<in>set cs'. k_slug c = canonicalize_slug raw \<and> k_bucket c = Some bucket \<and> k_active c)"
  using create_category_ok[OF assms] by blast

theorem create_category_keeps_witness:
  "categories_ok [\<lparr>k_slug = ''pets'', k_active = True, k_bucket = Some ''expense''\<rparr>]"
proof -
  have "create_category ''pets'' ''expense'' ([], 1) =
      Inr ([\<lparr>k_slug = ''pets'', k_active = True, k_bucket = Some ''expense''\<rparr>], 2)"
    by code_simp
  from create_category_keeps[OF this] show ?thesis by (simp add: categories_ok_def)
qed

end
