(* ===== verification/Cashflow_Report.thy ===== *)
theory Cashflow_Report
  imports Buckets
begin

text \<open>
  The cash-basis report: the account scopes of \<^verbatim>\<open>cashflow/scope.py\<close> and the summary of
  \<^verbatim>\<open>cashflow/report.py\<close>. A SQL predicate is a boolean function of the row (with SQL's NULL read as
  false where a \<open>WHERE\<close> clause drops it), a \<open>GROUP BY\<close> the list of its groups in the order their
  keys first occur, and every decimal sum a sum of rationals.
\<close>

section \<open>Scopes and row predicates\<close>

definition BANK_ACCOUNT_TYPES :: "string list" where
  "BANK_ACCOUNT_TYPES = [''bank_account'', ''debit_card'']"

definition CARD_ACCOUNT_TYPES :: "string list" where
  "CARD_ACCOUNT_TYPES = [''credit_card'']"

definition linked_to :: "string list \<Rightarrow> db \<Rightarrow> txn \<Rightarrow> bool" where
  "linked_to types d t =
     (case t_account_id t of None \<Rightarrow> False
      | Some i \<Rightarrow> list_ex (\<lambda>a. a_id a = i \<and> a_type a \<in> set types) (accounts d))"

definition in_scope :: "scope \<Rightarrow> db \<Rightarrow> txn \<Rightarrow> bool" where
  "in_scope sc d t =
     (case sc of
        Bank \<Rightarrow> linked_to BANK_ACCOUNT_TYPES d t
      | Card \<Rightarrow> linked_to CARD_ACCOUNT_TYPES d t
      | Unaccounted \<Rightarrow> \<not> linked_to (BANK_ACCOUNT_TYPES @ CARD_ACCOUNT_TYPES) d t)"

definition INR_OR_NULL :: "txn \<Rightarrow> bool" where
  "INR_OR_NULL t \<longleftrightarrow> t_currency t = None \<or> t_currency t = Some ''INR''"

definition NON_INR :: "txn \<Rightarrow> bool" where
  "NON_INR t \<longleftrightarrow> t_currency t \<noteq> None \<and> t_currency t \<noteq> Some ''INR''"

definition NOT_VOIDED :: "txn \<Rightarrow> bool" where
  "NOT_VOIDED t \<longleftrightarrow> t_voided t \<noteq> Some True"

definition INCLUDED :: "txn \<Rightarrow> bool" where
  "INCLUDED t \<longleftrightarrow> t_exclude_from_cashflow t \<noteq> Some True \<and> NOT_VOIDED t"

definition EXCLUDED :: "txn \<Rightarrow> bool" where
  "EXCLUDED t \<longleftrightarrow> t_exclude_from_cashflow t = Some True \<and> NOT_VOIDED t"

definition SIGNED_AMOUNT :: "txn \<Rightarrow> decimal" where
  "SIGNED_AMOUNT t = (if t_direction t = ''credit'' then t_amount t else - t_amount t)"

definition blank_char :: "char \<Rightarrow> bool" where
  "blank_char c \<longleftrightarrow> char_code c \<in> {32, 9, 10, 13, 11, 12}"

definition is_blank :: "string option \<Rightarrow> bool" where
  "is_blank s \<longleftrightarrow> (case s of None \<Rightarrow> True | Some v \<Rightarrow> strip_chars blank_char v = [])"

definition NORMALIZED_COUNTERPARTY :: "txn \<Rightarrow> string option" where
  "NORMALIZED_COUNTERPARTY t = (if is_blank (t_counterparty t) then None else t_counterparty t)"

definition NORMALIZED_CATEGORY :: "txn \<Rightarrow> string option" where
  "NORMALIZED_CATEGORY t = (if is_blank (t_category t) then None else t_category t)"

definition UNCATEGORIZED :: "db \<Rightarrow> txn \<Rightarrow> bool" where
  "UNCATEGORIZED d t \<longleftrightarrow>
     is_blank (t_category t) \<or> t_category t = Some ''unknown'' \<or>
     (case t_category t of None \<Rightarrow> False
      | Some s \<Rightarrow> s \<notin> fst ` set BUCKET_BY_SLUG \<and>
          \<not> list_ex (\<lambda>c. k_slug c = s \<and> k_bucket c \<in> {Some ''expense'', Some ''income''}) (categories d))"

definition in_range :: "date \<Rightarrow> date \<Rightarrow> txn \<Rightarrow> bool" where
  "in_range date_from date_to t =
     (case t_transaction_date t of None \<Rightarrow> False | Some x \<Rightarrow> date_from \<le> x \<and> x \<le> date_to)"

section \<open>Aggregation\<close>

definition group_by :: "('a \<Rightarrow> 'k) \<Rightarrow> 'a list \<Rightarrow> ('k \<times> 'a list) list" where
  "group_by key rows = map (\<lambda>k. (k, filter (\<lambda>r. key r = k) rows)) (remdups (map key rows))"

definition SIGNED_FLOW :: "txn list \<Rightarrow> decimal" where
  "SIGNED_FLOW rows = dsum SIGNED_AMOUNT rows"

record report_line =
  ln_slug :: "string option"
  ln_label :: string
  ln_total :: decimal
  ln_count :: nat
  ln_kind :: "string option"

record bucket_summary =
  bs_total :: decimal
  bs_count :: nat
  bs_lines :: "report_line list"

record investment_summary =
  is_contributions :: decimal
  is_redemptions :: decimal
  is_net :: decimal
  is_count :: nat
  is_lines :: "report_line list"

definition by_magnitude :: "report_line \<Rightarrow> decimal \<times> string" where
  "by_magnitude l = (- \<bar>ln_total l\<bar>, ln_label l)"

definition bucket_of_lines :: "report_line list \<Rightarrow> bucket_summary" where
  "bucket_of_lines ls =
     \<lparr>bs_total = dsum ln_total ls, bs_count = sum_list (map ln_count ls), bs_lines = ls\<rparr>"

definition category_line :: "user_slugs \<Rightarrow> string option \<Rightarrow> decimal \<Rightarrow> nat \<Rightarrow> string option \<Rightarrow> report_line" where
  "category_line us slug amt n kind =
     \<lparr>ln_slug = slug, ln_label = label_for_slug us slug, ln_total = amt, ln_count = n, ln_kind = kind\<rparr>"

definition merge_line ::
    "user_slugs \<Rightarrow> string option \<Rightarrow> decimal \<Rightarrow> nat \<Rightarrow> report_line list \<Rightarrow> report_line list" where
  "merge_line us slug amt n ls =
     (if list_ex (\<lambda>l. ln_slug l = slug) ls
      then update_where (\<lambda>l. ln_slug l = slug)
             (\<lambda>l. l\<lparr>ln_total := ln_total l + amt, ln_count := ln_count l + n\<rparr>) ls
      else ls @ [category_line us slug amt n None])"

record headline =
  hl_income :: "report_line list"
  hl_expense :: "report_line list"
  hl_investment :: "report_line list"

definition add_group :: "user_slugs \<Rightarrow> (string option \<times> string) \<times> txn list \<Rightarrow> headline \<Rightarrow> headline" where
  "add_group us g h =
     (let ((slug, direction), rows) = g; signed = SIGNED_FLOW rows; n = length rows in
      case bucket_for_slug us slug (Some Bank) (Some direction) of
        Income \<Rightarrow> h\<lparr>hl_income := merge_line us slug signed n (hl_income h)\<rparr>
      | Expense \<Rightarrow> h\<lparr>hl_expense := merge_line us slug (- signed) n (hl_expense h)\<rparr>
      | Investment \<Rightarrow>
          h\<lparr>hl_investment := hl_investment h @
              [category_line us slug (- signed) n
                 (Some (if direction = ''debit'' then ''contribution'' else ''redemption''))]\<rparr>
      | _ \<Rightarrow> h)"

definition headline_of :: "user_slugs \<Rightarrow> txn list \<Rightarrow> headline" where
  "headline_of us rows =
     fold (add_group us) (group_by (\<lambda>t. (t_category t, t_direction t)) rows)
       \<lparr>hl_income = [], hl_expense = [], hl_investment = []\<rparr>"

definition investment_of_lines :: "report_line list \<Rightarrow> investment_summary" where
  "investment_of_lines ls =
     (let contributions = dsum ln_total (filter (\<lambda>l. ln_kind l = Some ''contribution'') ls);
          redemptions = - dsum ln_total (filter (\<lambda>l. ln_kind l = Some ''redemption'') ls)
      in \<lparr>is_contributions = contributions, is_redemptions = redemptions,
          is_net = contributions - redemptions, is_count = sum_list (map ln_count ls), is_lines = ls\<rparr>)"

definition NO_COUNTERPARTY_LABEL :: string where
  "NO_COUNTERPARTY_LABEL = ''(no counterparty)''"

definition transfers_in :: "db \<Rightarrow> txn list \<Rightarrow> bucket_summary" where
  "transfers_in d rows =
     bucket_of_lines (sort_key by_magnitude
       (map (\<lambda>(cp, g). \<lparr>ln_slug = cp, ln_label = (if truthy cp then or_empty cp else NO_COUNTERPARTY_LABEL),
                         ln_total = SIGNED_FLOW g, ln_count = length g, ln_kind = None\<rparr>)
         (group_by NORMALIZED_COUNTERPARTY
           (filter (\<lambda>t. INR_OR_NULL t \<and> in_scope Bank d t \<and> INCLUDED t \<and> t_category t = Some ''repayment'') rows))))"

definition uncategorized :: "user_slugs \<Rightarrow> db \<Rightarrow> txn list \<Rightarrow> bucket_summary" where
  "uncategorized us d rows =
     bucket_of_lines (sort_key by_magnitude
       (map (\<lambda>(slug, g). category_line us slug (SIGNED_FLOW g) (length g) None)
         (group_by NORMALIZED_CATEGORY
           (filter (\<lambda>t. in_scope Bank d t \<and> INCLUDED t \<and> UNCATEGORIZED d t) rows))))"

definition expense_detail :: "user_slugs \<Rightarrow> txn list \<Rightarrow> bucket_summary" where
  "expense_detail us rows =
     bucket_of_lines (sort_key by_magnitude
       (fold (\<lambda>((slug, direction), g) ls.
                if bucket_for_slug us slug None (Some direction) = Expense
                then merge_line us slug (- SIGNED_FLOW g) (length g) ls else ls)
         (group_by (\<lambda>t. (t_category t, t_direction t)) (filter (\<lambda>t. INR_OR_NULL t \<and> INCLUDED t) rows)) []))"

record footnotes =
  fn_internal_count :: nat
  fn_internal_gross :: decimal
  fn_internal_net :: decimal
  fn_non_inr_count :: nat
  fn_undated_count :: nat
  fn_undated_net :: decimal
  fn_unaccounted_count :: nat
  fn_unaccounted_net :: decimal
  fn_family_count :: nat
  fn_family_net :: decimal
  fn_excluded_count :: nat
  fn_excluded_gross :: decimal
  fn_excluded_net :: decimal

definition category_in :: "string list \<Rightarrow> txn \<Rightarrow> bool" where
  "category_in slugs t = (case t_category t of None \<Rightarrow> False | Some s \<Rightarrow> s \<in> set slugs)"

definition footnotes_of :: "db \<Rightarrow> txn list \<Rightarrow> footnotes" where
  "footnotes_of d rows =
     (let internal = filter (\<lambda>t. in_scope Bank d t \<and> INCLUDED t \<and> category_in BANK_INTERNAL_SLUGS t) rows;
          undated = filter (\<lambda>t. t_transaction_date t = None \<and> NOT_VOIDED t) (transactions d);
          unaccounted = filter (\<lambda>t. INCLUDED t \<and> in_scope Unaccounted d t) rows;
          family = filter (\<lambda>t. INCLUDED t \<and> t_category t = Some ''family'') rows;
          excluded = filter EXCLUDED rows
      in \<lparr>fn_internal_count = length internal, fn_internal_gross = dsum t_amount internal,
          fn_internal_net = SIGNED_FLOW internal,
          fn_non_inr_count = length (filter (\<lambda>t. in_scope Bank d t \<and> INCLUDED t \<and> NON_INR t) rows),
          fn_undated_count = length undated, fn_undated_net = SIGNED_FLOW undated,
          fn_unaccounted_count = length unaccounted, fn_unaccounted_net = SIGNED_FLOW unaccounted,
          fn_family_count = length family, fn_family_net = SIGNED_FLOW family,
          fn_excluded_count = length excluded, fn_excluded_gross = dsum t_amount excluded,
          fn_excluded_net = SIGNED_FLOW excluded\<rparr>)"

record cashflow_summary =
  cs_date_from :: date
  cs_date_to :: date
  cs_income :: bucket_summary
  cs_expense :: bucket_summary
  cs_expense_detail :: bucket_summary
  cs_investment :: investment_summary
  cs_transfers_in :: bucket_summary
  cs_uncategorized :: bucket_summary
  cs_net_cash_retained :: decimal
  cs_footnotes :: footnotes

definition cashflow_summary :: "db \<Rightarrow> date \<Rightarrow> date \<Rightarrow> cashflow_summary" where
  "cashflow_summary d date_from date_to =
     (let us = load_user_buckets (categories d);
          rows = filter (in_range date_from date_to) (transactions d);
          h = headline_of us (filter (\<lambda>t. INR_OR_NULL t \<and> in_scope Bank d t \<and> INCLUDED t) rows);
          income = bucket_of_lines (sort_key by_magnitude (hl_income h));
          expense = bucket_of_lines (sort_key by_magnitude (hl_expense h));
          investment = investment_of_lines (sort_key by_magnitude (hl_investment h));
          transfers = transfers_in d rows
      in \<lparr>cs_date_from = date_from, cs_date_to = date_to, cs_income = income, cs_expense = expense,
          cs_expense_detail = expense_detail us rows, cs_investment = investment,
          cs_transfers_in = transfers, cs_uncategorized = uncategorized us d rows,
          cs_net_cash_retained = bs_total income + bs_total transfers - bs_total expense - is_net investment,
          cs_footnotes = footnotes_of d rows\<rparr>)"

end
