(* ===== verification/Report_Facts.thy ===== *)
theory Report_Facts
  imports Cashflow_Report "HOL-Library.Multiset"
begin

text \<open>
  The totals of the cashflow summary as sums over the rows: the scopes partition the table, the
  Python bucket of a slug and the SQL predicate agree, and every grouped figure is the sum of the
  rows of its bucket.
\<close>

section \<open>Scopes\<close>

lemma linked_to_append: "linked_to (xs @ ys) d t \<longleftrightarrow> linked_to xs d t \<or> linked_to ys d t"
  by (auto simp: linked_to_def list_ex_iff split: option.splits)

lemma bank_card_disjoint:
  assumes "distinct (map a_id (accounts d))" "linked_to BANK_ACCOUNT_TYPES d t"
  shows "\<not> linked_to CARD_ACCOUNT_TYPES d t"
proof
  assume "linked_to CARD_ACCOUNT_TYPES d t"
  then obtain a b where "a \<in> set (accounts d)" "b \<in> set (accounts d)" "a_id a = a_id b"
    "a_type a \<in> set BANK_ACCOUNT_TYPES" "a_type b \<in> set CARD_ACCOUNT_TYPES"
    using assms(2) by (auto simp: linked_to_def list_ex_iff split: option.splits)
  then have "a = b" using assms(1) by (auto simp: distinct_map inj_on_def)
  then show False using \<open>a_type a \<in> _\<close> \<open>a_type b \<in> _\<close> by (auto simp: BANK_ACCOUNT_TYPES_def CARD_ACCOUNT_TYPES_def)
qed

lemma scope_partition:
  assumes "distinct (map a_id (accounts d))"
  shows "\<exists>!sc. in_scope sc d t"
proof -
  have "in_scope Unaccounted d t \<longleftrightarrow> \<not> in_scope Bank d t \<and> \<not> in_scope Card d t"
    by (simp add: in_scope_def linked_to_append)
  moreover have "\<not> (in_scope Bank d t \<and> in_scope Card d t)"
    using bank_card_disjoint[OF assms] by (auto simp: in_scope_def)
  moreover define sc where "sc = (if in_scope Bank d t then Bank else if in_scope Card d t then Card else Unaccounted)"
  ultimately have "in_scope x d t \<longleftrightarrow> x = sc" for x
    by (cases x) (auto simp: sc_def)
  then show ?thesis by simp
qed

section \<open>The bucket map and the SQL predicate\<close>

lemma blank_char_not_slug: "97 \<le> char_code c \<Longrightarrow> \<not> blank_char c"
  by (auto simp: blank_char_def)

lemma valid_slug_not_blank: "is_valid_slug s \<Longrightarrow> \<not> is_blank (Some s)"
proof -
  assume "is_valid_slug s"
  then obtain c r where c: "s = c # r" "97 \<le> char_code c" using valid_slug_lead by blast
  have "\<not> blank_char c" using blank_char_not_slug c(2) by blast
  then have "dropWhile blank_char (rev (dropWhile blank_char s)) \<noteq> []"
    using c(1) by (auto simp: dropWhile_eq_Nil_conv)
  then show ?thesis by (simp add: is_blank_def strip_chars_def)
qed

lemma builtin_not_blank: "s \<in> fst ` set BUCKET_BY_SLUG \<Longrightarrow> \<not> is_blank (Some s)"
proof -
  have "list_all (\<lambda>e. \<not> is_blank (Some (fst e))) BUCKET_BY_SLUG" by code_simp
  then show "s \<in> fst ` set BUCKET_BY_SLUG \<Longrightarrow> ?thesis" by (auto simp: list_all_iff)
qed

lemma gift_builtin: "''gift'' \<in> fst ` set BUCKET_BY_SLUG" "''credit_card_payment'' \<in> fst ` set BUCKET_BY_SLUG"
  "''unknown'' \<notin> fst ` set BUCKET_BY_SLUG" "''family'' \<in> fst ` set BUCKET_BY_SLUG"
  by code_simp+

lemma user_bucket_exists:
  assumes "s \<notin> fst ` set BUCKET_BY_SLUG"
  shows "s \<in> set (USER_EXPENSE_SLUGS (load_user_buckets cs)) \<or> s \<in> set (USER_INCOME_SLUGS (load_user_buckets cs)) \<longleftrightarrow>
    list_ex (\<lambda>c. k_slug c = s \<and> k_bucket c \<in> {Some ''expense'', Some ''income''}) cs"
  using assms by (auto simp: load_user_buckets_def user_bucket_rows_def list_ex_iff)

lemma uncategorized_agreement:
  assumes "categories_ok (categories d)"
  shows "bucket_for_slug (load_user_buckets (categories d)) (t_category t) sc dir = Uncategorized \<longleftrightarrow> UNCATEGORIZED d t"
proof (cases "t_category t")
  case None
  then show ?thesis by (simp add: bucket_for_slug_def UNCATEGORIZED_def is_blank_def)
next
  case (Some s)
  let ?us = "load_user_buckets (categories d)"
  have user_not_blank: "\<not> is_blank (Some s)"
    if "list_ex (\<lambda>c. k_slug c = s \<and> k_bucket c \<in> {Some ''expense'', Some ''income''}) (categories d)"
    using that assms valid_slug_not_blank by (force simp: list_ex_iff categories_ok_def)
  show ?thesis
  proof (cases "s = ''unknown'' \<or> s = []")
    case True
    have "is_blank (Some [])" by (simp add: is_blank_def strip_chars_def)
    then have "UNCATEGORIZED d t" unfolding UNCATEGORIZED_def Some using True by metis
    moreover have "bucket_for_slug ?us (Some s) sc dir = Uncategorized"
      using True by (elim disjE) (simp_all add: bucket_for_slug_def)
    ultimately show ?thesis using Some by simp
  next
    case False
    show ?thesis
    proof (cases "s \<in> fst ` set BUCKET_BY_SLUG")
      case True
      then obtain b where "map_of BUCKET_BY_SLUG s = Some b" "b \<noteq> Uncategorized"
        using builtin_bucketed builtin_iff by blast
      then show ?thesis
        using Some False True builtin_not_blank[OF True]
        by (auto simp: bucket_for_slug_def UNCATEGORIZED_def Let_def)
    next
      case new: False
      then have "map_of BUCKET_BY_SLUG s = None" by (simp add: map_of_eq_None_iff)
      moreover have "s \<noteq> ''gift''" "s \<noteq> ''credit_card_payment''" using new gift_builtin by auto
      ultimately have "bucket_for_slug ?us (Some s) sc dir = Uncategorized \<longleftrightarrow>
          \<not> (s \<in> set (USER_EXPENSE_SLUGS ?us) \<or> s \<in> set (USER_INCOME_SLUGS ?us))"
        using False by (simp add: bucket_for_slug_def Let_def)
      then show ?thesis
        using Some False new user_not_blank unfolding user_bucket_exists[OF new]
        by (auto simp: UNCATEGORIZED_def)
    qed
  qed
qed

section \<open>Grouped sums\<close>

lemma dsum_if_key:
  "distinct ks \<Longrightarrow> k \<in> set ks \<Longrightarrow> dsum (\<lambda>x. if x = k then v else 0) ks = v"
proof (induction ks)
  case (Cons x ks)
  have "dsum (\<lambda>y. if y = k then v else 0) ks = 0" if "k \<notin> set ks"
    using that by (induction ks) auto
  then show ?case using Cons by auto
qed simp

lemma dsum_groups:
  assumes "distinct ks" "set (map key rows) \<subseteq> set ks"
  shows "dsum (\<lambda>k. if P k then dsum f (filter (\<lambda>r. key r = k) rows) else 0) ks =
    dsum (\<lambda>r. if P (key r) then f r else 0) rows"
  using assms(2)
proof (induction rows)
  case Nil
  then show ?case by (induction ks) auto
next
  case (Cons r rows)
  have "dsum (\<lambda>k. if P k then dsum f (filter (\<lambda>r. key r = k) (r # rows)) else 0) ks =
      dsum (\<lambda>k. (if k = key r then (if P (key r) then f r else 0) else 0) +
        (if P k then dsum f (filter (\<lambda>r. key r = k) rows) else 0)) ks"
    by (rule dsum_cong) auto
  then show ?case using Cons dsum_if_key[OF assms(1), of "key r"] by (simp add: dsum_add)
qed

lemma dsum_map: "dsum f (map g xs) = dsum (\<lambda>x. f (g x)) xs"
  by (induction xs) auto

lemma dsum_group_by:
  "dsum (\<lambda>(k, g). if P k then dsum f g else 0) (group_by key rows) =
   dsum (\<lambda>r. if P (key r) then f r else 0) rows"
  unfolding group_by_def dsum_map using dsum_groups[of "remdups (map key rows)" key rows P f]
  by (simp add: dsum_map comp_def)

lemma dsum_sort [simp]: "dsum f (sort_key k xs) = dsum f xs"
proof -
  have "dsum f xs = sum_mset (image_mset f (mset xs))" for xs
    by (induction xs) simp_all
  then show ?thesis by simp
qed

section \<open>Merged lines\<close>

lemma merge_line_slugs:
  "distinct (map ln_slug ls) \<Longrightarrow> distinct (map ln_slug (merge_line us s a n ls))"
  by (auto simp: merge_line_def map_update_where list_ex_iff category_line_def)

lemma dsum_update_one:
  assumes "distinct (map key ls)" "list_ex (\<lambda>l. key l = s) ls" "\<And>l. f (g l) = f l + a"
  shows "dsum f (update_where (\<lambda>l. key l = s) g ls) = dsum f ls + a"
  using assms(1,2)
proof (induction ls)
  case (Cons l ls)
  show ?case
  proof (cases "key l = s")
    case True
    then have "update_where (\<lambda>l. key l = s) g ls = ls"
      using Cons.prems by (intro update_where_False) (auto simp: image_iff)
    then show ?thesis using True assms(3) by simp
  next
    case False
    then show ?thesis using Cons by simp
  qed
qed simp

lemma merge_line_total:
  "distinct (map ln_slug ls) \<Longrightarrow> dsum ln_total (merge_line us s a n ls) = dsum ln_total ls + a"
  by (simp add: merge_line_def category_line_def dsum_update_one)

section \<open>The headline\<close>

definition report_bucket :: "user_slugs \<Rightarrow> string option \<Rightarrow> string \<Rightarrow> bucket" where
  "report_bucket us slug direction = bucket_for_slug us slug (Some Bank) (Some direction)"

definition row_bucket :: "user_slugs \<Rightarrow> txn \<Rightarrow> bucket" where
  "row_bucket us t = report_bucket us (t_category t) (t_direction t)"

definition group_flow :: "user_slugs \<Rightarrow> bucket \<Rightarrow> (string option \<times> string) \<times> txn list \<Rightarrow> decimal" where
  "group_flow us b g = (if report_bucket us (fst (fst g)) (snd (fst g)) = b then SIGNED_FLOW (snd g) else 0)"

definition headline_ok :: "headline \<Rightarrow> bool" where
  "headline_ok h \<longleftrightarrow> distinct (map ln_slug (hl_income h)) \<and> distinct (map ln_slug (hl_expense h)) \<and>
     (\<forall>l\<in>set (hl_investment h). ln_kind l = Some ''contribution'' \<or> ln_kind l = Some ''redemption'')"

lemma add_group_step:
  assumes "headline_ok h"
  shows "headline_ok (add_group us g h) \<and>
    dsum ln_total (hl_income (add_group us g h)) = dsum ln_total (hl_income h) + group_flow us Income g \<and>
    dsum ln_total (hl_expense (add_group us g h)) = dsum ln_total (hl_expense h) - group_flow us Expense g \<and>
    dsum ln_total (hl_investment (add_group us g h)) = dsum ln_total (hl_investment h) - group_flow us Investment g"
proof -
  obtain slug dir rows where g: "g = ((slug, dir), rows)" by (metis prod.exhaust)
  show ?thesis
    using assms unfolding g
    by (cases "bucket_for_slug us slug (Some Bank) (Some dir)")
       (auto simp: add_group_def group_flow_def report_bucket_def headline_ok_def Let_def
          merge_line_slugs merge_line_total category_line_def)
qed

lemma fold_add_group:
  "headline_ok h \<Longrightarrow>
    headline_ok (fold (add_group us) gs h) \<and>
    dsum ln_total (hl_income (fold (add_group us) gs h)) = dsum ln_total (hl_income h) + dsum (group_flow us Income) gs \<and>
    dsum ln_total (hl_expense (fold (add_group us) gs h)) = dsum ln_total (hl_expense h) - dsum (group_flow us Expense) gs \<and>
    dsum ln_total (hl_investment (fold (add_group us) gs h)) =
      dsum ln_total (hl_investment h) - dsum (group_flow us Investment) gs"
proof (induction gs arbitrary: h)
  case (Cons g gs)
  then show ?case using add_group_step[OF Cons.prems, of us g] Cons.IH[of "add_group us g h"] by simp
qed simp

lemma group_flow_total:
  "dsum (group_flow us b) (group_by (\<lambda>t. (t_category t, t_direction t)) rows) =
   dsum (\<lambda>t. if row_bucket us t = b then SIGNED_AMOUNT t else 0) rows"
proof -
  have "group_flow us b = (\<lambda>(k, g). if report_bucket us (fst k) (snd k) = b then dsum SIGNED_AMOUNT g else 0)"
    by (auto simp: group_flow_def SIGNED_FLOW_def)
  then show ?thesis
    using dsum_group_by[of "\<lambda>k. report_bucket us (fst k) (snd k) = b" SIGNED_AMOUNT
        "\<lambda>t. (t_category t, t_direction t)" rows]
    by (simp add: row_bucket_def)
qed

lemma headline_totals:
  "dsum ln_total (hl_income (headline_of us rows)) = dsum (\<lambda>t. if row_bucket us t = Income then SIGNED_AMOUNT t else 0) rows"
  "dsum ln_total (hl_expense (headline_of us rows)) = - dsum (\<lambda>t. if row_bucket us t = Expense then SIGNED_AMOUNT t else 0) rows"
  "dsum ln_total (hl_investment (headline_of us rows)) = - dsum (\<lambda>t. if row_bucket us t = Investment then SIGNED_AMOUNT t else 0) rows"
  "headline_ok (headline_of us rows)"
  using fold_add_group[of "\<lparr>hl_income = [], hl_expense = [], hl_investment = []\<rparr>" us
      "group_by (\<lambda>t. (t_category t, t_direction t)) rows"]
  by (simp_all add: headline_of_def headline_ok_def group_flow_total)

lemma investment_net:
  assumes "\<forall>l\<in>set ls. ln_kind l = Some ''contribution'' \<or> ln_kind l = Some ''redemption''"
  shows "is_net (investment_of_lines ls) = dsum ln_total ls"
proof -
  have "dsum ln_total ls = dsum ln_total (filter (\<lambda>l. ln_kind l = Some ''contribution'') ls) +
      dsum ln_total (filter (\<lambda>l. ln_kind l \<noteq> Some ''contribution'') ls)" by (rule dsum_split)
  moreover have "filter (\<lambda>l. ln_kind l \<noteq> Some ''contribution'') ls = filter (\<lambda>l. ln_kind l = Some ''redemption'') ls"
    using assms by (intro filter_cong) auto
  ultimately show ?thesis by (simp add: investment_of_lines_def Let_def)
qed

lemma lines_total:
  "(\<And>k g. f (h (k, g)) = SIGNED_FLOW g) \<Longrightarrow> dsum f (map h (group_by key rows)) = SIGNED_FLOW rows"
proof -
  assume h: "\<And>k g. f (h (k, g)) = SIGNED_FLOW g"
  have "dsum f (map h (group_by key rows)) = dsum (\<lambda>(k, g). if True then dsum SIGNED_AMOUNT g else 0) (group_by key rows)"
    unfolding dsum_map by (rule dsum_cong) (auto simp: h SIGNED_FLOW_def)
  then show ?thesis unfolding dsum_group_by by (simp add: SIGNED_FLOW_def)
qed

lemma transfers_in_total:
  "bs_total (transfers_in d rows) = SIGNED_FLOW (filter (\<lambda>t. INR_OR_NULL t \<and> in_scope Bank d t \<and> INCLUDED t \<and>
     t_category t = Some ''repayment'') rows)"
  unfolding transfers_in_def bucket_of_lines_def by (simp add: split_def lines_total)

lemma uncategorized_total:
  "bs_total (uncategorized us d rows) =
     SIGNED_FLOW (filter (\<lambda>t. in_scope Bank d t \<and> INCLUDED t \<and> UNCATEGORIZED d t) rows)"
  unfolding uncategorized_def bucket_of_lines_def by (simp add: split_def lines_total category_line_def)

section \<open>Net cash\<close>

definition summed_bucket :: "bucket \<Rightarrow> bool" where
  "summed_bucket b \<longleftrightarrow> b \<in> {Income, Expense, Investment, Transfers_in}"

lemma transfers_bucket: "report_bucket us slug dir = Transfers_in \<longleftrightarrow> slug = Some ''repayment''"
proof -
  have l: "list_all (\<lambda>e. snd e = Transfers_in \<longrightarrow> fst e = ''repayment'') BUCKET_BY_SLUG"
    and r: "map_of BUCKET_BY_SLUG ''repayment'' = Some Transfers_in" by code_simp+
  show ?thesis
  proof
    assume a: "report_bucket us slug dir = Transfers_in"
    then obtain s where "slug = Some s" "map_of BUCKET_BY_SLUG s = Some Transfers_in"
      by (cases slug) (auto simp: report_bucket_def bucket_for_slug_def Let_def split: if_splits option.splits)
    then show "slug = Some ''repayment''" using l by (force simp: list_all_iff dest: map_of_SomeD)
  qed (simp add: report_bucket_def bucket_for_slug_def r)
qed

lemma SIGNED_FLOW_filter: "SIGNED_FLOW (filter P rows) = dsum (\<lambda>t. if P t then SIGNED_AMOUNT t else 0) rows"
  by (simp add: SIGNED_FLOW_def dsum_filter)

lemma net_cash_rows:
  "cs_net_cash_retained (cashflow_summary d x y) =
     dsum (\<lambda>t. if INR_OR_NULL t \<and> in_scope Bank d t \<and> INCLUDED t \<and>
                 summed_bucket (row_bucket (load_user_buckets (categories d)) t)
               then SIGNED_AMOUNT t else 0) (filter (in_range x y) (transactions d))"
proof -
  let ?us = "load_user_buckets (categories d)"
  let ?rows = "filter (in_range x y) (transactions d)"
  let ?H = "\<lambda>t. INR_OR_NULL t \<and> in_scope Bank d t \<and> INCLUDED t"
  let ?h = "headline_of ?us (filter ?H ?rows)"
  let ?in = "\<lambda>b t. if row_bucket ?us t = b then SIGNED_AMOUNT t else 0"
  have inv: "is_net (investment_of_lines (sort_key by_magnitude (hl_investment ?h))) = dsum ln_total (hl_investment ?h)"
    using headline_totals(4)[of ?us "filter ?H ?rows"] by (subst investment_net) (auto simp: headline_ok_def)
  have "cs_net_cash_retained (cashflow_summary d x y) =
      dsum (?in Income) (filter ?H ?rows) + bs_total (transfers_in d ?rows) +
      dsum (?in Expense) (filter ?H ?rows) + dsum (?in Investment) (filter ?H ?rows)"
    by (simp add: cashflow_summary_def Let_def bucket_of_lines_def inv headline_totals del: filter_filter)
  also have "bs_total (transfers_in d ?rows) = dsum (?in Transfers_in) (filter ?H ?rows)"
    unfolding transfers_in_total SIGNED_FLOW_filter dsum_filter
    by (rule dsum_cong) (simp add: row_bucket_def transfers_bucket)
  also have "dsum (?in Income) (filter ?H ?rows) + dsum (?in Transfers_in) (filter ?H ?rows) +
      dsum (?in Expense) (filter ?H ?rows) + dsum (?in Investment) (filter ?H ?rows) =
      dsum (\<lambda>t. if summed_bucket (row_bucket ?us t) then SIGNED_AMOUNT t else 0) (filter ?H ?rows)"
    unfolding dsum_add[symmetric] by (rule dsum_cong) (auto simp: summed_bucket_def)
  also have "\<dots> = dsum (\<lambda>t. if ?H t \<and> summed_bucket (row_bucket ?us t) then SIGNED_AMOUNT t else 0) ?rows"
    unfolding dsum_filter[of _ ?H] by (rule dsum_cong) simp
  finally show ?thesis by (simp add: conj_assoc)
qed

section \<open>Properties\<close>

text \<open>Every transaction belongs to exactly one scope of the report: bank, card or unaccounted.\<close>

theorem scope_exactly_one:
  assumes "distinct (map a_id (accounts d))"
  shows "\<exists>!sc. in_scope sc d t"
  by (rule scope_partition[OF assms])

theorem scope_exactly_one_witness: "\<exists>!sc. in_scope sc (empty_db\<lparr>accounts := [blank_account]\<rparr>) blank_txn"
  by (rule scope_exactly_one) simp

text \<open>C20. The two readings of "uncategorized" agree: the SQL predicate that selects the uncategorized rows
  is true of a row exactly when the slug table sends the row to the uncategorized bucket, for every
  category table the operations can build, user-made categories included.\<close>

theorem uncategorized_predicates_agree:
  assumes "categories_ok (categories d)"
  shows "UNCATEGORIZED d t \<longleftrightarrow>
    bucket_for_slug (load_user_buckets (categories d)) (t_category t) sc dir = Uncategorized"
  using uncategorized_agreement[OF assms] by blast

theorem uncategorized_predicates_agree_witness:
  "UNCATEGORIZED empty_db (blank_txn\<lparr>t_category := Some ''pets''\<rparr>) \<longleftrightarrow>
   bucket_for_slug (load_user_buckets (categories empty_db)) (Some ''pets'') None None = Uncategorized"
  using uncategorized_predicates_agree[of empty_db "blank_txn\<lparr>t_category := Some ''pets''\<rparr>" None None]
  by (simp add: categories_ok_def empty_db_def)

text \<open>The headline number is the sum of the rows: the net cash retained, which the code assembles from
  four grouped and sorted lists with their own sign conventions, is the signed sum of the included INR
  bank rows of the period whose bucket is income, expense, investment or transfers in.\<close>

theorem net_cash_is_sum_of_rows:
  "cs_net_cash_retained (cashflow_summary d x y) =
     dsum (\<lambda>t. if INR_OR_NULL t \<and> in_scope Bank d t \<and> INCLUDED t \<and>
                 summed_bucket (row_bucket (load_user_buckets (categories d)) t)
               then SIGNED_AMOUNT t else 0) (filter (in_range x y) (transactions d))"
  by (rule net_cash_rows)

end
