(* ===== verification/Cash_Bridge.thy ===== *)
theory Cash_Bridge
  imports Report_Facts Cc_Disambiguation "HOL-Library.Option_ord"
begin

text \<open>
  \<^verbatim>\<open>cashflow/bridge.py\<close>: opening bank cash plus the terms of the report gives closing bank cash. The
  dictionaries of \<open>BankFlows\<close> are association lists in insertion order; \<open>bump\<close> is the update of a
  \<open>defaultdict\<close>. A balance that prints as no number, or a day that does not parse, is no anchor.
\<close>

section \<open>Dictionaries\<close>

fun bump :: "'k \<Rightarrow> 'v \<Rightarrow> ('v \<Rightarrow> 'v) \<Rightarrow> ('k \<times> 'v) list \<Rightarrow> ('k \<times> 'v) list" where
  "bump k dflt f [] = [(k, f dflt)]"
| "bump k dflt f ((k', v) # al) = (if k' = k then (k', f v) # al else (k', v) # bump k dflt f al)"

definition lookup_default :: "'v \<Rightarrow> ('k \<times> 'v) list \<Rightarrow> 'k \<Rightarrow> 'v" where
  "lookup_default dflt al k = (case map_of al k of None \<Rightarrow> dflt | Some v \<Rightarrow> v)"

section \<open>Anchors and balances\<close>

record anchor =
  an_day :: date
  an_value :: decimal
  an_kind :: string

record period =
  pd_start :: date
  pd_end :: date
  pd_opening :: decimal
  pd_closing :: decimal

definition parse_bank_date :: "date_parser \<Rightarrow> string \<Rightarrow> date option" where
  "parse_bank_date parse s = (let text = py_strip s in if text = [] then None else parse text)"

definition parse_bank_amount :: "string \<Rightarrow> decimal option" where
  "parse_bank_amount s = parse_decimal (filter (\<lambda>c. c \<noteq> CHR '','') s)"

definition statement_anchor ::
    "date_parser \<Rightarrow> string option \<Rightarrow> string option \<Rightarrow> int \<Rightarrow> anchor option" where
  "statement_anchor parse raw_day raw_value shift =
     (if \<not> truthy raw_day \<or> \<not> truthy raw_value then None
      else case (parse_bank_date parse (or_empty raw_day), parse_bank_amount (or_empty raw_value)) of
          (Some day, Some v) \<Rightarrow> Some \<lparr>an_day = day + shift, an_value = v, an_kind = ''statement''\<rparr>
        | _ \<Rightarrow> None)"

type_synonym daily = "(date \<times> decimal) list"

definition flow_between :: "daily \<Rightarrow> date \<Rightarrow> date \<Rightarrow> decimal" where
  "flow_between daily after until = dsum snd (filter (\<lambda>(day, _). after < day \<and> day \<le> until) daily)"

definition from_period :: "period \<Rightarrow> date \<Rightarrow> daily \<Rightarrow> anchor" where
  "from_period p day daily =
     (if day - pd_start p \<le> pd_end p - day
      then \<lparr>an_day = pd_start p, an_value = pd_opening p + flow_between daily (pd_start p) day,
            an_kind = ''statement''\<rparr>
      else \<lparr>an_day = pd_end p, an_value = pd_closing p - flow_between daily day (pd_end p),
            an_kind = ''statement''\<rparr>)"

record balance =
  bl_amount :: "decimal option"
  bl_source :: string
  bl_as_of :: "date option"
  bl_implied :: "decimal list"

fun nearest :: "date \<Rightarrow> anchor \<Rightarrow> anchor list \<Rightarrow> anchor" where
  "nearest day best [] = best"
| "nearest day best (a # as) =
     nearest day (if \<bar>an_day a - day\<bar> < \<bar>an_day best - day\<bar> then a else best) as"

definition balance_of_anchor :: "date \<Rightarrow> anchor \<Rightarrow> decimal \<Rightarrow> decimal list \<Rightarrow> balance" where
  "balance_of_anchor day best amount implied =
     \<lparr>bl_amount = Some amount,
      bl_source = (if an_kind best = ''statement'' \<and> an_day best = day then ''statement'' else ''estimated''),
      bl_as_of = Some (an_day best), bl_implied = implied\<rparr>"

definition balance_at :: "date \<Rightarrow> period list \<Rightarrow> anchor list \<Rightarrow> daily \<Rightarrow> balance" where
  "balance_at day periods known_points daily =
     (let covering = map (\<lambda>p. from_period p day daily)
            (filter (\<lambda>p. pd_start p \<le> day \<and> day \<le> pd_end p) periods) in
      case covering of
        c # cs \<Rightarrow> balance_of_anchor day c (an_value c) (map an_value covering)
      | [] \<Rightarrow>
          (case known_points of
             [] \<Rightarrow> \<lparr>bl_amount = None, bl_source = ''unknown'', bl_as_of = None, bl_implied = []\<rparr>
           | a # as \<Rightarrow>
               let best = nearest day a as in
               balance_of_anchor day best
                 (if an_day best \<le> day then an_value best + flow_between daily (an_day best) day
                  else an_value best - flow_between daily day (an_day best)) []))"

section \<open>The bank rows, read once\<close>

definition FLOW_KIND :: "db \<Rightarrow> txn \<Rightarrow> string" where
  "FLOW_KIND d t =
     (if EXCLUDED t then ''excluded''
      else if t_category t = Some ''family'' then ''family''
      else if category_in BANK_INTERNAL_SLUGS t then ''report''
      else if UNCATEGORIZED d t then ''report''
      else if NON_INR t then ''non_inr''
      else ''report'')"

record bank_flows =
  bf_daily :: "(int \<times> daily) list"
  bf_net_flow :: "(int \<times> decimal) list"
  bf_extra :: "(string \<times> decimal) list"
  bf_day_end :: "((int \<times> date) \<times> decimal) list"
  bf_row_flow :: "(int \<times> date \<times> decimal) list"
  bf_upload_rows :: "(int option \<times> int list) list"

definition no_flows :: bank_flows where
  "no_flows = \<lparr>bf_daily = [], bf_net_flow = [], bf_extra = [], bf_day_end = [], bf_row_flow = [],
     bf_upload_rows = []\<rparr>"

definition add_row :: "db \<Rightarrow> date \<Rightarrow> date \<Rightarrow> txn \<Rightarrow> bank_flows \<Rightarrow> bank_flows" where
  "add_row d date_from date_to t fl =
     (case (t_account_id t, t_transaction_date t) of
        (Some acc, Some day) \<Rightarrow>
          let flow = SIGNED_AMOUNT t; kind = FLOW_KIND d t;
              fl = fl\<lparr>bf_daily := bump acc [] (bump day 0 (\<lambda>v. v + flow)) (bf_daily fl),
                      bf_row_flow := bump (t_id t) (day, flow) (\<lambda>_. (day, flow)) (bf_row_flow fl),
                      bf_upload_rows := bump (t_bank_statement_upload_id t) [] (\<lambda>ids. ids @ [t_id t]) (bf_upload_rows fl)\<rparr>;
              fl = (if date_from \<le> day \<and> day \<le> date_to
                    then fl\<lparr>bf_net_flow := bump acc 0 (\<lambda>v. v + flow) (bf_net_flow fl),
                            bf_extra := (if kind \<noteq> ''report'' then bump kind 0 (\<lambda>v. v + flow) (bf_extra fl)
                                         else bf_extra fl)\<rparr>
                    else fl)
          in (case t_balance t of
                Some b \<Rightarrow> fl\<lparr>bf_day_end := bump (acc, day) b (\<lambda>_. b) (bf_day_end fl)\<rparr>
              | None \<Rightarrow> if (acc, day) \<in> fst ` set (bf_day_end fl)
                         then fl\<lparr>bf_day_end := bump (acc, day) 0 (\<lambda>v. v + flow) (bf_day_end fl)\<rparr> else fl)
      | _ \<Rightarrow> fl)"

definition bank_row :: "db \<Rightarrow> txn \<Rightarrow> bool" where
  "bank_row d t \<longleftrightarrow> in_scope Bank d t \<and> NOT_VOIDED t \<and> t_transaction_date t \<noteq> None"

definition bank_flows_of :: "db \<Rightarrow> date \<Rightarrow> date \<Rightarrow> bank_flows" where
  "bank_flows_of d date_from date_to =
     fold (add_row d date_from date_to)
       (sort_key (\<lambda>t. (t_transaction_time t, t_id t)) (filter (bank_row d) (transactions d)))
       no_flows"

section \<open>Known balances\<close>

text \<open>The members are a set in the code, so a row named twice counts once; an id with no row is skipped.\<close>

definition entry_ids :: "recon_entry \<Rightarrow> int list" where
  "entry_ids en = option_list (re_db_txn_id en) @ option_list (re_imported_txn_id en)"

definition reconciliation_ids :: "bank_upload \<Rightarrow> int list" where
  "reconciliation_ids u =
     (case bu_reconciliation_data u of
        None \<Rightarrow> []
      | Some recon \<Rightarrow> concat (map entry_ids (sr_matched recon @ sr_missing recon)))"

definition late_flow :: "bank_upload \<Rightarrow> date \<Rightarrow> bank_flows \<Rightarrow> decimal" where
  "late_flow u end_day fl =
     (let members = remdups (lookup_default [] (bf_upload_rows fl) (Some (bu_id u)) @ reconciliation_ids u);
          dated = concat (map (\<lambda>i. case map_of (bf_row_flow fl) i of None \<Rightarrow> [] | Some x \<Rightarrow> [x]) members)
      in dsum snd (filter (\<lambda>(day, _). end_day < day) dated))"

record known =
  kn_periods :: "(int \<times> period list) list"
  kn_anchors :: "(int \<times> anchor list) list"

record read_statement =
  st_account :: int
  st_opening :: "anchor option"
  st_closing :: "anchor option"

definition read_upload ::
    "date_parser \<Rightarrow> bank_flows \<Rightarrow> bank_upload \<Rightarrow>
     read_statement list \<times> ((int \<times> date) \<times> decimal) list \<Rightarrow>
     read_statement list \<times> ((int \<times> date) \<times> decimal) list" where
  "read_upload parse fl u s =
     (let (statements, late_at) = s;
          closing = statement_anchor parse (bu_statement_period_end u) (bu_closing_balance u) 0;
          opening = statement_anchor parse (bu_statement_period_start u) (bu_opening_balance u) (- 1)
      in case closing of
          None \<Rightarrow> (statements @ [\<lparr>st_account = bu_account_id u, st_opening = opening, st_closing = None\<rparr>], late_at)
        | Some c \<Rightarrow>
            let late = late_flow u (an_day c) fl;
                key = (bu_account_id u, an_day c)
            in (statements @ [\<lparr>st_account = bu_account_id u, st_opening = opening,
                               st_closing = Some (c\<lparr>an_value := an_value c - late\<rparr>)\<rparr>],
                if key \<in> fst ` set late_at then late_at else late_at @ [(key, late)]))"

definition add_statement ::
    "((int \<times> date) \<times> decimal) list \<Rightarrow> read_statement \<Rightarrow> known \<Rightarrow> known" where
  "add_statement late_at st kn =
     (let opening = map_option (\<lambda>a. a\<lparr>an_value := an_value a - lookup_default 0 late_at (st_account st, an_day a)\<rparr>)
            (st_opening st);
          ends = (case opening of None \<Rightarrow> [] | Some a \<Rightarrow> [a]) @ (case st_closing st of None \<Rightarrow> [] | Some a \<Rightarrow> [a]);
          kn = kn\<lparr>kn_anchors := bump (st_account st) [] (\<lambda>as. as @ ends) (kn_anchors kn)\<rparr>
      in case (opening, st_closing st) of
          (Some a, Some c) \<Rightarrow>
            kn\<lparr>kn_periods := bump (st_account st) []
                 (\<lambda>ps. ps @ [\<lparr>pd_start = an_day a, pd_end = an_day c, pd_opening = an_value a, pd_closing = an_value c\<rparr>])
                 (kn_periods kn)\<rparr>
        | _ \<Rightarrow> kn)"

definition add_anchor :: "int \<times> anchor \<Rightarrow> known \<Rightarrow> known" where
  "add_anchor e kn = kn\<lparr>kn_anchors := bump (fst e) [] (\<lambda>as. as @ [snd e]) (kn_anchors kn)\<rparr>"

definition known_of :: "date_parser \<Rightarrow> db \<Rightarrow> int list \<Rightarrow> bank_flows \<Rightarrow> known" where
  "known_of parse d account_ids fl =
     (let uploads = rev (sort_key bu_id (filter (\<lambda>u. bu_account_id u \<in> set account_ids) (bank_uploads d)));
          (statements, late_at) = fold (read_upload parse fl) uploads ([], []);
          kn = fold (add_statement late_at) statements \<lparr>kn_periods = [], kn_anchors = []\<rparr>;
          snaps = concat (map (\<lambda>s. case sn_account_id s of
                      None \<Rightarrow> []
                    | Some i \<Rightarrow> if i \<in> set account_ids \<and> sn_category s = ''bank_balance''
                                then [(i, \<lparr>an_day = sn_as_of_date s, an_value = sn_value s, an_kind = ''snapshot''\<rparr>)]
                                else [])
                    (snapshots d));
          day_ends = map (\<lambda>((i, day), b). (i, \<lparr>an_day = day, an_value = b, an_kind = ''transaction''\<rparr>)) (bf_day_end fl)
      in fold add_anchor (snaps @ day_ends) kn)"

section \<open>The bridge\<close>

record bridge_account =
  ba_account_id :: int
  ba_opening :: balance
  ba_closing :: balance
  ba_net_flow :: decimal
  ba_gap :: "decimal option"

definition bridge_account_of :: "date \<Rightarrow> date \<Rightarrow> bank_flows \<Rightarrow> known \<Rightarrow> account \<Rightarrow> bridge_account" where
  "bridge_account_of opening_day date_to fl kn a =
     (let ps = lookup_default [] (kn_periods kn) (a_id a);
          ans = lookup_default [] (kn_anchors kn) (a_id a);
          dl = lookup_default [] (bf_daily fl) (a_id a);
          opening = balance_at opening_day ps ans dl;
          closing = balance_at date_to ps ans dl;
          flow = lookup_default 0 (bf_net_flow fl) (a_id a)
      in \<lparr>ba_account_id = a_id a, ba_opening = opening, ba_closing = closing, ba_net_flow = flow,
          ba_gap = (case (bl_amount opening, bl_amount closing) of
              (Some x, Some y) \<Rightarrow> Some (y - x - flow) | _ \<Rightarrow> None)\<rparr>)"

record cash_bridge =
  cb_opening :: decimal
  cb_earned :: decimal
  cb_spent :: decimal
  cb_net_invested :: decimal
  cb_transfers_in :: decimal
  cb_other :: "(string \<times> decimal) list"
  cb_expected_closing :: decimal
  cb_actual_closing :: decimal
  cb_gap :: decimal
  cb_accounts :: "bridge_account list"

definition bridge_lines :: "date_parser \<Rightarrow> db \<Rightarrow> cashflow_summary \<Rightarrow> bridge_account list" where
  "bridge_lines parse d summary =
     (let accs = sort_key a_id (filter (\<lambda>a. a_type a \<in> set BANK_ACCOUNT_TYPES) (accounts d));
          fl = bank_flows_of d (cs_date_from summary) (cs_date_to summary);
          kn = known_of parse d (map a_id accs) fl;
          opening_day = max (cs_date_from summary) 2 - 1
      in map (bridge_account_of opening_day (cs_date_to summary) fl kn)
           (filter (\<lambda>a. \<not> (lookup_default [] (kn_anchors kn) (a_id a) = [] \<and> a_id a \<notin> fst ` set (bf_daily fl))) accs))"

definition cash_bridge :: "date_parser \<Rightarrow> db \<Rightarrow> cashflow_summary \<Rightarrow> cash_bridge" where
  "cash_bridge parse d summary =
     (let extra = bf_extra (bank_flows_of d (cs_date_from summary) (cs_date_to summary));
          lines = bridge_lines parse d summary;
          other = [(''internal'', fn_internal_net (cs_footnotes summary)),
                   (''family'', lookup_default 0 extra ''family''),
                   (''excluded'', lookup_default 0 extra ''excluded''),
                   (''uncategorized'', bs_total (cs_uncategorized summary)),
                   (''non_inr'', lookup_default 0 extra ''non_inr''),
                   (''no_balance'', - dsum ba_net_flow (filter (\<lambda>a. ba_gap a = None) lines))];
          known_lines = filter (\<lambda>a. ba_gap a \<noteq> None) lines;
          opening_total = dsum (\<lambda>a. case bl_amount (ba_opening a) of None \<Rightarrow> 0 | Some x \<Rightarrow> x) known_lines;
          actual = dsum (\<lambda>a. case bl_amount (ba_closing a) of None \<Rightarrow> 0 | Some x \<Rightarrow> x) known_lines;
          expected = opening_total + cs_net_cash_retained summary + dsum snd other
      in \<lparr>cb_opening = opening_total, cb_earned = bs_total (cs_income summary),
          cb_spent = bs_total (cs_expense summary), cb_net_invested = is_net (cs_investment summary),
          cb_transfers_in = bs_total (cs_transfers_in summary), cb_other = other,
          cb_expected_closing = expected, cb_actual_closing = actual, cb_gap = actual - expected,
          cb_accounts = lines\<rparr>)"

end
