(* ===== verification/Bridge_Facts.thy ===== *)
theory Bridge_Facts
  imports Cash_Bridge
begin

text \<open>
  The bridge closes: every dated, not voided bank row of the range is in exactly one term, so the
  total gap is the sum of the gaps of the accounts.
\<close>

section \<open>Dictionaries\<close>

lemma lookup_bump:
  "lookup_default dflt (bump k dflt f al) k' =
     (if k' = k then f (lookup_default dflt al k) else lookup_default dflt al k')"
  by (induction k dflt f al rule: bump.induct) (auto simp: lookup_default_def)

lemma keys_bump: "fst ` set (bump k dflt f al) = insert k (fst ` set al)"
  by (induction k dflt f al rule: bump.induct) auto

lemma lookup_no_key: "k \<notin> fst ` set al \<Longrightarrow> lookup_default dflt al k = dflt"
  by (simp add: lookup_default_def map_of_eq_None_iff[symmetric])

section \<open>The flows of the rows\<close>

definition row_account :: "txn \<Rightarrow> int option" where
  "row_account t = (if t_transaction_date t = None then None else t_account_id t)"

lemma add_row_fields:
  "lookup_default 0 (bf_net_flow (add_row d x y t fl)) acc =
     lookup_default 0 (bf_net_flow fl) acc +
       (if t_account_id t = Some acc \<and> in_range x y t then SIGNED_AMOUNT t else 0)"
  "kind \<noteq> ''report'' \<Longrightarrow> lookup_default 0 (bf_extra (add_row d x y t fl)) kind =
     lookup_default 0 (bf_extra fl) kind +
       (if t_account_id t \<noteq> None \<and> in_range x y t \<and> FLOW_KIND d t = kind then SIGNED_AMOUNT t else 0)"
  "fst ` set (bf_daily (add_row d x y t fl)) =
     (case row_account t of None \<Rightarrow> {} | Some acc \<Rightarrow> {acc}) \<union> fst ` set (bf_daily fl)"
  by (cases "t_account_id t"; cases "t_transaction_date t"; cases "t_balance t";
      auto simp: add_row_def Let_def in_range_def lookup_bump keys_bump row_account_def)+

lemma fold_add_row_net:
  "lookup_default 0 (bf_net_flow (fold (add_row d x y) rows fl)) acc =
     lookup_default 0 (bf_net_flow fl) acc +
       dsum (\<lambda>t. if t_account_id t = Some acc \<and> in_range x y t then SIGNED_AMOUNT t else 0) rows"
  by (induction rows arbitrary: fl) (simp_all add: add_row_fields(1))

lemma fold_add_row_extra:
  "kind \<noteq> ''report'' \<Longrightarrow>
   lookup_default 0 (bf_extra (fold (add_row d x y) rows fl)) kind =
     lookup_default 0 (bf_extra fl) kind +
       dsum (\<lambda>t. if t_account_id t \<noteq> None \<and> in_range x y t \<and> FLOW_KIND d t = kind then SIGNED_AMOUNT t else 0) rows"
  by (induction rows arbitrary: fl) (simp_all add: add_row_fields(2) del: not_None_eq)

lemma fold_add_row_daily:
  "fst ` set (bf_daily (fold (add_row d x y) rows fl)) =
     {acc. \<exists>t\<in>set rows. row_account t = Some acc} \<union> fst ` set (bf_daily fl)"
  by (induction rows arbitrary: fl) (auto simp: add_row_fields(3) split: option.splits)

lemma empty_flows [simp]:
  "lookup_default 0 (bf_net_flow no_flows) acc = 0" "lookup_default 0 (bf_extra no_flows) kind = 0"
  "bf_daily no_flows = []"
  by (simp_all add: no_flows_def lookup_default_def)

lemma bank_row_account: "bank_row d t \<Longrightarrow> \<exists>i. t_account_id t = Some i \<and> row_account t = Some i"
  by (auto simp: bank_row_def in_scope_def linked_to_def row_account_def split: option.splits)

lemma net_flow_of:
  "lookup_default 0 (bf_net_flow (bank_flows_of d x y)) acc =
     dsum (\<lambda>t. if t_account_id t = Some acc \<and> in_range x y t then SIGNED_AMOUNT t else 0)
       (filter (bank_row d) (transactions d))"
  by (simp add: bank_flows_of_def fold_add_row_net)

lemma extra_of:
  assumes "kind \<noteq> ''report''"
  shows "lookup_default 0 (bf_extra (bank_flows_of d x y)) kind =
     dsum (\<lambda>t. if bank_row d t \<and> in_range x y t \<and> FLOW_KIND d t = kind then SIGNED_AMOUNT t else 0) (transactions d)"
proof -
  have "lookup_default 0 (bf_extra (bank_flows_of d x y)) kind =
      dsum (\<lambda>t. if t_account_id t \<noteq> None \<and> in_range x y t \<and> FLOW_KIND d t = kind then SIGNED_AMOUNT t else 0)
        (filter (bank_row d) (transactions d))"
    using assms by (simp add: bank_flows_of_def fold_add_row_extra del: not_None_eq)
  also have "\<dots> = dsum (\<lambda>t. if bank_row d t \<and> in_range x y t \<and> FLOW_KIND d t = kind then SIGNED_AMOUNT t else 0) (transactions d)"
    unfolding dsum_filter by (rule dsum_cong) (auto dest: bank_row_account)
  finally show ?thesis .
qed

lemma daily_keys:
  "fst ` set (bf_daily (bank_flows_of d x y)) =
     {acc. \<exists>t\<in>set (transactions d). bank_row d t \<and> row_account t = Some acc}"
  by (auto simp: bank_flows_of_def fold_add_row_daily)

section \<open>The accounts cover the rows\<close>

lemma bank_row_bank_account:
  assumes "bank_row d t" "t_account_id t = Some i"
  shows "i \<in> a_id ` set (filter (\<lambda>a. a_type a \<in> set BANK_ACCOUNT_TYPES) (accounts d))"
  using assms by (auto simp: bank_row_def in_scope_def linked_to_def list_ex_iff)

lemma accounts_cover:
  assumes "distinct (map a_id accs)"
    and "a_id ` set accs = a_id ` set (filter (\<lambda>a. a_type a \<in> set BANK_ACCOUNT_TYPES) (accounts d))"
  shows "dsum (\<lambda>a. lookup_default 0 (bf_net_flow (bank_flows_of d x y)) (a_id a)) accs =
    dsum (\<lambda>t. if bank_row d t \<and> in_range x y t then SIGNED_AMOUNT t else 0) (transactions d)"
proof -
  let ?rows = "filter (bank_row d) (transactions d)"
  let ?f = "\<lambda>t. if in_range x y t then SIGNED_AMOUNT t else 0"
  have keys: "set (map (\<lambda>t. the (t_account_id t)) ?rows) \<subseteq> set (map a_id accs)"
    using bank_row_account bank_row_bank_account assms(2) by fastforce
  have "dsum (\<lambda>a. lookup_default 0 (bf_net_flow (bank_flows_of d x y)) (a_id a)) accs =
      dsum (\<lambda>k. lookup_default 0 (bf_net_flow (bank_flows_of d x y)) k) (map a_id accs)" by (simp add: dsum_map)
  also have "\<dots> = dsum (\<lambda>k. if True then dsum ?f (filter (\<lambda>t. the (t_account_id t) = k) ?rows) else 0) (map a_id accs)"
  proof (rule dsum_cong)
    fix k assume "k \<in> set (map a_id accs)"
    have "dsum ?f (filter (\<lambda>t. the (t_account_id t) = k) ?rows) =
        dsum (\<lambda>t. if t_account_id t = Some k \<and> in_range x y t then SIGNED_AMOUNT t else 0) ?rows"
      unfolding dsum_filter[of ?f] by (rule dsum_cong) (auto dest: bank_row_account)
    then show "lookup_default 0 (bf_net_flow (bank_flows_of d x y)) k =
        (if True then dsum ?f (filter (\<lambda>t. the (t_account_id t) = k) ?rows) else 0)"
      by (simp add: net_flow_of)
  qed
  also have "\<dots> = dsum ?f ?rows" using dsum_groups[OF assms(1) keys, of "\<lambda>_. True" ?f] by simp
  also have "\<dots> = dsum (\<lambda>t. if bank_row d t \<and> in_range x y t then SIGNED_AMOUNT t else 0) (transactions d)"
    unfolding dsum_filter by (rule dsum_cong) simp
  finally show ?thesis .
qed

section \<open>Every row in one term\<close>

lemma bank_internal_bucket:
  "report_bucket us slug dir = Internal \<longleftrightarrow> (case slug of None \<Rightarrow> False | Some s \<Rightarrow> s \<in> set BANK_INTERNAL_SLUGS)"
proof (cases slug)
  case None
  then show ?thesis by (simp add: report_bucket_def bucket_for_slug_def)
next
  case (Some s)
  have l: "list_all (\<lambda>e. snd e = Internal \<longrightarrow> fst e \<in> set INTERNAL_SLUGS) BUCKET_BY_SLUG"
    and r: "list_all (\<lambda>s. map_of BUCKET_BY_SLUG s = Some Internal \<and> s \<noteq> ''gift'' \<and> s \<noteq> ''unknown'' \<and>
      s \<noteq> [] \<and> s \<noteq> ''credit_card_payment'') BANK_INTERNAL_SLUGS"
    and i: "list_all (\<lambda>s. s = ''credit_card_payment'' \<or> s \<in> set BANK_INTERNAL_SLUGS) INTERNAL_SLUGS" by code_simp+
  show ?thesis
  proof
    assume "report_bucket us slug dir = Internal"
    then have "map_of BUCKET_BY_SLUG s = Some Internal" "s \<noteq> ''credit_card_payment''"
      using Some by (auto simp: report_bucket_def bucket_for_slug_def Let_def split: if_splits option.splits)
    then show "case slug of None \<Rightarrow> False | Some s \<Rightarrow> s \<in> set BANK_INTERNAL_SLUGS"
      using l i Some by (force simp: list_all_iff dest: map_of_SomeD)
  next
    assume "case slug of None \<Rightarrow> False | Some s \<Rightarrow> s \<in> set BANK_INTERNAL_SLUGS"
    then show "report_bucket us slug dir = Internal"
      using r Some by (simp add: report_bucket_def bucket_for_slug_def Let_def list_all_iff)
  qed
qed

lemma family_bucket: "report_bucket us slug dir = Family \<longleftrightarrow> slug = Some ''family''"
proof -
  have l: "list_all (\<lambda>e. snd e = Family \<longrightarrow> fst e = ''family'') BUCKET_BY_SLUG"
    and r: "map_of BUCKET_BY_SLUG ''family'' = Some Family" by code_simp+
  show ?thesis
  proof
    assume "report_bucket us slug dir = Family"
    then obtain s where "slug = Some s" "map_of BUCKET_BY_SLUG s = Some Family"
      by (cases slug) (auto simp: report_bucket_def bucket_for_slug_def Let_def split: if_splits option.splits)
    then show "slug = Some ''family''" using l by (force simp: list_all_iff dest: map_of_SomeD)
  qed (simp add: report_bucket_def bucket_for_slug_def r)
qed

definition bridge_terms :: "db \<Rightarrow> txn \<Rightarrow> bool list" where
  "bridge_terms d t =
     [INR_OR_NULL t \<and> INCLUDED t \<and> summed_bucket (row_bucket (load_user_buckets (categories d)) t),
      INCLUDED t \<and> category_in BANK_INTERNAL_SLUGS t,
      FLOW_KIND d t = ''family'',
      FLOW_KIND d t = ''excluded'',
      INCLUDED t \<and> UNCATEGORIZED d t,
      FLOW_KIND d t = ''non_inr'']"

text \<open>The six terms are mutually exclusive and cover every row that is not voided.\<close>

lemma one_term:
  assumes "categories_ok (categories d)" "NOT_VOIDED t"
  shows "length (filter id (bridge_terms d t)) = 1"
proof -
  define b where "b = row_bucket (load_user_buckets (categories d)) t"
  have unc: "UNCATEGORIZED d t \<longleftrightarrow> b = Uncategorized"
    using uncategorized_agreement[OF assms(1)] by (simp add: b_def row_bucket_def report_bucket_def)
  have int: "category_in BANK_INTERNAL_SLUGS t \<longleftrightarrow> b = Internal"
    by (simp add: b_def row_bucket_def bank_internal_bucket category_in_def)
  have fam: "t_category t = Some ''family'' \<longleftrightarrow> b = Family"
    by (simp add: b_def row_bucket_def family_bucket)
  have kind: "FLOW_KIND d t = (if EXCLUDED t then ''excluded'' else if b = Family then ''family''
      else if b = Internal then ''report'' else if b = Uncategorized then ''report''
      else if NON_INR t then ''non_inr'' else ''report'')"
    by (simp add: FLOW_KIND_def unc int fam)
  have inc: "INCLUDED t \<longleftrightarrow> \<not> EXCLUDED t" using assms(2) by (auto simp: INCLUDED_def EXCLUDED_def)
  have inr: "INR_OR_NULL t \<longleftrightarrow> \<not> NON_INR t" by (auto simp: INR_OR_NULL_def NON_INR_def)
  show ?thesis
    unfolding bridge_terms_def b_def[symmetric] kind unc int inc inr
    by (cases b; cases "EXCLUDED t"; cases "NON_INR t") (simp_all add: summed_bucket_def)
qed

lemma six_terms:
  assumes "length (filter id [a, b, c, e, f, g]) = 1"
  shows "(if a then v else 0) + (if b then v else 0) + (if c then v else 0) + (if e then v else 0) +
    (if f then v else 0) + (if g then v else (0::decimal)) = v"
  using assms by (cases a; cases b; cases c; cases e; cases f; cases g) simp_all

abbreviation bank_in_range :: "db \<Rightarrow> date \<Rightarrow> date \<Rightarrow> txn \<Rightarrow> bool" where
  "bank_in_range d x y t \<equiv> bank_row d t \<and> in_range x y t"

lemma in_range_dated: "in_range x y t \<Longrightarrow> t_transaction_date t \<noteq> None"
  by (auto simp: in_range_def split: option.splits)

lemma bank_in_range_iff:
  "bank_in_range d x y t \<longleftrightarrow> in_scope Bank d t \<and> NOT_VOIDED t \<and> in_range x y t"
  using in_range_dated by (auto simp: bank_row_def)

lemma included_not_voided: "INCLUDED t \<Longrightarrow> NOT_VOIDED t"
  by (simp add: INCLUDED_def)

lemma terms_as_rows:
  fixes d x y
  defines "S \<equiv> cashflow_summary d x y"
    and "rows \<equiv> \<lambda>P. dsum (\<lambda>t. if bank_in_range d x y t \<and> P t then SIGNED_AMOUNT t else 0) (transactions d)"
  shows "cs_net_cash_retained S = rows (\<lambda>t. INR_OR_NULL t \<and> INCLUDED t \<and>
      summed_bucket (row_bucket (load_user_buckets (categories d)) t))"
    and "fn_internal_net (cs_footnotes S) = rows (\<lambda>t. INCLUDED t \<and> category_in BANK_INTERNAL_SLUGS t)"
    and "bs_total (cs_uncategorized S) = rows (\<lambda>t. INCLUDED t \<and> UNCATEGORIZED d t)"
proof -
  show "cs_net_cash_retained S = rows (\<lambda>t. INR_OR_NULL t \<and> INCLUDED t \<and>
      summed_bucket (row_bucket (load_user_buckets (categories d)) t))"
    unfolding S_def rows_def net_cash_rows dsum_filter bank_in_range_iff
    by (rule dsum_cong) (auto dest: included_not_voided)
  have "cs_footnotes S = footnotes_of d (filter (in_range x y) (transactions d))"
    by (simp add: S_def cashflow_summary_def Let_def)
  then have "fn_internal_net (cs_footnotes S) = SIGNED_FLOW (filter (\<lambda>t. in_scope Bank d t \<and> INCLUDED t \<and>
      category_in BANK_INTERNAL_SLUGS t) (filter (in_range x y) (transactions d)))"
    by (simp add: footnotes_of_def Let_def)
  then show "fn_internal_net (cs_footnotes S) = rows (\<lambda>t. INCLUDED t \<and> category_in BANK_INTERNAL_SLUGS t)"
    unfolding rows_def SIGNED_FLOW_filter dsum_filter bank_in_range_iff
    by (elim ssubst) (rule dsum_cong, auto dest: included_not_voided)
  have "cs_uncategorized S = uncategorized (load_user_buckets (categories d)) d (filter (in_range x y) (transactions d))"
    by (simp add: S_def cashflow_summary_def Let_def)
  then show "bs_total (cs_uncategorized S) = rows (\<lambda>t. INCLUDED t \<and> UNCATEGORIZED d t)"
    unfolding rows_def bank_in_range_iff
    by (simp only: uncategorized_total SIGNED_FLOW_filter dsum_filter)
       (rule dsum_cong, auto dest: included_not_voided)
qed

lemma rows_in_terms:
  assumes "categories_ok (categories d)"
  shows "dsum (\<lambda>t. if bank_in_range d x y t then SIGNED_AMOUNT t else 0) (transactions d) =
    cs_net_cash_retained (cashflow_summary d x y) + fn_internal_net (cs_footnotes (cashflow_summary d x y)) +
    lookup_default 0 (bf_extra (bank_flows_of d x y)) ''family'' +
    lookup_default 0 (bf_extra (bank_flows_of d x y)) ''excluded'' +
    bs_total (cs_uncategorized (cashflow_summary d x y)) +
    lookup_default 0 (bf_extra (bank_flows_of d x y)) ''non_inr''"
  unfolding terms_as_rows
  unfolding extra_of[of "''family''", simplified] extra_of[of "''excluded''", simplified]
    extra_of[of "''non_inr''", simplified] dsum_add[symmetric]
proof (rule dsum_cong)
  fix t
  show "(if bank_in_range d x y t then SIGNED_AMOUNT t else 0) =
    (if bank_in_range d x y t \<and> INR_OR_NULL t \<and> INCLUDED t \<and>
        summed_bucket (row_bucket (load_user_buckets (categories d)) t) then SIGNED_AMOUNT t else 0) +
    (if bank_in_range d x y t \<and> INCLUDED t \<and> category_in BANK_INTERNAL_SLUGS t then SIGNED_AMOUNT t else 0) +
    (if bank_row d t \<and> in_range x y t \<and> FLOW_KIND d t = ''family'' then SIGNED_AMOUNT t else 0) +
    (if bank_row d t \<and> in_range x y t \<and> FLOW_KIND d t = ''excluded'' then SIGNED_AMOUNT t else 0) +
    (if bank_in_range d x y t \<and> INCLUDED t \<and> UNCATEGORIZED d t then SIGNED_AMOUNT t else 0) +
    (if bank_row d t \<and> in_range x y t \<and> FLOW_KIND d t = ''non_inr'' then SIGNED_AMOUNT t else 0)"
  proof (cases "bank_in_range d x y t")
    case True
    then have "NOT_VOIDED t" by (simp add: bank_row_def)
    from six_terms[OF one_term[OF assms this, unfolded bridge_terms_def], of "SIGNED_AMOUNT t"] True
    show ?thesis by simp
  next
    case False
    then show ?thesis by (simp only: simp_thms if_False add_0_left conj_assoc[symmetric])
  qed
qed

section \<open>The gap\<close>

lemma bridge_accounts_flow:
  assumes "distinct (map a_id (accounts d))"
  shows "dsum ba_net_flow (bridge_lines parse d (cashflow_summary d x y)) =
    dsum (\<lambda>t. if bank_in_range d x y t then SIGNED_AMOUNT t else 0) (transactions d)"
proof -
  let ?accs = "sort_key a_id (filter (\<lambda>a. a_type a \<in> set BANK_ACCOUNT_TYPES) (accounts d))"
  let ?fl = "bank_flows_of d x y"
  let ?flow = "\<lambda>a. lookup_default 0 (bf_net_flow ?fl) (a_id a)"
  have S: "cs_date_from (cashflow_summary d x y) = x" "cs_date_to (cashflow_summary d x y) = y"
    by (simp_all add: cashflow_summary_def Let_def)
  obtain P kn where lines: "bridge_lines parse d (cashflow_summary d x y) =
      map (bridge_account_of (max x 2 - 1) y ?fl kn) (filter P ?accs)"
    and P: "\<And>a. P a \<longleftrightarrow> \<not> (lookup_default [] (kn_anchors kn) (a_id a) = [] \<and> a_id a \<notin> fst ` set (bf_daily ?fl))"
    by (simp add: bridge_lines_def S Let_def)
  have ids: "distinct (map a_id ?accs)" using assms by (auto simp: distinct_map intro: inj_on_subset)
  have zero: "?flow a = 0" if "\<not> P a" for a
  proof -
    have none: "\<not> (\<exists>t\<in>set (transactions d). bank_row d t \<and> row_account t = Some (a_id a))"
      using that P by (simp add: daily_keys)
    have "?flow a = dsum (\<lambda>t. 0) (filter (bank_row d) (transactions d))"
      unfolding net_flow_of
      by (rule dsum_cong) (use none bank_row_account in fastforce)
    then show ?thesis by (simp add: dsum_def)
  qed
  have "dsum ba_net_flow (bridge_lines parse d (cashflow_summary d x y)) = dsum ?flow (filter P ?accs)"
    unfolding lines dsum_map by (rule dsum_cong) (simp add: bridge_account_of_def Let_def)
  also have "\<dots> = dsum ?flow ?accs"
    unfolding dsum_filter by (rule dsum_cong) (use zero in auto)
  also have "\<dots> = dsum (\<lambda>t. if bank_in_range d x y t then SIGNED_AMOUNT t else 0) (transactions d)"
    by (rule accounts_cover[OF ids]) simp
  finally show ?thesis .
qed

definition gap_of :: "bridge_account \<Rightarrow> decimal" where
  "gap_of a = (case ba_gap a of None \<Rightarrow> 0 | Some g \<Rightarrow> g)"

definition amount_or_0 :: "balance \<Rightarrow> decimal" where
  "amount_or_0 b = (case bl_amount b of None \<Rightarrow> 0 | Some v \<Rightarrow> v)"

lemma bridge_line_gap:
  assumes "a \<in> set (bridge_lines parse d S)" "ba_gap a \<noteq> None"
  shows "amount_or_0 (ba_closing a) - amount_or_0 (ba_opening a) = gap_of a + ba_net_flow a"
  using assms
  by (auto simp: bridge_lines_def bridge_account_of_def Let_def gap_of_def amount_or_0_def split: option.splits)

lemma bridge_gap:
  assumes "distinct (map a_id (accounts d))" "categories_ok (categories d)"
  shows "cb_gap (cash_bridge parse d (cashflow_summary d x y)) =
    dsum gap_of (cb_accounts (cash_bridge parse d (cashflow_summary d x y)))"
proof -
  let ?S = "cashflow_summary d x y"
  let ?L = "bridge_lines parse d ?S"
  let ?K = "filter (\<lambda>a. ba_gap a \<noteq> None) ?L"
  let ?U = "filter (\<lambda>a. ba_gap a = None) ?L"
  let ?extra = "lookup_default 0 (bf_extra (bank_flows_of d x y))"
  have S: "cs_date_from ?S = x" "cs_date_to ?S = y"
    by (simp_all add: cashflow_summary_def Let_def)
  have gap: "cb_gap (cash_bridge parse d ?S) =
      dsum (\<lambda>a. amount_or_0 (ba_closing a)) ?K - (dsum (\<lambda>a. amount_or_0 (ba_opening a)) ?K +
        cs_net_cash_retained ?S + (fn_internal_net (cs_footnotes ?S) + ?extra ''family'' + ?extra ''excluded'' +
        bs_total (cs_uncategorized ?S) + ?extra ''non_inr'' - dsum ba_net_flow ?U))"
    by (simp add: cash_bridge_def Let_def S amount_or_0_def)
  have "dsum (\<lambda>a. amount_or_0 (ba_closing a)) ?K =
      dsum (\<lambda>a. amount_or_0 (ba_opening a)) ?K + dsum gap_of ?K + dsum ba_net_flow ?K"
    unfolding dsum_add[symmetric] by (rule dsum_cong) (use bridge_line_gap in force)
  moreover have "dsum ba_net_flow ?L = dsum ba_net_flow ?K + dsum ba_net_flow ?U"
    using dsum_split[of ba_net_flow ?L "\<lambda>a. ba_gap a \<noteq> None"] by simp
  moreover have "dsum gap_of ?L = dsum gap_of ?K"
    unfolding dsum_filter by (rule dsum_cong) (simp add: gap_of_def)
  moreover have "cb_accounts (cash_bridge parse d ?S) = ?L" by (simp add: cash_bridge_def Let_def)
  ultimately show ?thesis
    using gap bridge_accounts_flow[OF assms(1), of parse x y] rows_in_terms[OF assms(2), of x y] by simp
qed

section \<open>Properties\<close>

text \<open>The bridge explains every row once: each bank transaction that is not voided falls under exactly
  one of the six terms of the bridge (summed in the report, internal, family, excluded, uncategorized,
  foreign currency).\<close>

theorem bridge_terms_exactly_one:
  assumes "categories_ok (categories d)" "NOT_VOIDED t"
  shows "length (filter id (bridge_terms d t)) = 1"
  by (rule one_term[OF assms])

theorem bridge_terms_exactly_one_witness: "length (filter id (bridge_terms empty_db blank_txn)) = 1"
  by (rule bridge_terms_exactly_one) (simp_all add: categories_ok_def empty_db_def NOT_VOIDED_def blank_txn_def)

text \<open>C1. The cash bridge closes: opening balances plus the net cash of the report plus the named other
  movements lead to the closing balances up to a gap that is the sum of the gaps of the single accounts,
  so the bridge itself loses and invents nothing, whatever rows, statements and snapshots the database
  holds.\<close>

theorem cash_bridge_closes:
  assumes "distinct (map a_id (accounts d))" "categories_ok (categories d)"
  shows "cb_gap (cash_bridge parse d (cashflow_summary d x y)) =
    dsum gap_of (cb_accounts (cash_bridge parse d (cashflow_summary d x y)))"
  by (rule bridge_gap[OF assms])

theorem cash_bridge_closes_witness:
  "cb_gap (cash_bridge (\<lambda>_. None) (empty_db\<lparr>accounts := [blank_account]\<rparr>) (cashflow_summary (empty_db\<lparr>accounts := [blank_account]\<rparr>) 1 30)) =
    dsum gap_of (cb_accounts (cash_bridge (\<lambda>_. None) (empty_db\<lparr>accounts := [blank_account]\<rparr>) (cashflow_summary (empty_db\<lparr>accounts := [blank_account]\<rparr>) 1 30)))"
  by (rule cash_bridge_closes) (simp_all add: categories_ok_def empty_db_def)

end
