(* ===== verification/Outbox.thy ===== *)
theory Outbox
  imports Category_Followups Transitions
begin

text \<open>
  The durable Telegram outbox of \<^verbatim>\<open>services/assistant/delivery.py\<close>: a worker claims a row by
  compare-and-swap, sends, and records the result under its token; a lease that runs out gives the
  row to the next worker. The random tokens are arguments, and so is the clock. The text, the parse
  mode and the buttons of a message, which no operation reads, are left out.
\<close>

section \<open>Operations\<close>

definition DELIVERY_LEASE :: int where
  "DELIVERY_LEASE = minutes 2"

definition MAX_DELIVERY_ATTEMPTS :: nat where
  "MAX_DELIVERY_ATTEMPTS = 5"

definition get_delivery :: "int \<Rightarrow> db \<Rightarrow> delivery option" where
  "get_delivery i d = find (\<lambda>r. od_id r = i) (deliveries d)"

definition given_and_different :: "'a option \<Rightarrow> 'a option \<Rightarrow> bool" where
  "given_and_different given actual \<longleftrightarrow> given \<noteq> None \<and> actual \<noteq> given"

definition validate_delivery_proof ::
    "int \<Rightarrow> int option \<Rightarrow> int option \<Rightarrow> int option \<Rightarrow> int option \<Rightarrow> db \<Rightarrow> bool" where
  "validate_delivery_proof i recipient_chat_id transaction_id interaction_id decision_id d =
     (case get_delivery i d of
        None \<Rightarrow> False
      | Some r \<Rightarrow>
          if given_and_different recipient_chat_id (Some (od_recipient_chat_id r)) then False
          else if given_and_different transaction_id (od_transaction_id r) then False
          else if given_and_different interaction_id (od_interaction_id r) then False
          else if given_and_different decision_id (od_category_review_decision_id r) then False
          else od_status r \<in> {''pending'', ''delivering'', ''delivery_unknown'', ''abandoned'', ''delivered''})"

text \<open>\<open>None\<close> is the \<open>ValueError\<close>: a message has exactly one owner.\<close>

definition make_delivery ::
    "int \<Rightarrow> int \<Rightarrow> int \<Rightarrow> int option \<Rightarrow> int option \<Rightarrow> int option \<Rightarrow> delivery option" where
  "make_delivery i recipient_chat_id ordinal interaction_id decision_id transaction_id =
     (if (interaction_id = None) = (decision_id = None) then None
      else Some \<lparr>od_id = i, od_interaction_id = interaction_id,
                 od_category_review_decision_id = decision_id, od_ordinal = ordinal,
                 od_recipient_chat_id = recipient_chat_id, od_transaction_id = transaction_id,
                 od_status = ''pending'', od_delivery_attempts = 0, od_worker_token = None,
                 od_delivery_lease_until = None, od_last_attempt_at = None, od_delivered_at = None\<rparr>)"

definition lease_over :: "datetime \<Rightarrow> delivery \<Rightarrow> bool" where
  "lease_over now r \<longleftrightarrow>
     (case od_delivery_lease_until r of None \<Rightarrow> True | Some until \<Rightarrow> until < now)"

definition claimable :: "datetime \<Rightarrow> int \<Rightarrow> delivery \<Rightarrow> bool" where
  "claimable now i r \<longleftrightarrow>
     od_id r = i \<and> od_delivery_attempts r < MAX_DELIVERY_ATTEMPTS \<and>
     (od_status r = ''pending'' \<or>
      od_status r \<in> {''delivery_unknown'', ''delivering''} \<and> lease_over now r)"

definition take_claim :: "string \<Rightarrow> datetime \<Rightarrow> delivery \<Rightarrow> delivery" where
  "take_claim token now r =
     r\<lparr>od_status := ''delivering'', od_worker_token := Some token,
       od_delivery_lease_until := Some (now + DELIVERY_LEASE),
       od_delivery_attempts := Suc (od_delivery_attempts r), od_last_attempt_at := Some now\<rparr>"

text \<open>\<open>UPDATE ... WHERE\<close>: the row count and the new table.\<close>

definition update_deliveries :: "(delivery \<Rightarrow> bool) \<Rightarrow> (delivery \<Rightarrow> delivery) \<Rightarrow> db \<Rightarrow> nat \<times> db" where
  "update_deliveries P f d =
     (length (filter P (deliveries d)), d\<lparr>deliveries := update_where P f (deliveries d)\<rparr>)"

definition claim_delivery :: "string \<Rightarrow> datetime \<Rightarrow> int \<Rightarrow> db \<Rightarrow> delivery option \<times> db" where
  "claim_delivery token now i d =
     (let (n, d') = update_deliveries (claimable now i) (take_claim token now) d
      in if n \<noteq> 1 then (None, d') else (get_delivery i d', d'))"

definition held_by :: "string \<Rightarrow> int \<Rightarrow> delivery \<Rightarrow> bool" where
  "held_by token i r \<longleftrightarrow>
     od_id r = i \<and> od_status r = ''delivering'' \<and> od_worker_token r = Some token"

definition set_delivered :: "datetime \<Rightarrow> delivery \<Rightarrow> delivery" where
  "set_delivered now r =
     r\<lparr>od_status := ''delivered'', od_worker_token := None, od_delivery_lease_until := None,
       od_delivered_at := Some now\<rparr>"

definition set_unknown :: "delivery \<Rightarrow> delivery" where
  "set_unknown r =
     r\<lparr>od_status := ''delivery_unknown'', od_worker_token := None, od_delivery_lease_until := None\<rparr>"

definition mark_delivery_delivered :: "datetime \<Rightarrow> int \<Rightarrow> string \<Rightarrow> db \<Rightarrow> bool \<times> db" where
  "mark_delivery_delivered now i token d =
     (let (n, d') = update_deliveries (held_by token i) (set_delivered now) d in (n = 1, d'))"

definition mark_delivery_unknown :: "int \<Rightarrow> string \<Rightarrow> db \<Rightarrow> bool \<times> db" where
  "mark_delivery_unknown i token d =
     (let (n, d') = update_deliveries (held_by token i) set_unknown d in (n = 1, d'))"

definition settle_delivery_from_callback :: "env \<Rightarrow> int \<Rightarrow> db \<Rightarrow> bool \<times> db" where
  "settle_delivery_from_callback e i d =
     (let d' = snd (update_deliveries
                (\<lambda>r. od_id r = i \<and>
                     od_status r \<in> {''pending'', ''delivering'', ''delivery_unknown'', ''abandoned''})
                (set_delivered (e_now e)) d)
      in case get_delivery i d' of
           None \<Rightarrow> (False, d')
         | Some r \<Rightarrow>
             if od_status r = ''delivered''
             then (True, case od_interaction_id r of
                           None \<Rightarrow> d' | Some a \<Rightarrow> refresh_interaction_delivery_status e a d')
             else (False, d'))"

definition exhausted :: "delivery \<Rightarrow> bool" where
  "exhausted r \<longleftrightarrow>
     od_status r \<in> {''pending'', ''delivery_unknown''} \<and> MAX_DELIVERY_ATTEMPTS \<le> od_delivery_attempts r"

definition abandon_exhausted :: "datetime \<Rightarrow> db \<Rightarrow> nat \<times> db" where
  "abandon_exhausted now d =
     (let owners = concat (map (\<lambda>r. case od_interaction_id r of None \<Rightarrow> [] | Some a \<Rightarrow> [a])
                      (filter exhausted (deliveries d)));
          (n, d') = update_deliveries exhausted (\<lambda>r. r\<lparr>od_status := ''abandoned''\<rparr>) d
      in (n, d'\<lparr>interactions := update_where
                  (\<lambda>a. ai_id a \<in> set owners \<and> ai_status a \<in> {''ready_to_send'', ''delivery_partial''})
                  (\<lambda>a. a\<lparr>ai_status := ''delivery_failed'', ai_completed_at := Some now\<rparr>)
                  (interactions d')\<rparr>))"

definition recover_assistant_work :: "datetime \<Rightarrow> db \<Rightarrow> db" where
  "recover_assistant_work now d =
     (let before = (\<lambda>lease. case lease of None \<Rightarrow> False | Some until \<Rightarrow> until < now);
          d1 = d\<lparr>interactions := update_where
                  (\<lambda>a. ai_status a = ''processing'' \<and> before (ai_processing_lease_until a))
                  (\<lambda>a. a\<lparr>ai_status := ''claimed'', ai_worker_token := None, ai_processing_lease_until := None\<rparr>)
                  (interactions d)\<rparr>;
          d2 = snd (update_deliveries
                 (\<lambda>r. od_status r = ''delivering'' \<and> before (od_delivery_lease_until r)) set_unknown d1)
      in snd (abandon_exhausted now d2))"

definition cancel_for_authorization_change :: "int \<Rightarrow> db \<Rightarrow> nat \<times> db" where
  "cancel_for_authorization_change interaction_id d =
     update_deliveries (\<lambda>r. od_interaction_id r = Some interaction_id \<and> undelivered r) cancel_delivery d"

section \<open>The machine\<close>

text \<open>Every operation that writes the outbox, at any time and in any order.\<close>

inductive outbox_step :: "db \<Rightarrow> db \<Rightarrow> bool" where
  enqueue: "i \<notin> od_id ` set (deliveries d) \<Longrightarrow>
    make_delivery i chat ordinal ia decision t = Some r \<Longrightarrow>
    outbox_step d (d\<lparr>deliveries := deliveries d @ [r]\<rparr>)"
| claim: "outbox_step d (snd (claim_delivery token now i d))"
| delivered: "outbox_step d (snd (mark_delivery_delivered now i token d))"
| unknown: "outbox_step d (snd (mark_delivery_unknown i token d))"
| callback: "outbox_step d (snd (settle_delivery_from_callback e i d))"
| recover: "outbox_step d (recover_assistant_work now d)"
| abandon: "outbox_step d (snd (abandon_exhausted now d))"
| cancel: "outbox_step d (snd (cancel_for_authorization_change a d))"
| supersede: "outbox_step d (supersede_active_decisions e tid preserve d)"
| refresh: "outbox_step d (refresh_interaction_delivery_status e a d)"

definition delivery_ok :: "delivery \<Rightarrow> bool" where
  "delivery_ok r \<longleftrightarrow>
     od_status r \<in> {''pending'', ''delivering'', ''delivery_unknown'', ''delivered'', ''abandoned'', ''cancelled''} \<and>
     (od_status r = ''delivering'') = (od_worker_token r \<noteq> None) \<and>
     (od_status r = ''delivering'') = (od_delivery_lease_until r \<noteq> None) \<and>
     (od_status r = ''delivered'') = (od_delivered_at r \<noteq> None) \<and>
     od_delivery_attempts r \<le> MAX_DELIVERY_ATTEMPTS \<and>
     (od_interaction_id r = None) \<noteq> (od_category_review_decision_id r = None)"

definition outbox_ok :: "db \<Rightarrow> bool" where
  "outbox_ok d \<longleftrightarrow> distinct (map od_id (deliveries d)) \<and> list_all delivery_ok (deliveries d)"

text \<open>What no step undoes: the owner of a row, its attempts, and a final state.\<close>

definition final :: "delivery \<Rightarrow> bool" where
  "final r \<longleftrightarrow> od_status r \<in> {''delivered'', ''cancelled''}"

definition row_progress :: "delivery \<Rightarrow> delivery \<Rightarrow> bool" where
  "row_progress r r' \<longleftrightarrow>
     od_id r' = od_id r \<and> od_interaction_id r' = od_interaction_id r \<and>
     od_category_review_decision_id r' = od_category_review_decision_id r \<and>
     od_transaction_id r' = od_transaction_id r \<and> od_recipient_chat_id r' = od_recipient_chat_id r \<and>
     od_delivery_attempts r \<le> od_delivery_attempts r' \<and>
     (final r \<longrightarrow> r' = r)"

definition progress :: "db \<Rightarrow> db \<Rightarrow> bool" where
  "progress d d' \<longleftrightarrow> (\<exists>rows new. deliveries d' = rows @ new \<and> list_all2 row_progress (deliveries d) rows)"

end
