(* ===== verification/Outbox_Facts.thy ===== *)
theory Outbox_Facts
  imports Outbox
begin

text \<open>
  The outbox machine: every step keeps the table well formed and makes progress on every row, so
  whole runs do; claims exclude each other while a lease lives, and a stale worker has no effect.
\<close>

section \<open>One row at a time\<close>

lemma row_progress_refl [simp, intro]: "row_progress r r"
  by (simp add: row_progress_def)

lemma row_progress_trans: "row_progress a b \<Longrightarrow> row_progress b c \<Longrightarrow> row_progress a c"
  unfolding row_progress_def by (cases "final a") auto

definition safe_row :: "delivery \<Rightarrow> delivery \<Rightarrow> bool" where
  "safe_row r r' \<longleftrightarrow> (delivery_ok r \<longrightarrow> delivery_ok r' \<and> row_progress r r')"

lemma safe_row_refl [simp, intro]: "safe_row r r"
  by (simp add: safe_row_def)

lemma safe_row_trans: "safe_row a b \<Longrightarrow> safe_row b c \<Longrightarrow> safe_row a c"
  unfolding safe_row_def using row_progress_trans by blast

abbreviation safe_rows :: "delivery list \<Rightarrow> delivery list \<Rightarrow> bool" where
  "safe_rows \<equiv> list_all2 safe_row"

lemma safe_rows_trans: "safe_rows a b \<Longrightarrow> safe_rows b c \<Longrightarrow> safe_rows a c"
  by (rule list_all2_trans[of safe_row safe_row safe_row]) (auto intro: safe_row_trans)

lemma safe_rows_refl [simp, intro]: "safe_rows rows rows"
  by (rule list_all2_refl) simp

lemma safe_rows_update: "(\<And>r. P r \<Longrightarrow> safe_row r (f r)) \<Longrightarrow> safe_rows rows (update_where P f rows)"
  by (induction rows) auto

lemma deliveries_update [simp]:
  "deliveries (snd (update_deliveries P f d)) = update_where P f (deliveries d)"
  "fst (update_deliveries P f d) = length (filter P (deliveries d))"
  by (simp_all add: update_deliveries_def)

lemma not_final:
  "od_status r = ''pending'' \<Longrightarrow> \<not> final r" "od_status r = ''delivering'' \<Longrightarrow> \<not> final r"
  "od_status r = ''delivery_unknown'' \<Longrightarrow> \<not> final r" "od_status r = ''abandoned'' \<Longrightarrow> \<not> final r"
  by (simp_all add: final_def)

lemma safe_rowI:
  assumes "\<not> final r" "delivery_ok r \<Longrightarrow> delivery_ok r'"
    and "od_id r' = od_id r" "od_interaction_id r' = od_interaction_id r"
    and "od_category_review_decision_id r' = od_category_review_decision_id r"
    and "od_transaction_id r' = od_transaction_id r" "od_recipient_chat_id r' = od_recipient_chat_id r"
    and "od_delivery_attempts r \<le> od_delivery_attempts r'"
  shows "safe_row r r'"
  using assms by (simp add: safe_row_def row_progress_def)

lemma safe_claim: "claimable now i r \<Longrightarrow> safe_row r (take_claim token now r)"
proof (rule safe_rowI)
  assume c: "claimable now i r"
  then show nf: "\<not> final r" using not_final by (auto simp: claimable_def)
  show "delivery_ok (take_claim token now r)" if ok: "delivery_ok r"
  proof -
    have "od_status r \<noteq> ''delivered''" using nf by (simp add: final_def)
    then have "od_delivered_at r = None" using ok by (simp add: delivery_ok_def)
    moreover have "Suc (od_delivery_attempts r) \<le> MAX_DELIVERY_ATTEMPTS" using c by (simp add: claimable_def)
    moreover have "(od_interaction_id r = None) \<noteq> (od_category_review_decision_id r = None)"
      using ok by (simp add: delivery_ok_def)
    ultimately show ?thesis by (simp add: delivery_ok_def take_claim_def)
  qed
qed (simp_all add: take_claim_def)

lemma safe_delivered:
  "od_status r \<in> {''pending'', ''delivering'', ''delivery_unknown'', ''abandoned''} \<Longrightarrow> safe_row r (set_delivered now r)"
proof (rule safe_rowI)
  show "od_status r \<in> {''pending'', ''delivering'', ''delivery_unknown'', ''abandoned''} \<Longrightarrow> \<not> final r"
    using not_final by blast
qed (simp_all add: set_delivered_def delivery_ok_def)

lemma safe_unknown: "od_status r = ''delivering'' \<Longrightarrow> safe_row r (set_unknown r)"
  by (rule safe_rowI) (simp_all add: not_final set_unknown_def delivery_ok_def)

lemma undelivered_not_final: "undelivered r \<Longrightarrow> \<not> final r \<and> od_status r \<noteq> ''delivered''"
  by (auto simp: undelivered_def final_def)

lemma safe_cancel: "undelivered r \<Longrightarrow> safe_row r (cancel_delivery r)"
  by (rule safe_rowI)
     (simp_all add: undelivered_not_final cancel_delivery_def delivery_ok_def)

lemma exhausted_waiting: "exhausted r \<Longrightarrow> \<not> final r \<and> od_status r \<noteq> ''delivering'' \<and> od_status r \<noteq> ''delivered''"
  by (auto simp: exhausted_def final_def)

lemma safe_abandon: "exhausted r \<Longrightarrow> safe_row r (r\<lparr>od_status := ''abandoned''\<rparr>)"
  by (rule safe_rowI) (simp_all add: exhausted_waiting delivery_ok_def)

section \<open>One step\<close>

lemma deliveries_abandon:
  "deliveries (snd (abandon_exhausted now d)) =
     update_where exhausted (\<lambda>r. r\<lparr>od_status := ''abandoned''\<rparr>) (deliveries d)"
  by (simp add: abandon_exhausted_def update_deliveries_def Let_def)

lemma deliveries_claim:
  "deliveries (snd (claim_delivery token now i d)) =
     update_where (claimable now i) (take_claim token now) (deliveries d)"
  by (simp add: claim_delivery_def update_deliveries_def)

lemma deliveries_marked:
  "deliveries (snd (mark_delivery_delivered now i token d)) =
     update_where (held_by token i) (set_delivered now) (deliveries d)"
  "deliveries (snd (mark_delivery_unknown i token d)) = update_where (held_by token i) set_unknown (deliveries d)"
  by (simp_all add: mark_delivery_delivered_def mark_delivery_unknown_def update_deliveries_def)

lemma deliveries_callback:
  "deliveries (snd (settle_delivery_from_callback e i d)) =
     update_where (\<lambda>r. od_id r = i \<and> od_status r \<in> {''pending'', ''delivering'', ''delivery_unknown'', ''abandoned''})
       (set_delivered (e_now e)) (deliveries d)"
  by (simp add: settle_delivery_from_callback_def Let_def split: option.split)

lemma make_delivery_ok: "make_delivery i chat ordinal ia decision t = Some r \<Longrightarrow> delivery_ok r \<and> od_id r = i"
  by (auto simp: make_delivery_def delivery_ok_def MAX_DELIVERY_ATTEMPTS_def split: if_splits)

lemma step_rows:
  assumes "outbox_step d d'"
  obtains "safe_rows (deliveries d) (deliveries d')"
  | r where "deliveries d' = deliveries d @ [r]" "delivery_ok r" "od_id r \<notin> od_id ` set (deliveries d)"
  using assms
proof cases
  case (enqueue i chat ordinal ia decision t r)
  then show ?thesis using make_delivery_ok[OF enqueue(3)] that(2)[of r] by simp
next
  case (recover now)
  define before where "before = (\<lambda>lease. case lease of None \<Rightarrow> False | Some until \<Rightarrow> until < now)"
  let ?expired = "\<lambda>r. od_status r = ''delivering'' \<and> before (od_delivery_lease_until r)"
  let ?rows = "update_where ?expired set_unknown (deliveries d)"
  have rows: "deliveries d' = update_where exhausted (\<lambda>r. r\<lparr>od_status := ''abandoned''\<rparr>) ?rows"
    by (simp add: recover recover_assistant_work_def Let_def deliveries_abandon before_def)
  have "safe_rows ?rows (deliveries d')"
    unfolding rows by (rule safe_rows_update) (rule safe_abandon)
  moreover have "safe_rows (deliveries d) ?rows"
    by (rule safe_rows_update) (simp add: safe_unknown)
  ultimately show ?thesis using safe_rows_trans by (intro that(1))
next
  case (cancel a)
  then show ?thesis
    by (intro that(1)) (simp add: cancel_for_authorization_change_def, rule safe_rows_update, simp add: safe_cancel)
next
  case (supersede e tid preserve)
  then show ?thesis
    by (intro that(1)) (simp add: supersede_deliveries Let_def, rule safe_rows_update, simp add: safe_cancel)
next
  case (claim token now i)
  then show ?thesis by (intro that(1)) (simp add: deliveries_claim safe_rows_update safe_claim)
next
  case (delivered now i token)
  then show ?thesis
    by (intro that(1)) (simp add: deliveries_marked, rule safe_rows_update, simp add: safe_delivered held_by_def)
next
  case (unknown i token)
  then show ?thesis
    by (intro that(1)) (simp add: deliveries_marked, rule safe_rows_update, simp add: safe_unknown held_by_def)
next
  case (callback e i)
  then show ?thesis
    by (intro that(1)) (simp only: deliveries_callback, rule safe_rows_update, rule safe_delivered, simp)
next
  case (abandon now)
  then show ?thesis by (intro that(1)) (simp add: deliveries_abandon safe_rows_update safe_abandon)
next
  case (refresh e a)
  then show ?thesis by (intro that(1)) simp
qed

lemma safe_rows_ids: "safe_rows rows rows' \<Longrightarrow> list_all delivery_ok rows \<Longrightarrow> map od_id rows' = map od_id rows"
  by (induction rows rows' rule: list_all2_induct) (auto simp: safe_row_def row_progress_def)

lemma safe_rows_ok: "safe_rows rows rows' \<Longrightarrow> list_all delivery_ok rows \<Longrightarrow> list_all delivery_ok rows'"
  by (induction rows rows' rule: list_all2_induct) (auto simp: safe_row_def)

lemma safe_rows_progress:
  "safe_rows rows rows' \<Longrightarrow> list_all delivery_ok rows \<Longrightarrow> list_all2 row_progress rows rows'"
  by (induction rows rows' rule: list_all2_induct) (auto simp: safe_row_def)

lemma outbox_step_ok:
  assumes "outbox_step d d'" "outbox_ok d"
  shows "outbox_ok d'"
  using assms(1)
proof (cases rule: step_rows)
  case 1
  then show ?thesis
    using assms(2) safe_rows_ids[OF 1] safe_rows_ok[OF 1] by (simp add: outbox_ok_def)
next
  case (2 r)
  then show ?thesis using assms(2) by (simp add: outbox_ok_def)
qed

lemma progress_refl: "progress d d"
  unfolding progress_def by (intro exI[of _ "deliveries d"] exI[of _ "[]"]) (simp add: list_all2_refl)

lemma progress_trans:
  assumes "progress d d'" "progress d' d''"
  shows "progress d d''"
proof -
  obtain rows new where 1: "deliveries d' = rows @ new" "list_all2 row_progress (deliveries d) rows"
    using assms(1) by (auto simp: progress_def)
  obtain rows' new' where 2: "deliveries d'' = rows' @ new'" "list_all2 row_progress (rows @ new) rows'"
    using assms(2) 1(1) by (auto simp: progress_def)
  obtain a b where 3: "rows' = a @ b" "list_all2 row_progress rows a"
    using 2(2) by (auto simp: list_all2_append1)
  have "list_all2 row_progress (deliveries d) a"
    by (rule list_all2_trans[OF _ 1(2) 3(2)]) (rule row_progress_trans)
  then show ?thesis unfolding progress_def using 2(1) 3(1) by (intro exI[of _ a] exI[of _ "b @ new'"]) simp
qed

lemma outbox_step_progress:
  assumes "outbox_step d d'" "outbox_ok d"
  shows "progress d d'"
  using assms(1)
proof (cases rule: step_rows)
  case 1
  have "list_all2 row_progress (deliveries d) (deliveries d')"
    by (rule safe_rows_progress[OF 1]) (use assms(2) in \<open>simp add: outbox_ok_def\<close>)
  then show ?thesis unfolding progress_def by (intro exI[of _ "deliveries d'"] exI[of _ "[]"]) simp
next
  case (2 r)
  then show ?thesis unfolding progress_def
    by (intro exI[of _ "deliveries d"] exI[of _ "[r]"]) (simp add: list_all2_refl)
qed

interpretation outbox: monotone_steps outbox_step outbox_ok progress
  by unfold_locales (auto intro: outbox_step_ok progress_refl progress_trans outbox_step_progress)

section \<open>Claims\<close>

lemma in_update_where:
  "r' \<in> set (update_where P f rows) \<longleftrightarrow> (\<exists>r\<in>set rows. r' = (if P r then f r else r))"
  by (auto simp: update_where_def)

lemma claimed_not_claimable:
  assumes "now' \<le> now + DELIVERY_LEASE"
  shows "\<not> claimable now' i (take_claim token now r)"
  using assms by (auto simp: claimable_def take_claim_def lease_over_def)

lemma distinct_filter_id: "distinct (map od_id rows) \<Longrightarrow> (\<And>r. P r \<Longrightarrow> od_id r = i) \<Longrightarrow> length (filter P rows) \<le> 1"
proof (induction rows)
  case (Cons r rows)
  show ?case
  proof (cases "P r")
    case True
    then have "filter P rows = []"
      using Cons.prems by (auto simp: filter_empty_conv image_iff)
    then show ?thesis by simp
  qed (use Cons in auto)
qed simp

lemma claim_some:
  assumes "fst (claim_delivery token now i d) \<noteq> None" "distinct (map od_id (deliveries d))"
  obtains r where "filter (claimable now i) (deliveries d) = [r]"
proof -
  have "length (filter (claimable now i) (deliveries d)) = 1"
    using assms(1) by (auto simp: claim_delivery_def update_deliveries_def split: if_splits)
  then show ?thesis using that by (auto simp: length_Suc_conv)
qed

lemma others_after_claim:
  assumes "filter (claimable now i) (deliveries d) = [r]" "distinct (map od_id (deliveries d))"
    and "q \<in> set (deliveries (snd (claim_delivery token now i d)))" "od_id q = i"
  shows "q = take_claim token now r"
proof -
  have r: "r \<in> set (deliveries d)" "claimable now i r"
    using filter_singleton_unique[OF assms(1)] by auto
  obtain p where p: "p \<in> set (deliveries d)" "q = (if claimable now i p then take_claim token now p else p)"
    using assms(3) by (auto simp: deliveries_claim in_update_where)
  have "od_id p = i" using p(2) assms(4) by (auto simp: take_claim_def split: if_splits)
  moreover have "od_id r = i" using r by (simp add: claimable_def)
  ultimately have "p = r" using assms(2) r(1) p(1) by (auto simp: distinct_map inj_on_def)
  then show ?thesis using p r by simp
qed

lemma update_where_none: "(\<And>q. q \<in> set rows \<Longrightarrow> P q \<Longrightarrow> False) \<Longrightarrow> update_where P f rows = rows \<and> filter P rows = []"
  by (induction rows) auto

lemma claimed_rows:
  assumes "fst (claim_delivery token now i d) \<noteq> None" "distinct (map od_id (deliveries d))"
    and "q \<in> set (deliveries (snd (claim_delivery token now i d)))" "od_id q = i"
  obtains r where "q = take_claim token now r"
proof -
  obtain r where "filter (claimable now i) (deliveries d) = [r]" by (rule claim_some[OF assms(1,2)])
  then show ?thesis using that others_after_claim[OF _ assms(2,3,4)] by blast
qed

lemma claim_nothing:
  assumes "\<And>q. q \<in> set (deliveries d) \<Longrightarrow> \<not> claimable now i q"
  shows "fst (claim_delivery token now i d) = None" "deliveries (snd (claim_delivery token now i d)) = deliveries d"
  using update_where_none[of "deliveries d" "claimable now i"] assms
  by (auto simp: claim_delivery_def update_deliveries_def)

lemma mark_nothing:
  assumes "\<And>q. q \<in> set (deliveries d) \<Longrightarrow> \<not> held_by token i q"
  shows "\<not> fst (mark_delivery_delivered now i token d)"
    "deliveries (snd (mark_delivery_delivered now i token d)) = deliveries d"
  using update_where_none[of "deliveries d" "held_by token i"] assms
  by (auto simp: mark_delivery_delivered_def update_deliveries_def)

section \<open>Properties\<close>

lemma sample_outbox_ok [simp]: "outbox_ok sample_review"
  by (simp add: outbox_ok_def sample_review_def blank_delivery_def delivery_ok_def MAX_DELIVERY_ATTEMPTS_def)



text \<open>C36. One worker at a time: after a successful claim every other claim of the row fails and changes
  nothing while the lease of two minutes lives; and once a second worker has claimed the row, the report
  of the first one is refused and changes nothing.\<close>

theorem claim_exclusive:
  fixes d token now i
  defines "d1 \<equiv> snd (claim_delivery token now i d)"
  assumes "outbox_ok d" "fst (claim_delivery token now i d) \<noteq> None"
  shows "(now' \<le> now + DELIVERY_LEASE \<longrightarrow>
      fst (claim_delivery token' now' i d1) = None \<and> deliveries (snd (claim_delivery token' now' i d1)) = deliveries d1) \<and>
    (fst (claim_delivery token' now' i d1) \<noteq> None \<and> token' \<noteq> token \<longrightarrow>
      \<not> fst (mark_delivery_delivered now'' i token (snd (claim_delivery token' now' i d1))) \<and>
      deliveries (snd (mark_delivery_delivered now'' i token (snd (claim_delivery token' now' i d1)))) =
        deliveries (snd (claim_delivery token' now' i d1)))"
proof (intro conjI impI)
  have ids: "distinct (map od_id (deliveries d))" using assms(2) by (simp add: outbox_ok_def)
  assume late: "now' \<le> now + DELIVERY_LEASE"
  have "\<not> claimable now' i q" if q: "q \<in> set (deliveries d1)" for q
  proof
    assume c: "claimable now' i q"
    then have "od_id q = i" by (simp add: claimable_def)
    then obtain r where "q = take_claim token now r"
      using claimed_rows[OF assms(3) ids q[unfolded d1_def]] by metis
    then show False using c claimed_not_claimable[OF late] by blast
  qed
  then show "fst (claim_delivery token' now' i d1) = None"
    "deliveries (snd (claim_delivery token' now' i d1)) = deliveries d1"
    using claim_nothing by blast+
next
  let ?d2 = "snd (claim_delivery token' now' i d1)"
  assume a: "fst (claim_delivery token' now' i d1) \<noteq> None \<and> token' \<noteq> token"
  have "outbox_ok d1" using outbox_step_ok[OF outbox_step.claim assms(2)] by (simp add: d1_def)
  then have ids: "distinct (map od_id (deliveries d1))" by (simp add: outbox_ok_def)
  have "\<not> held_by token i q" if q: "q \<in> set (deliveries ?d2)" for q
  proof
    assume h: "held_by token i q"
    then have "od_id q = i" by (simp add: held_by_def)
    then obtain r where "q = take_claim token' now' r"
      using claimed_rows[OF _ ids q] a by metis
    then show False using h a by (simp add: held_by_def take_claim_def)
  qed
  then show "\<not> fst (mark_delivery_delivered now'' i token ?d2)"
    "deliveries (snd (mark_delivery_delivered now'' i token ?d2)) = deliveries ?d2"
    using mark_nothing by blast+
qed

theorem claim_exclusive_witness:
  "fst (claim_delivery ''w2'' 60000000 3 (snd (claim_delivery ''w1'' 0 3 sample_review))) = None"
proof -
  have "fst (claim_delivery ''w1'' 0 3 sample_review) \<noteq> None"
    by (simp add: claim_delivery_def update_deliveries_def claimable_def sample_review_def blank_delivery_def
        MAX_DELIVERY_ATTEMPTS_def get_delivery_def take_claim_def)
  from claim_exclusive[OF sample_outbox_ok this, of 60000000] show ?thesis
    by (simp add: DELIVERY_LEASE_def minutes_def)
qed

end
