(* ===== verification/Person_Identifiers.thy ===== *)
theory Person_Identifiers
  imports Category_Followups
begin

text \<open>
  \<^verbatim>\<open>services/person_identifiers.py\<close>: the counterparty, VPA or phone number that names a person, how
  they are read from bank text, brought to a stored form, learned from a payment and moved when a
  person is renamed; with \<open>is_generic_counterparty\<close> of \<^verbatim>\<open>services/assistant/intent_policy.py\<close>. A
  regular expression is the scanner it denotes: its greedy classes are followed by a character
  outside the class, so no match depends on backtracking.
\<close>

section \<open>Bank text\<close>

datatype identifier_kind = Counterparty | Vpa | Phone

record person_identifier =
  pi_person :: string
  pi_kind :: identifier_kind
  pi_value :: string

definition ascii_lower :: "char \<Rightarrow> bool" where
  "ascii_lower c \<longleftrightarrow> 97 \<le> char_code c \<and> char_code c \<le> 122"

text \<open>\<open>\w\<close>\<close>

definition word_char :: "char \<Rightarrow> bool" where
  "word_char c \<longleftrightarrow> py_isalnum c \<or> c = CHR ''_''"

definition vpa_char :: "char \<Rightarrow> bool" where
  "vpa_char c \<longleftrightarrow> word_char c \<or> c = CHR ''.'' \<or> c = CHR ''-''"

text \<open>\<open>(?!\w|\.[a-z])\<close>\<close>

definition domain_goes_on :: "string \<Rightarrow> bool" where
  "domain_goes_on s =
     (case s of
        [] \<Rightarrow> False
      | c # r \<Rightarrow> word_char c \<or> c = CHR ''.'' \<and> (case r of [] \<Rightarrow> False | c' # _ \<Rightarrow> ascii_lower c'))"

text \<open>A VPA at the start of the text, and what follows it.\<close>

definition vpa_at :: "string \<Rightarrow> (string \<times> string) option" where
  "vpa_at s =
     (let local = takeWhile vpa_char s in
      case dropWhile vpa_char s of
        [] \<Rightarrow> None
      | c # q \<Rightarrow>
          let domain = takeWhile ascii_lower q; after = dropWhile ascii_lower q in
          if c \<noteq> CHR ''@'' \<or> local = [] \<or> domain = [] \<or> domain_goes_on after then None
          else Some (local @ CHR ''@'' # domain, after))"

lemma vpa_at_shorter: "vpa_at s = Some (m, after) \<Longrightarrow> length after < length s"
proof -
  assume "vpa_at s = Some (m, after)"
  then obtain c q where "dropWhile vpa_char s = c # q" "after = dropWhile ascii_lower q"
    by (auto simp: vpa_at_def Let_def split: list.splits if_splits)
  then show ?thesis
    using length_dropWhile_le[of ascii_lower q] length_dropWhile_le[of vpa_char s] by simp
qed

function find_vpas :: "string \<Rightarrow> string list" where
  "find_vpas [] = []"
| "find_vpas (c # s) =
     (case vpa_at (c # s) of None \<Rightarrow> find_vpas s | Some (m, after) \<Rightarrow> m # find_vpas after)"
  by pat_completeness auto

termination find_vpas
  by (relation "measure length") (auto dest: vpa_at_shorter)

definition is_vpa :: "string \<Rightarrow> bool" where
  "is_vpa s \<longleftrightarrow> (case vpa_at s of None \<Rightarrow> False | Some (_, after) \<Rightarrow> after = [])"

text \<open>The maximal runs of digits: \<open>(?<!\d)[6-9]\d{9}(?!\d)\<close> matches whole runs.\<close>

fun digit_runs :: "string \<Rightarrow> string \<Rightarrow> string list" where
  "digit_runs w [] = (if w = [] then [] else [w])"
| "digit_runs w (c # s) =
     (if ascii_digit c then digit_runs (w @ [c]) s
      else if w = [] then digit_runs [] s else w # digit_runs [] s)"

definition is_phone :: "string \<Rightarrow> bool" where
  "is_phone s \<longleftrightarrow>
     length s = 10 \<and> list_all ascii_digit s \<and> 54 \<le> char_code (hd s)"

definition find_phones :: "string \<Rightarrow> string list" where
  "find_phones s = filter is_phone (digit_runs [] s)"

section \<open>Stored forms\<close>

definition normalize_person :: "string \<Rightarrow> string" where
  "normalize_person name = join_words (py_words (py_lower name))"

definition rstrip_dashes :: "string \<Rightarrow> string" where
  "rstrip_dashes s = rev (dropWhile (\<lambda>c. c = CHR ''-'') (rev s))"

definition canonical_vpa :: "string \<Rightarrow> string" where
  "canonical_vpa vpa =
     (let local = takeWhile (\<lambda>c. c \<noteq> CHR ''@'') vpa;
          bank = drop 1 (dropWhile (\<lambda>c. c \<noteq> CHR ''@'') vpa)
      in last (split_on (CHR ''-'') (rstrip_dashes local)) @ CHR ''@'' # bank)"

definition identifier_value :: "identifier_kind \<Rightarrow> string \<Rightarrow> string option" where
  "identifier_value kind v =
     (case kind of
        Counterparty \<Rightarrow>
          let squashed = normalize_counterparty (Some v) in if 4 \<le> length squashed then Some squashed else None
      | Vpa \<Rightarrow>
          let v = py_lower (py_strip v) in if is_vpa v then Some (canonical_vpa v) else None
      | Phone \<Rightarrow>
          let digits = filter py_isdigit v;
              digits = (if length digits = 12 \<and> take 2 digits = ''91'' then drop 2 digits else digits)
          in if is_phone digits then Some digits else None)"

definition raw_vpas :: "string option \<Rightarrow> string list" where
  "raw_vpas raw = remdups (map canonical_vpa (find_vpas (py_lower (or_empty raw))))"

definition raw_phones :: "string option \<Rightarrow> string list" where
  "raw_phones raw = remdups (find_phones (py_lower (or_empty raw)))"

section \<open>Generic counterparties\<close>

definition GENERIC_PATTERNS :: "string list" where
  "GENERIC_PATTERNS =
     [''ach'', ''atm'', ''auto'', ''autopay'', ''bank'', ''bill'', ''card'', ''cash'', ''credit'', 
      ''debit'', ''imps'', ''instruction'', ''merchant'', ''nach'', ''neft'', ''offline'', 
      ''online'', ''paid'', ''pay'', ''payment'', ''pos'', ''purchase'', ''qr'', ''rtgs'', 
      ''standing'', ''transaction'', ''transfer'', ''txn'', ''upi'', ''vpa'', ''wallet'', 
      ''withdrawal'', ''to'', ''from'', ''via'']"

definition is_generic_counterparty :: "string option \<Rightarrow> bool" where
  "is_generic_counterparty counterparty \<longleftrightarrow>
     (let pattern = py_strip (normalize_text (Some (or_empty counterparty)));
          meaningful_tokens = filter (\<lambda>w. w \<notin> set GENERIC_PATTERNS \<and> list_ex ascii_lower w) (py_words pattern)
      in length pattern < 4 \<or> \<not> list_ex ascii_lower pattern \<or> meaningful_tokens = [] \<or>
         list_ex (\<lambda>run. 7 \<le> length run) (digit_runs [] pattern))"

section \<open>The table of identifiers\<close>

text \<open>\<open>INSERT ... ON CONFLICT DO NOTHING\<close> under the unique index on person, kind and value.\<close>

definition insert_identifier :: "string \<Rightarrow> identifier_kind \<times> string \<Rightarrow> person_identifier list \<Rightarrow> person_identifier list" where
  "insert_identifier key kv rows =
     (let row = \<lparr>pi_person = key, pi_kind = fst kv, pi_value = snd kv\<rparr> in
      if row \<in> set rows then rows else rows @ [row])"

definition store_identifiers ::
    "string \<Rightarrow> (identifier_kind \<times> string) list \<Rightarrow> person_identifier list \<Rightarrow> person_identifier list" where
  "store_identifiers person found rows =
     fold (insert_identifier (normalize_person person)) (rev (remdups (rev found))) rows"

definition found_identifiers :: "txn \<Rightarrow> (identifier_kind \<times> string) list" where
  "found_identifiers t =
     (let vpas = raw_vpas (t_raw_description t); phones = raw_phones (t_raw_description t)
      in (if length vpas = 1 then map (\<lambda>v. (Vpa, v)) vpas else []) @
         (if length phones = 1 then map (\<lambda>p. (Phone, p)) phones else []) @
         (case identifier_value Counterparty (or_empty (t_counterparty t)) of
            None \<Rightarrow> []
          | Some squashed \<Rightarrow>
              if is_generic_counterparty (t_counterparty t) then [] else [(Counterparty, squashed)]))"

definition learn_identifiers :: "string \<Rightarrow> txn \<Rightarrow> person_identifier list \<Rightarrow> person_identifier list" where
  "learn_identifiers person t rows = store_identifiers person (found_identifiers t) rows"

text \<open>The names of the other receivables are an argument: the caller's table holds them.\<close>

definition rename_identifiers ::
    "string list \<Rightarrow> string \<Rightarrow> string \<Rightarrow> person_identifier list \<Rightarrow> person_identifier list" where
  "rename_identifiers other_persons old_person person rows =
     (let old = normalize_person old_person; new = normalize_person person;
          others = map normalize_person other_persons
      in if old = new \<or> new \<in> set others \<or> list_ex (\<lambda>r. pi_person r = new) rows then rows
         else
           let mine = filter (\<lambda>r. pi_person r = old) rows;
               rows' = store_identifiers new (map (\<lambda>r. (pi_kind r, pi_value r)) mine) rows
           in if old \<notin> set others then filter (\<lambda>r. pi_person r \<noteq> old) rows' else rows')"

text \<open>\<open>None\<close> is the \<open>UnprocessableEntityException\<close>.\<close>

definition store_identifier ::
    "string \<Rightarrow> identifier_kind \<Rightarrow> string \<Rightarrow> person_identifier list \<Rightarrow> (person_identifier \<times> person_identifier list) option" where
  "store_identifier person kind v rows =
     (case identifier_value kind v of
        None \<Rightarrow> None
      | Some stored \<Rightarrow>
          Some (\<lparr>pi_person = normalize_person person, pi_kind = kind, pi_value = stored\<rparr>,
                store_identifiers person [(kind, stored)] rows))"

section \<open>Stored forms are stable\<close>

lemma char_code_less [simp]: "char_code c < 256"
  using range_nat_of_char by (metis atLeastLessThan_iff rangeI)

lemma char_code_lower:
  "char_code (lower_char c) =
     (let n = char_code c in
      if (65 \<le> n \<and> n \<le> 90) \<or> (192 \<le> n \<and> n \<le> 214) \<or> (216 \<le> n \<and> n \<le> 222) then n + 32 else n)"
  by (simp add: lower_char_def Let_def)

lemma lower_char_idem [simp]: "lower_char (lower_char c) = lower_char c"
  by (subst lower_char_def) (auto simp: char_code_lower Let_def)

lemma py_lower_idem [simp]: "py_lower (py_lower s) = py_lower s"
  by (simp add: py_lower_def)

lemma normalize_counterparty_again:
  "normalize_counterparty (Some (normalize_counterparty s)) = normalize_counterparty s"
proof -
  have "map lower_char (filter py_isalnum (map lower_char x)) = filter py_isalnum (map lower_char x)" for x
    by (rule map_idI) auto
  then show ?thesis by (simp add: normalize_counterparty_def py_lower_def)
qed

lemma split_on_no_separator: "w \<in> set (split_on c s) \<Longrightarrow> c \<notin> set w"
  by (induction c s arbitrary: w rule: split_on.induct) (auto split: if_splits list.splits)

lemma split_on_chars: "w \<in> set (split_on c s) \<Longrightarrow> set w \<subseteq> set s"
proof (induction c s arbitrary: w rule: split_on.induct)
  case (2 c d s)
  note IH = "2.IH"
  show ?case
  proof (cases "split_on c s")
    case Nil
    then show ?thesis using 2 by (auto split: if_splits)
  next
    case (Cons a list)
    consider "w = []" | "d \<noteq> c" "w = d # a" | "w \<in> set (split_on c s)"
      using 2(3) Cons by (auto split: if_splits)
    then show ?thesis
    proof cases
      case 2
      then have "set a \<subseteq> set s" using IH(2)[of a] Cons by simp
      then show ?thesis using 2 by auto
    next
      case 3
      then have "set w \<subseteq> set s" using IH by (cases "d = c") blast+
      then show ?thesis by auto
    qed simp
  qed
qed simp

lemma split_on_parts: "w \<in> set (split_on c s) \<Longrightarrow> c \<notin> set w \<and> set w \<subseteq> set s"
  using split_on_no_separator split_on_chars by blast

definition last_dash_part :: "string \<Rightarrow> string" where
  "last_dash_part local = last (split_on (CHR ''-'') (rstrip_dashes local))"

lemma last_dash_part: "CHR ''-'' \<notin> set (last_dash_part l)" "set (last_dash_part l) \<subseteq> set l"
proof -
  have in_parts: "last_dash_part l \<in> set (split_on (CHR ''-'') (rstrip_dashes l))"
    unfolding last_dash_part_def by (rule last_in_set) simp
  have "set (rstrip_dashes l) \<subseteq> set l"
    using set_dropWhileD[of _ "\<lambda>c. c = CHR ''-''" "rev l"] by (auto simp: rstrip_dashes_def)
  then show "CHR ''-'' \<notin> set (last_dash_part l)" "set (last_dash_part l) \<subseteq> set l"
    using split_on_parts[OF in_parts] by auto
qed

lemma last_dash_part_id: "CHR ''-'' \<notin> set l \<Longrightarrow> last_dash_part l = l"
proof -
  assume a: "CHR ''-'' \<notin> set l"
  then have "CHR ''-'' \<notin> set (rev l)" by simp
  then have "dropWhile (\<lambda>c. c = CHR ''-'') (rev l) = rev l" by (cases "rev l") auto
  then have "rstrip_dashes l = l" by (simp add: rstrip_dashes_def)
  then show ?thesis using a by (simp add: last_dash_part_def split_on_no_sep)
qed

lemma at_not_vpa_char [simp]: "\<not> vpa_char (CHR ''@'')"
  by (simp add: vpa_char_def word_char_def py_isalnum_def Let_def)

lemma at_not_lower [simp]: "\<not> ascii_lower (CHR ''@'')"
  by (simp add: ascii_lower_def)

lemma is_vpa_iff:
  "is_vpa s \<longleftrightarrow> (\<exists>l domain. s = l @ CHR ''@'' # domain \<and> l \<noteq> [] \<and> domain \<noteq> [] \<and>
     list_all vpa_char l \<and> list_all ascii_lower domain)"
proof
  assume "is_vpa s"
  then have v: "vpa_at s = Some (fst (the (vpa_at s)), [])"
    by (auto simp: is_vpa_def split: option.splits)
  let ?l = "takeWhile vpa_char s"
  obtain q where q: "dropWhile vpa_char s = CHR ''@'' # q" "?l \<noteq> []" "takeWhile ascii_lower q \<noteq> []"
    "dropWhile ascii_lower q = []"
    using v by (auto simp: vpa_at_def Let_def split: list.splits if_splits)
  have "s = ?l @ CHR ''@'' # q" using q(1) by (metis takeWhile_dropWhile_id)
  moreover have "list_all vpa_char ?l" by (auto simp: list_all_iff dest: set_takeWhileD)
  moreover have "list_all ascii_lower q" using q(4) by (auto simp: list_all_iff dropWhile_eq_Nil_conv)
  ultimately show "\<exists>l domain. s = l @ CHR ''@'' # domain \<and> l \<noteq> [] \<and> domain \<noteq> [] \<and>
      list_all vpa_char l \<and> list_all ascii_lower domain"
    using q by (metis takeWhile.simps(1))
next
  assume "\<exists>l domain. s = l @ CHR ''@'' # domain \<and> l \<noteq> [] \<and> domain \<noteq> [] \<and>
      list_all vpa_char l \<and> list_all ascii_lower domain"
  then obtain l domain where s: "s = l @ CHR ''@'' # domain" "l \<noteq> []" "domain \<noteq> []"
    "list_all vpa_char l" "list_all ascii_lower domain" by blast
  have "takeWhile vpa_char s = l" "dropWhile vpa_char s = CHR ''@'' # domain"
    using s(1,4) by (simp_all add: takeWhile_append2 dropWhile_append2 list_all_iff)
  moreover have "takeWhile ascii_lower domain = domain" "dropWhile ascii_lower domain = []"
    using s(5) by (induction domain) simp_all
  ultimately have "vpa_at s = Some (l @ CHR ''@'' # domain, [])"
    using s(2,3) unfolding vpa_at_def Let_def by (simp only: list.case domain_goes_on_def s(1)) simp
  then show "is_vpa s" by (simp add: is_vpa_def)
qed

lemma canonical_vpa_parts:
  assumes "list_all vpa_char l"
  shows "canonical_vpa (l @ CHR ''@'' # domain) = last_dash_part l @ CHR ''@'' # domain"
proof -
  have "\<forall>x\<in>set l. x \<noteq> CHR ''@''" using assms at_not_vpa_char by (auto simp: list_all_iff)
  then have "takeWhile (\<lambda>c. c \<noteq> CHR ''@'') (l @ CHR ''@'' # domain) = l"
    "dropWhile (\<lambda>c. c \<noteq> CHR ''@'') (l @ CHR ''@'' # domain) = CHR ''@'' # domain"
    by (simp_all add: takeWhile_append2 dropWhile_append2)
  then show ?thesis by (simp add: canonical_vpa_def last_dash_part_def)
qed

lemma lower_char_ascii: "ascii_lower c \<Longrightarrow> lower_char c = c" "ascii_lower c \<Longrightarrow> \<not> py_isspace c"
  by (auto simp: ascii_lower_def lower_char_def py_isspace_def Let_def)

lemma vpa_char_not_space: "vpa_char c \<Longrightarrow> \<not> py_isspace c"
  by (auto simp: vpa_char_def word_char_def py_isalnum_def py_isspace_def Let_def)

lemma strip_chars_none: "list_all (\<lambda>c. \<not> P c) s \<Longrightarrow> strip_chars P s = s"
proof -
  assume a: "list_all (\<lambda>c. \<not> P c) s"
  then have "dropWhile P s = s" by (cases s) simp_all
  moreover have "list_all (\<lambda>c. \<not> P c) (rev s)" using a by simp
  then have "dropWhile P (rev s) = rev s" by (cases "rev s") simp_all
  ultimately show ?thesis by (simp add: strip_chars_def)
qed

lemma canonical_vpa_again:
  assumes "is_vpa s" "py_lower s = s"
  defines "w \<equiv> canonical_vpa s"
  shows "py_lower (py_strip w) = w" "is_vpa w \<longleftrightarrow> hd w \<noteq> CHR ''@''" "is_vpa w \<Longrightarrow> canonical_vpa w = w"
proof -
  obtain l d where s: "s = l @ CHR ''@'' # d" "d \<noteq> []" "list_all vpa_char l" "list_all ascii_lower d"
    using assms(1) by (auto simp: is_vpa_iff)
  let ?l = "last_dash_part l"
  have w: "w = ?l @ CHR ''@'' # d" unfolding w_def s(1) by (rule canonical_vpa_parts) (fact s(3))
  have l: "list_all vpa_char ?l" using last_dash_part(2)[of l] s(3) by (auto simp: list_all_iff)
  have again: "last_dash_part ?l = ?l" by (rule last_dash_part_id) (rule last_dash_part(1))
  have nospace: "list_all (\<lambda>c. \<not> py_isspace c) w"
    using l s(4) vpa_char_not_space lower_char_ascii(2) by (auto simp: w list_all_iff py_isspace_def)
  have "lower_char c = c" if "c \<in> set w" for c
  proof -
    have "c \<in> set s" using that last_dash_part(2)[of l] by (auto simp: w s(1))
    then show ?thesis using assms(2) by (metis py_lower_def in_set_conv_nth length_map nth_map)
  qed
  then have "py_lower w = w" by (simp add: py_lower_def map_idI)
  then show "py_lower (py_strip w) = w" using strip_chars_none[OF nospace] by (simp add: py_strip_def)
  show "is_vpa w \<longleftrightarrow> hd w \<noteq> CHR ''@''"
  proof (cases "?l = []")
    case True
    have "vpa_at w = None" by (simp add: vpa_at_def w True Let_def)
    then show ?thesis by (simp add: is_vpa_def w True)
  next
    case False
    have "hd w \<noteq> CHR ''@''" using False l by (cases ?l) (auto simp: w)
    moreover have "is_vpa w" unfolding is_vpa_iff w using False l s(2,4) by blast
    ultimately show ?thesis by simp
  qed
  show "is_vpa w \<Longrightarrow> canonical_vpa w = w" using canonical_vpa_parts[OF l, of d] by (simp add: w again)
qed

lemma phone_digits: "is_phone w \<Longrightarrow> filter py_isdigit w = w \<and> length w = 10"
  by (auto simp: is_phone_def py_isdigit_def list_all_iff filter_id_conv)

section \<open>Properties\<close>

text \<open>C40. A stored identifier is a fixed point: reading the stored form of a counterparty, a VPA or
  a phone number gives the same stored form again, so a value learned from a row and the same value
  typed by the owner are one row of the table. The one exception is a VPA whose part before the at
  sign is dashes only: its stored form begins with the at sign and is not a VPA, so it can match no
  row and cannot be entered again.\<close>

theorem identifier_stored_once:
  assumes "identifier_value k v = Some w"
  shows "identifier_value k w = (if k = Vpa \<and> hd w = CHR ''@'' then None else Some w)"
proof (cases k)
  case Counterparty
  then show ?thesis using assms normalize_counterparty_again[of "Some v"]
    by (auto simp: identifier_value_def Let_def split: if_splits)
next
  case Vpa
  let ?s = "py_lower (py_strip v)"
  have s: "is_vpa ?s" "w = canonical_vpa ?s"
    using assms Vpa by (auto simp: identifier_value_def Let_def split: if_splits)
  show ?thesis using canonical_vpa_again[OF s(1) py_lower_idem] Vpa
    unfolding s(2)[symmetric] by (simp add: identifier_value_def Let_def)
next
  case Phone
  then have "is_phone w" using assms by (auto simp: identifier_value_def Let_def split: if_splits)
  then show ?thesis using phone_digits[of w] Phone by (simp add: identifier_value_def Let_def)
qed

theorem identifier_stored_once_witness:
  "identifier_value Vpa '' Shop-Asha@OkAxis '' = Some ''asha@okaxis'' \<and>
   identifier_value Vpa ''asha@okaxis'' = Some ''asha@okaxis'' \<and>
   identifier_value Vpa ''-@okaxis'' = Some ''@okaxis'' \<and> identifier_value Vpa ''@okaxis'' = None"
proof -
  have a: "identifier_value Vpa '' Shop-Asha@OkAxis '' = Some ''asha@okaxis''" by code_simp
  have b: "identifier_value Vpa ''-@okaxis'' = Some ''@okaxis''" by code_simp
  show ?thesis using a b identifier_stored_once[OF a] identifier_stored_once[OF b] by simp
qed

end
