(* ===== verification/Receivables.thy ===== *)
theory Receivables
  imports Person_Identifiers
begin

text \<open>
  \<^verbatim>\<open>services/receivables.py\<close>: the ledger of the money other people owe the owner and the money the
  owner owes, its links to bank rows, and what happens to the links when a row is merged away or
  deleted. The ledger is one record: the shared database and the tables only it writes. An operation
  that raises leaves the state it was given, which is the rollback. The validated request bodies of
  \<^verbatim>\<open>schemas/receivables.py\<close> are records; the clock is an argument.
\<close>

section \<open>Rows\<close>

datatype receivable_kind = Receivable | Payable

datatype receivable_role = Charge | Payment

datatype receivable_status = Status_Open | Status_Settled | Status_Written_Off

record receivable_row =
  rc_id :: int
  rc_kind :: receivable_kind
  rc_person :: string
  rc_amount :: decimal
  rc_note :: "string option"
  rc_status :: receivable_status
  rc_created_at :: datetime
  rc_closed_at :: "datetime option"

record receivable_link =
  ln_receivable :: int
  ln_transaction :: int
  ln_role :: receivable_role

datatype prompt_status = Prompt_Pending | Prompt_Linked | Prompt_Dismissed

record match_prompt =
  mp_id :: int
  mp_transaction :: int
  mp_candidates :: "int list"
  mp_status :: prompt_status
  mp_delivery_id :: "int option"
  mp_resolved_at :: "datetime option"

record message_context =
  mc_chat_id :: int
  mc_message_id :: int
  mc_outbound_delivery_id :: "int option"
  mc_transaction_id :: "int option"

record ledger =
  lg_db :: db
  receivables :: "receivable_row list"
  links :: "receivable_link list"
  identifiers :: "person_identifier list"
  prompts :: "match_prompt list"
  contexts :: "message_context list"

text \<open>The two unique indexes on links: a receivable links a row once, a payment row pays one receivable.\<close>

definition links_unique :: "receivable_link list \<Rightarrow> bool" where
  "links_unique ls \<longleftrightarrow>
     distinct (map (\<lambda>l. (ln_receivable l, ln_transaction l)) ls) \<and>
     distinct (map ln_transaction (filter (\<lambda>l. ln_role l = Payment) ls))"

record receivable_create =
  cp_kind :: receivable_kind
  cp_person :: string
  cp_amount :: decimal
  cp_note :: "string option"
  cp_charges :: "int list"
  cp_payments :: "int list"

text \<open>A field of an edit is \<open>None\<close> when the body does not name it; a named note can be null.\<close>

record receivable_update =
  up_amount :: "decimal option"
  up_note :: "string option option"
  up_status :: "receivable_status option"
  up_person :: "string option"

datatype ledger_error =
  Row_Not_Found | Wrong_Direction | Not_In_Inr | Row_Is_Voided | Listed_Twice | Link_Conflict

section \<open>Reading\<close>

definition role_direction :: "receivable_kind \<Rightarrow> receivable_role \<Rightarrow> string" where
  "role_direction kind role =
     (case kind of
        Receivable \<Rightarrow> (case role of Charge \<Rightarrow> ''debit'' | Payment \<Rightarrow> ''credit'')
      | Payable \<Rightarrow> (case role of Charge \<Rightarrow> ''credit'' | Payment \<Rightarrow> ''debit''))"

definition links_of :: "receivable_link list \<Rightarrow> receivable_row \<Rightarrow> receivable_link list" where
  "links_of ls r = filter (\<lambda>l. ln_receivable l = rc_id r) ls"

definition link_amount :: "db \<Rightarrow> receivable_link \<Rightarrow> decimal" where
  "link_amount d l = (case get_txn (ln_transaction l) d of None \<Rightarrow> 0 | Some t \<Rightarrow> t_amount t)"

text \<open>\<open>mine\<close> are the links of the receivable.\<close>

definition paid_by :: "db \<Rightarrow> receivable_link list \<Rightarrow> decimal" where
  "paid_by d mine = dsum (link_amount d) (filter (\<lambda>l. ln_role l = Payment) mine)"

definition paid :: "ledger \<Rightarrow> receivable_row \<Rightarrow> decimal" where
  "paid L r = paid_by (lg_db L) (links_of (links L) r)"

definition settle_if_paid :: "datetime \<Rightarrow> db \<Rightarrow> receivable_link list \<Rightarrow> receivable_row \<Rightarrow> receivable_row" where
  "settle_if_paid now d mine r =
     (if rc_status r = Status_Open \<and> rc_amount r \<le> paid_by d mine
      then r\<lparr>rc_status := Status_Settled, rc_closed_at := Some now\<rparr> else r)"

record receivable_view =
  rv_row :: receivable_row
  rv_paid :: decimal
  rv_outstanding :: decimal
  rv_charges :: "int list"
  rv_payments :: "int list"

definition receivable_read :: "ledger \<Rightarrow> receivable_row \<Rightarrow> receivable_view" where
  "receivable_read L r =
     (let shown = sort_key ln_transaction
            (filter (\<lambda>l. get_txn (ln_transaction l) (lg_db L) \<noteq> None) (links_of (links L) r))
      in \<lparr>rv_row = r, rv_paid = paid L r, rv_outstanding = rc_amount r - paid L r,
          rv_charges = map ln_transaction (filter (\<lambda>l. ln_role l = Charge) shown),
          rv_payments = map ln_transaction (filter (\<lambda>l. ln_role l = Payment) shown)\<rparr>)"

definition list_receivables :: "receivable_status option \<Rightarrow> ledger \<Rightarrow> receivable_row list" where
  "list_receivables status L =
     (let rows = sort_key rc_created_at (sort_key rc_id (receivables L))
      in case status of None \<Rightarrow> rows | Some s \<Rightarrow> filter (\<lambda>r. rc_status r = s) rows)"

definition get_receivable :: "int \<Rightarrow> ledger \<Rightarrow> receivable_row option" where
  "get_receivable i L = find (\<lambda>r. rc_id r = i) (receivables L)"

section \<open>Links and edits\<close>

definition linkable :: "db \<Rightarrow> int \<Rightarrow> receivable_kind \<Rightarrow> receivable_role \<Rightarrow> ledger_error + txn" where
  "linkable d i kind role =
     (case get_txn i d of
        None \<Rightarrow> Inl Row_Not_Found
      | Some t \<Rightarrow>
          if t_direction t \<noteq> role_direction kind role then Inl Wrong_Direction
          else if truthy (t_currency t) \<and> t_currency t \<noteq> Some ''INR'' then Inl Not_In_Inr
          else if t_voided t = Some True then Inl Row_Is_Voided
          else Inr t)"

fun linkables ::
    "db \<Rightarrow> receivable_kind \<Rightarrow> (int \<times> receivable_role) list \<Rightarrow> ledger_error + (txn \<times> receivable_role) list" where
  "linkables d kind [] = Inr []"
| "linkables d kind ((i, role) # wanted) =
     (case linkable d i kind role of
        Inl e \<Rightarrow> Inl e
      | Inr t \<Rightarrow>
          case linkables d kind wanted of Inl e \<Rightarrow> Inl e | Inr ts \<Rightarrow> Inr ((t, role) # ts))"

text \<open>The commit of an operation that added links.\<close>

definition commit_links :: "'a \<times> ledger \<Rightarrow> ledger_error + 'a \<times> ledger" where
  "commit_links xL = (if links_unique (links (snd xL)) then Inr xL else Inl Link_Conflict)"

text \<open>The state after an operation: the old one when it raised.\<close>

definition after :: "ledger \<Rightarrow> ledger_error + 'a \<times> ledger \<Rightarrow> ledger" where
  "after L res = (case res of Inl _ \<Rightarrow> L | Inr (_, L') \<Rightarrow> L')"

definition build_receivable ::
    "datetime \<Rightarrow> receivable_create \<Rightarrow> ledger \<Rightarrow> ledger_error + receivable_row \<times> ledger" where
  "build_receivable now p L =
     (let wanted = map (\<lambda>i. (i, Charge)) (cp_charges p) @ map (\<lambda>i. (i, Payment)) (cp_payments p)
      in if \<not> distinct (map fst wanted) then Inl Listed_Twice
         else
           case linkables (lg_db L) (cp_kind p) wanted of
             Inl e \<Rightarrow> Inl e
           | Inr found \<Rightarrow>
               let i = next_id (map rc_id (receivables L));
                   new = map (\<lambda>(t, role). \<lparr>ln_receivable = i, ln_transaction = t_id t, ln_role = role\<rparr>) found;
                   learned = fold (\<lambda>(t, role). if role = Payment then learn_identifiers (cp_person p) t else id)
                               found (identifiers L);
                   r = settle_if_paid now (lg_db L) new
                         \<lparr>rc_id = i, rc_kind = cp_kind p, rc_person = cp_person p, rc_amount = cp_amount p,
                          rc_note = cp_note p, rc_status = Status_Open, rc_created_at = now, rc_closed_at = None\<rparr>
               in Inr (r, L\<lparr>receivables := receivables L @ [r], links := links L @ new, identifiers := learned\<rparr>))"

definition create_receivable ::
    "datetime \<Rightarrow> receivable_create \<Rightarrow> ledger \<Rightarrow> ledger_error + receivable_row \<times> ledger" where
  "create_receivable now p L =
     (case build_receivable now p L of Inl e \<Rightarrow> Inl e | Inr rL \<Rightarrow> commit_links rL)"

definition write_receivable :: "receivable_row \<Rightarrow> ledger \<Rightarrow> ledger" where
  "write_receivable r L = L\<lparr>receivables := update_where (\<lambda>q. rc_id q = rc_id r) (\<lambda>_. r) (receivables L)\<rparr>"

definition apply_update :: "datetime \<Rightarrow> receivable_row \<Rightarrow> receivable_update \<Rightarrow> ledger \<Rightarrow> receivable_row \<times> ledger" where
  "apply_update now r p L =
     (let amount_changed = up_amount p \<noteq> None \<and> up_amount p \<noteq> Some (rc_amount r);
          r1 = (case up_amount p of None \<Rightarrow> r | Some a \<Rightarrow> r\<lparr>rc_amount := a\<rparr>);
          others = map rc_person (filter (\<lambda>q. rc_id q \<noteq> rc_id r) (receivables L));
          (r2, ids) =
            (case up_person p of
               None \<Rightarrow> (r1, identifiers L)
             | Some person \<Rightarrow>
                 (r1\<lparr>rc_person := person\<rparr>, rename_identifiers others (rc_person r1) person (identifiers L)));
          r3 = (case up_note p of None \<Rightarrow> r2 | Some note \<Rightarrow> r2\<lparr>rc_note := note\<rparr>);
          settle = (if amount_changed \<and> up_status p = None
                    then settle_if_paid now (lg_db L) (links_of (links L) r) r3 else r3);
          r4 = (case up_status p of
                  None \<Rightarrow> settle
                | Some s \<Rightarrow>
                    if s \<noteq> rc_status r
                    then r3\<lparr>rc_status := s, rc_closed_at := (if s = Status_Open then None else Some now)\<rparr>
                    else settle)
      in (r4, write_receivable r4 (L\<lparr>identifiers := ids\<rparr>)))"

definition update_receivable :: "datetime \<Rightarrow> receivable_row \<Rightarrow> receivable_update \<Rightarrow> ledger \<Rightarrow> receivable_row \<times> ledger" where
  "update_receivable now r p L = apply_update now r p L"

definition attach_link ::
    "datetime \<Rightarrow> receivable_row \<Rightarrow> int \<Rightarrow> receivable_role \<Rightarrow> ledger \<Rightarrow> ledger_error + receivable_row \<times> ledger" where
  "attach_link now r i role L =
     (case linkable (lg_db L) i (rc_kind r) role of
        Inl e \<Rightarrow> Inl e
      | Inr t \<Rightarrow>
          let ids = (if role = Payment then learn_identifiers (rc_person r) t (identifiers L) else identifiers L);
              ls = links L @ [\<lparr>ln_receivable = rc_id r, ln_transaction = t_id t, ln_role = role\<rparr>];
              r' = (if role = Payment then settle_if_paid now (lg_db L) (links_of ls r) r else r)
          in Inr (r', write_receivable r' (L\<lparr>links := ls, identifiers := ids\<rparr>)))"

definition add_link ::
    "datetime \<Rightarrow> receivable_row \<Rightarrow> int \<Rightarrow> receivable_role \<Rightarrow> ledger \<Rightarrow> ledger_error + receivable_row \<times> ledger" where
  "add_link now r i role L =
     (case attach_link now r i role L of Inl e \<Rightarrow> Inl e | Inr rL \<Rightarrow> commit_links rL)"

definition remove_link :: "int \<Rightarrow> int \<Rightarrow> ledger \<Rightarrow> receivable_row option \<times> ledger" where
  "remove_link i tid L =
     (let named = (\<lambda>l. ln_receivable l = i \<and> ln_transaction l = tid)
      in if filter named (links L) = [] then (None, L)
         else (get_receivable i L, L\<lparr>links := filter (\<lambda>l. \<not> named l) (links L)\<rparr>))"

section \<open>The row goes away\<close>

text \<open>The unsent message of the prompt is cancelled and the prompt deleted.\<close>

definition drop_prompt :: "int \<Rightarrow> ledger \<Rightarrow> ledger" where
  "drop_prompt old L =
     (let sent = map mp_delivery_id (filter (\<lambda>p. mp_transaction p = old) (prompts L));
          d = lg_db L
      in L\<lparr>lg_db := d\<lparr>deliveries := update_where
                  (\<lambda>r. Some (od_id r) \<in> set sent \<and> od_status r \<in> {''pending'', ''delivering'', ''delivery_unknown''})
                  (\<lambda>r. r\<lparr>od_status := ''cancelled'', od_worker_token := None, od_delivery_lease_until := None\<rparr>)
                  (deliveries d)\<rparr>,
           prompts := filter (\<lambda>p. mp_transaction p \<noteq> old) (prompts L)\<rparr>)"

text \<open>The counts of links moved (or removed, on a plain delete) and of links dropped.\<close>

definition move_receivable_links :: "datetime \<Rightarrow> int \<Rightarrow> int option \<Rightarrow> ledger \<Rightarrow> (nat \<times> nat) \<times> ledger" where
  "move_receivable_links now old new L =
     (let L1 = drop_prompt old L;
          stale = (\<lambda>l. ln_transaction l = old)
      in case new of
           None \<Rightarrow>
             ((length (filter stale (links L1)), 0), L1\<lparr>links := filter (\<lambda>l. \<not> stale l) (links L1)\<rparr>)
         | Some keeper \<Rightarrow>
             let linked = map ln_receivable (filter (\<lambda>l. ln_transaction l = keeper) (links L1));
                 pays = list_ex (\<lambda>l. ln_transaction l = keeper \<and> ln_role l = Payment) (links L1);
                 dropped = (\<lambda>l. stale l \<and> (ln_receivable l \<in> set linked \<or> ln_role l = Payment \<and> pays));
                 rest = filter (\<lambda>l. \<not> dropped l) (links L1);
                 ls = update_where stale (\<lambda>l. l\<lparr>ln_transaction := keeper\<rparr>) rest;
                 paying = map ln_receivable (filter (\<lambda>l. ln_transaction l = keeper \<and> ln_role l = Payment) ls);
                 rows = update_where (\<lambda>r. rc_id r \<in> set paying \<and> rc_status r = Status_Open)
                          (\<lambda>r. settle_if_paid now (lg_db L1) (links_of ls r) r) (receivables L1)
             in ((length (filter stale rest), length (filter dropped (links L1))),
                 L1\<lparr>links := ls, receivables := rows\<rparr>))"

end
