(* ===== verification/Receivable_Matches.thy ===== *)
theory Receivable_Matches
  imports Receivables Outbox
begin

text \<open>
  \<^verbatim>\<open>services/receivable_matches.py\<close>: which open receivables a new row can pay, the sweep that asks
  the owner once per row, and the tap that answers. \<open>resolve_reply\<close> is from
  \<^verbatim>\<open>services/assistant/message_context.py\<close>. The wording of the message and of the reply is left out:
  a reply is its case.
\<close>

section \<open>Who a row names\<close>

record match =
  m_receivable :: receivable_view
  m_strong :: bool
  m_identifier :: string

definition known_identifiers :: "person_identifier list \<Rightarrow> string \<Rightarrow> (identifier_kind \<times> string) list" where
  "known_identifiers table person =
     map (\<lambda>r. (pi_kind r, pi_value r)) (filter (\<lambda>r. pi_person r = normalize_person person) table)"

definition identifier_hit :: "txn \<Rightarrow> identifier_kind \<times> string \<Rightarrow> bool" where
  "identifier_hit t known =
     (case known of
        (Counterparty, v) \<Rightarrow> sublist v (normalize_counterparty (t_counterparty t))
      | (Vpa, v) \<Rightarrow> canonical_vpa v \<in> set (raw_vpas (t_raw_description t))
      | (Phone, v) \<Rightarrow> v \<in> set (raw_phones (t_raw_description t)))"

text \<open>\<open>max(hits, key=len)\<close>: the first of the longest.\<close>

definition first_longest :: "string list \<Rightarrow> string" where
  "first_longest hits = foldl (\<lambda>a b. if length a < length b then b else a) (hd hits) (tl hits)"

definition identity :: "txn \<Rightarrow> receivable_view \<Rightarrow> person_identifier list \<Rightarrow> match option" where
  "identity t rv table =
     (let person = rc_person (rv_row rv);
          squashed = normalize_counterparty (t_counterparty t);
          known = known_identifiers table person;
          hits = map snd (filter (identifier_hit t) known);
          long_words = filter (\<lambda>w. 4 \<le> length w) (py_words (normalize_text (Some person)))
      in if hits \<noteq> [] then Some \<lparr>m_receivable = rv, m_strong = True, m_identifier = first_longest hits\<rparr>
         else if known = [] \<and> long_words \<noteq> [] \<and> list_all (\<lambda>w. sublist w squashed) long_words
         then Some \<lparr>m_receivable = rv, m_strong = False, m_identifier = concat long_words\<rparr>
         else None)"

definition MAX_CANDIDATES :: nat where
  "MAX_CANDIDATES = 3"

definition can_pay :: "txn \<Rightarrow> receivable_view \<Rightarrow> bool" where
  "can_pay t rv \<longleftrightarrow>
     rc_status (rv_row rv) = Status_Open \<and>
     t_direction t = role_direction (rc_kind (rv_row rv)) Payment \<and>
     t_amount t = rv_outstanding rv"

text \<open>The name of one match lies inside a longer name that matched too.\<close>

definition shadowed :: "match list \<Rightarrow> match \<Rightarrow> bool" where
  "shadowed matches m \<longleftrightarrow>
     list_ex (\<lambda>other. length (m_identifier m) < length (m_identifier other) \<and>
                      sublist (m_identifier m) (m_identifier other)) matches"

definition order_matches :: "match list \<Rightarrow> match list" where
  "order_matches ms =
     sort_key (\<lambda>m. \<not> m_strong m)
       (sort_key (\<lambda>m. - int (length (m_identifier m)))
         (sort_key (\<lambda>m. rc_id (rv_row (m_receivable m))) ms))"

definition match_receivables :: "txn \<Rightarrow> receivable_view list \<Rightarrow> person_identifier list \<Rightarrow> receivable_view list" where
  "match_receivables t rvs table =
     (let matches = List.map_filter (\<lambda>rv. if can_pay t rv then identity t rv table else None) rvs;
          kept = order_matches (filter (\<lambda>m. \<not> shadowed matches m) matches)
      in if length kept \<le> MAX_CANDIDATES then map m_receivable kept else [])"

section \<open>The sweep\<close>

text \<open>\<open>None\<close> is the refusal of the unique index: another sweep has prompted for the row.\<close>

definition queue_prompt :: "txn \<Rightarrow> receivable_view list \<Rightarrow> int \<Rightarrow> ledger \<Rightarrow> (int \<times> ledger) option" where
  "queue_prompt t matches chat_id L =
     (let d = lg_db L;
          owner = \<lparr>ai_id = next_id (map ai_id (interactions d)), ai_inbound_chat_id = chat_id,
                   ai_trigger = ''receivable_match'', ai_transaction_id = Some (t_id t),
                   ai_status = ''ready_to_send'', ai_outcome = Some ''receivable_match'',
                   ai_worker_token = None, ai_processing_lease_until = None, ai_completed_at = None\<rparr>;
          i = next_id (map od_id (deliveries d));
          prompt = \<lparr>mp_id = next_id (map mp_id (prompts L)), mp_transaction = t_id t,
                    mp_candidates = map (\<lambda>rv. rc_id (rv_row rv)) matches, mp_status = Prompt_Pending,
                    mp_delivery_id = Some i, mp_resolved_at = None\<rparr>
      in if list_ex (\<lambda>p. mp_transaction p = t_id t) (prompts L) then None
         else
           case make_delivery i chat_id 0 (Some (ai_id owner)) None (Some (t_id t)) of
             None \<Rightarrow> None
           | Some message \<Rightarrow>
               Some (i, L\<lparr>lg_db := d\<lparr>deliveries := deliveries d @ [message],
                                   interactions := interactions d @ [owner]\<rparr>,
                          prompts := prompts L @ [prompt]\<rparr>))"

definition LOOKBACK :: int where
  "LOOKBACK = minutes (7 * 24 * 60)"

definition sweep_rows :: "datetime \<Rightarrow> ledger \<Rightarrow> txn list" where
  "sweep_rows now L =
     sort_key t_id (filter (\<lambda>t.
       (case t_created_at t of None \<Rightarrow> False | Some c \<Rightarrow> now - LOOKBACK \<le> c) \<and>
       (case t_currency t of None \<Rightarrow> True | Some c \<Rightarrow> c = ''INR'') \<and>
       t_voided t = Some False \<and>
       \<not> list_ex (\<lambda>l. ln_transaction l = t_id t) (links L) \<and>
       \<not> list_ex (\<lambda>p. mp_transaction p = t_id t) (prompts L)) (transactions (lg_db L)))"

fun queue_prompts ::
    "int \<Rightarrow> receivable_view list \<Rightarrow> person_identifier list \<Rightarrow> txn list \<Rightarrow> ledger \<Rightarrow> int list \<times> ledger" where
  "queue_prompts chat_id rvs table [] L = ([], L)"
| "queue_prompts chat_id rvs table (t # ts) L =
     (let matches = match_receivables t rvs table
      in if matches = [] then queue_prompts chat_id rvs table ts L
         else
           case queue_prompt t matches chat_id L of
             None \<Rightarrow> queue_prompts chat_id rvs table ts L
           | Some (i, L') \<Rightarrow> (case queue_prompts chat_id rvs table ts L' of (is, L'') \<Rightarrow> (i # is, L'')))"

text \<open>\<open>enabled\<close>: Telegram is configured and running and the assistant is on. \<open>race\<close> is what other
  sessions commit between the reads and the first write.\<close>

definition run_receivable_match_sweep ::
    "bool \<Rightarrow> int \<Rightarrow> (ledger \<Rightarrow> ledger) \<Rightarrow> datetime \<Rightarrow> ledger \<Rightarrow> int list \<times> ledger" where
  "run_receivable_match_sweep enabled chat_id race now L =
     (if \<not> enabled then ([], L)
      else
        let rvs = map (receivable_read L) (list_receivables (Some Status_Open) L)
        in if rvs = [] then ([], L)
           else queue_prompts chat_id rvs (identifiers L) (sweep_rows now L) (race L))"

section \<open>The tap\<close>

datatype tap_reply =
  Already_Handled | Stale_Button | Not_Linked | Receivable_Changed | Refused ledger_error | Tap_Linked

definition resolve_reply :: "int \<Rightarrow> int \<Rightarrow> ledger \<Rightarrow> message_context option" where
  "resolve_reply chat_id message_id L =
     find (\<lambda>c. mc_chat_id c = chat_id \<and> mc_message_id c = message_id) (contexts L)"

definition resolve_prompt :: "datetime \<Rightarrow> match_prompt \<Rightarrow> prompt_status \<Rightarrow> ledger \<Rightarrow> ledger" where
  "resolve_prompt now p status L =
     L\<lparr>prompts := update_where (\<lambda>q. mp_id q = mp_id p)
                   (\<lambda>q. q\<lparr>mp_status := status, mp_resolved_at := Some now\<rparr>) (prompts L)\<rparr>"

text \<open>The row still fits the receivable.\<close>

definition still_fits :: "ledger \<Rightarrow> receivable_row \<Rightarrow> txn \<Rightarrow> bool" where
  "still_fits L r t \<longleftrightarrow>
     rc_status r = Status_Open \<and> t_voided t \<noteq> Some True \<and>
     t_direction t = role_direction (rc_kind r) Payment \<and>
     rv_outstanding (receivable_read L r) = t_amount t \<and>
     identity t (receivable_read L r) (identifiers L) \<noteq> None"

definition resolve_match_tap ::
    "datetime \<Rightarrow> int \<Rightarrow> int option \<Rightarrow> int \<Rightarrow> int \<Rightarrow> ledger \<Rightarrow> (tap_reply \<times> bool) \<times> ledger" where
  "resolve_match_tap now prompt_id receivable_id chat_id message_id L =
     (case find (\<lambda>p. mp_id p = prompt_id) (prompts L) of
        None \<Rightarrow> ((Already_Handled, False), L)
      | Some p \<Rightarrow>
          if mp_status p \<noteq> Prompt_Pending then ((Already_Handled, False), L)
          else
            case resolve_reply chat_id message_id L of
              None \<Rightarrow> ((Stale_Button, False), L)
            | Some tapped \<Rightarrow>
                if mc_outbound_delivery_id tapped \<noteq> mp_delivery_id p then ((Stale_Button, False), L)
                else
                  case receivable_id of
                    None \<Rightarrow> ((Not_Linked, True), resolve_prompt now p Prompt_Dismissed L)
                  | Some i \<Rightarrow>
                      case (if i \<in> set (mp_candidates p) then get_receivable i L else None,
                            get_txn (mp_transaction p) (lg_db L)) of
                        (Some r, Some t) \<Rightarrow>
                          if \<not> still_fits L r t then ((Receivable_Changed, False), L)
                          else
                            (case attach_link now r (t_id t) Payment L of
                               Inl e \<Rightarrow> ((Refused e, False), L)
                             | Inr (r', L') \<Rightarrow>
                                 case commit_links (r', resolve_prompt now p Prompt_Linked L') of
                                   Inl e \<Rightarrow> ((Refused e, False), L)
                                 | Inr (_, L'') \<Rightarrow> ((Tap_Linked, True), L''))
                      | _ \<Rightarrow> ((Receivable_Changed, False), L))"

section \<open>The ledger machine\<close>

text \<open>A transaction row is deleted once its references are moved.\<close>

definition delete_txn :: "int \<Rightarrow> ledger \<Rightarrow> ledger" where
  "delete_txn i L =
     L\<lparr>lg_db := (lg_db L)\<lparr>transactions := filter (\<lambda>t. t_id t \<noteq> i) (transactions (lg_db L))\<rparr>\<rparr>"

text \<open>Every operation on the ledger in any order, and the other writers of the shared database,
  which keep the direction of a row and do not delete one that is linked.\<close>

inductive ledger_step :: "ledger \<Rightarrow> ledger \<Rightarrow> bool" where
  create: "0 < cp_amount p \<Longrightarrow> ledger_step L (after L (create_receivable now p L))"
| update: "r \<in> set (receivables L) \<Longrightarrow> (\<And>a. up_amount p = Some a \<Longrightarrow> 0 < a) \<Longrightarrow>
    ledger_step L (snd (update_receivable now r p L))"
| add: "r \<in> set (receivables L) \<Longrightarrow> ledger_step L (after L (add_link now r i role L))"
| remove: "ledger_step L (snd (remove_link i tid L))"
| merge: "old \<noteq> keeper \<Longrightarrow> get_txn old (lg_db L) = Some t \<Longrightarrow> get_txn keeper (lg_db L) = Some u \<Longrightarrow>
    t_direction t = t_direction u \<Longrightarrow>
    ledger_step L (delete_txn old (snd (move_receivable_links now old (Some keeper) L)))"
| drop: "ledger_step L (delete_txn old (snd (move_receivable_links now old None L)))"
| learn: "store_identifier person kind v (identifiers L) = Some (row, table) \<Longrightarrow>
    ledger_step L (L\<lparr>identifiers := table\<rparr>)"
| prompt: "queue_prompt t matches chat_id L = Some (i, L') \<Longrightarrow> ledger_step L L'"
| tap: "ledger_step L (snd (resolve_match_tap now prompt_id receivable_id chat_id message_id L))"
| other: "(\<And>l t. l \<in> set (links L) \<Longrightarrow> get_txn (ln_transaction l) (lg_db L) = Some t \<Longrightarrow>
      \<exists>u. get_txn (ln_transaction l) d' = Some u \<and> t_direction u = t_direction t) \<Longrightarrow>
    ledger_step L (L\<lparr>lg_db := d', contexts := cs\<rparr>)"

definition row_ok :: "receivable_row \<Rightarrow> bool" where
  "row_ok r \<longleftrightarrow> 0 < rc_amount r \<and> (rc_closed_at r = None) = (rc_status r = Status_Open)"

definition prompt_ok :: "match_prompt \<Rightarrow> bool" where
  "prompt_ok p \<longleftrightarrow> (mp_resolved_at p = None) = (mp_status p = Prompt_Pending)"

definition kinds :: "receivable_row list \<Rightarrow> (int \<times> receivable_kind) list" where
  "kinds rows = map (\<lambda>r. (rc_id r, rc_kind r)) rows"

definition link_ok :: "db \<Rightarrow> (int \<times> receivable_kind) list \<Rightarrow> receivable_link \<Rightarrow> bool" where
  "link_ok d ks l \<longleftrightarrow>
     list_ex (\<lambda>(i, k). i = ln_receivable l \<and>
       (case get_txn (ln_transaction l) d of
          None \<Rightarrow> False | Some t \<Rightarrow> t_direction t = role_direction k (ln_role l))) ks"

definition ledger_ok :: "ledger \<Rightarrow> bool" where
  "ledger_ok L \<longleftrightarrow>
     distinct (map rc_id (receivables L)) \<and> list_all row_ok (receivables L) \<and>
     links_unique (links L) \<and> list_all (link_ok (lg_db L) (kinds (receivables L))) (links L) \<and>
     distinct (identifiers L) \<and>
     distinct (map mp_transaction (prompts L)) \<and> list_all prompt_ok (prompts L)"

end
