(* ===== verification/Ledger_Facts.thy ===== *)
theory Ledger_Facts
  imports Receivable_Matches
begin

text \<open>
  The invariant of the receivables ledger over every run, the sum that counts each payment row once,
  what a merge does to the links, and what a tap can and cannot link.
\<close>

section \<open>Small facts\<close>

lemma settle_if_paid_frame [simp]:
  "rc_id (settle_if_paid now d ls r) = rc_id r" "rc_kind (settle_if_paid now d ls r) = rc_kind r"
  "rc_amount (settle_if_paid now d ls r) = rc_amount r" "rc_person (settle_if_paid now d ls r) = rc_person r"
  by (simp_all add: settle_if_paid_def)

lemma settle_if_paid_ok: "row_ok r \<Longrightarrow> row_ok (settle_if_paid now d ls r)"
  by (simp add: settle_if_paid_def row_ok_def)

lemma distinct_snoc: "distinct (xs @ [x]) \<longleftrightarrow> distinct xs \<and> x \<notin> set xs"
  by auto

lemma kinds_simps [simp]:
  "kinds [] = []" "kinds (r # rows) = (rc_id r, rc_kind r) # kinds rows" "kinds (a @ b) = kinds a @ kinds b"
  "map fst (kinds rows) = map rc_id rows"
  by (simp_all add: kinds_def)

lemma update_where_kinds:
  assumes "\<And>r. r \<in> set rows \<Longrightarrow> P r \<Longrightarrow> rc_id (f r) = rc_id r \<and> rc_kind (f r) = rc_kind r"
  shows "kinds (update_where P f rows) = kinds rows" "map rc_id (update_where P f rows) = map rc_id rows"
  using assms by (induction rows) auto

lemma update_where_all:
  "list_all Q rows \<Longrightarrow> (\<And>r. Q r \<Longrightarrow> P r \<Longrightarrow> Q (f r)) \<Longrightarrow> list_all Q (update_where P f rows)"
  by (induction rows) auto

lemma same_id_same_row:
  "distinct (map rc_id rows) \<Longrightarrow> q \<in> set rows \<Longrightarrow> r \<in> set rows \<Longrightarrow> rc_id q = rc_id r \<Longrightarrow> q = r"
  by (auto simp: distinct_map dest: inj_onD)

text \<open>Writing back a changed row keeps the table well formed.\<close>

lemma write_row:
  assumes "distinct (map rc_id rows)" "list_all row_ok rows" "r \<in> set rows"
    "row_ok r'" "rc_id r' = rc_id r" "rc_kind r' = rc_kind r"
  defines "rows' \<equiv> update_where (\<lambda>q. rc_id q = rc_id r) (\<lambda>_. r') rows"
  shows "distinct (map rc_id rows')" "list_all row_ok rows'" "kinds rows' = kinds rows"
proof -
  have same: "\<And>q. q \<in> set rows \<Longrightarrow> rc_id q = rc_id r \<Longrightarrow> rc_id r' = rc_id q \<and> rc_kind r' = rc_kind q"
    using assms same_id_same_row by metis
  have "kinds rows' = kinds rows" "map rc_id rows' = map rc_id rows"
    unfolding rows'_def by (rule update_where_kinds, use same in blast)+
  then show "distinct (map rc_id rows')" "kinds rows' = kinds rows" using assms(1) by simp_all
  show "list_all row_ok rows'" unfolding rows'_def by (rule update_where_all) (use assms in auto)
qed

section \<open>Identifiers\<close>

lemma insert_identifier_distinct: "distinct rows \<Longrightarrow> distinct (insert_identifier k kv rows)"
  by (simp add: insert_identifier_def Let_def)

lemma store_identifiers_distinct: "distinct rows \<Longrightarrow> distinct (store_identifiers p found rows)"
proof -
  have "distinct rows \<Longrightarrow> distinct (fold (insert_identifier k) kvs rows)" for k kvs
    by (induction kvs arbitrary: rows) (auto intro: insert_identifier_distinct)
  then show "distinct rows \<Longrightarrow> distinct (store_identifiers p found rows)" by (simp add: store_identifiers_def)
qed

lemma learn_identifiers_distinct: "distinct rows \<Longrightarrow> distinct (learn_identifiers p t rows)"
  by (simp add: learn_identifiers_def store_identifiers_distinct)

lemma rename_identifiers_distinct: "distinct rows \<Longrightarrow> distinct (rename_identifiers others old new rows)"
  by (simp add: rename_identifiers_def Let_def store_identifiers_distinct)

lemma fold_learn_distinct:
  "distinct rows \<Longrightarrow>
   distinct (fold (\<lambda>(t, role). if role = Payment then learn_identifiers p t else id) found rows)"
  by (induction found arbitrary: rows) (auto split: prod.splits intro: learn_identifiers_distinct)

lemma store_identifier_distinct: "store_identifier p k v rows = Some (row, table) \<Longrightarrow> distinct rows \<Longrightarrow> distinct table"
  by (auto simp: store_identifier_def store_identifiers_distinct split: option.splits)

section \<open>Links\<close>

lemma linkable_Inr: "linkable d i k role = Inr t \<Longrightarrow> get_txn i d = Some t \<and> t_id t = i \<and> t_direction t = role_direction k role"
  by (auto simp: linkable_def dest: get_txn_Some split: option.splits if_splits)

lemma linkables_Inr:
  "linkables d k wanted = Inr found \<Longrightarrow>
   map (\<lambda>(t, role). (t_id t, role)) found = wanted \<and>
   list_all (\<lambda>(t, role). linkable d (t_id t) k role = Inr t) found"
proof (induction wanted arbitrary: found)
  case (Cons w wanted)
  obtain i role where w: "w = (i, role)" by (cases w)
  obtain t ts where t: "linkable d i k role = Inr t" "linkables d k wanted = Inr ts" "found = (t, role) # ts"
    using Cons.prems by (auto simp: w split: sum.splits)
  moreover have "t_id t = i" using linkable_Inr[OF t(1)] by blast
  ultimately show ?case using Cons.IH[OF t(2)] by (simp add: w)
qed simp

lemma link_ok_more: "link_ok d ks l \<Longrightarrow> link_ok d (ks @ ks2) l"
  by (simp add: link_ok_def)

lemma link_ok_new: "linkable d i k role = Inr t \<Longrightarrow> (rid, k) \<in> set ks \<Longrightarrow>
    link_ok d ks \<lparr>ln_receivable = rid, ln_transaction = t_id t, ln_role = role\<rparr>"
  by (frule linkable_Inr) (force simp: link_ok_def list_ex_iff)

lemma links_unique_filter: "links_unique ls \<Longrightarrow> links_unique (filter P ls)"
  by (auto simp: links_unique_def distinct_map inj_on_def)

lemma link_ok_rows:
  assumes "link_ok d (kinds rows) l"
  shows "\<exists>r \<in> set rows. \<exists>t. rc_id r = ln_receivable l \<and> get_txn (ln_transaction l) d = Some t \<and>
    t_direction t = role_direction (rc_kind r) (ln_role l)"
  using assms by (auto simp: link_ok_def list_ex_iff kinds_def split: option.splits)

lemma link_ok_db:
  assumes "link_ok d ks l"
    "\<And>t. get_txn (ln_transaction l) d = Some t \<Longrightarrow> \<exists>u. get_txn (ln_transaction l) d' = Some u \<and> t_direction u = t_direction t"
  shows "link_ok d' ks l"
  using assms by (fastforce simp: link_ok_def list_ex_iff split: option.splits)

section \<open>The invariant\<close>

lemma create_ok:
  assumes ok: "ledger_ok L" and pos: "0 < cp_amount p"
  shows "ledger_ok (after L (create_receivable now p L))"
proof (cases "create_receivable now p L")
  case (Inr rL)
  let ?wanted = "map (\<lambda>i. (i, Charge)) (cp_charges p) @ map (\<lambda>i. (i, Payment)) (cp_payments p)"
  let ?i = "next_id (map rc_id (receivables L))"
  obtain r L' where rL: "rL = (r, L')" by (cases rL)
  have b: "build_receivable now p L = Inr (r, L')" and u: "links_unique (links L')"
    using Inr rL by (auto simp: create_receivable_def commit_links_def split: sum.splits if_splits)
  obtain found where f: "linkables (lg_db L) (cp_kind p) ?wanted = Inr found"
    using b by (auto simp: build_receivable_def Let_def split: if_splits sum.splits)
  let ?new = "map (\<lambda>(t, role). \<lparr>ln_receivable = ?i, ln_transaction = t_id t, ln_role = role\<rparr>) found"
  have rows: "r = settle_if_paid now (lg_db L) ?new
      \<lparr>rc_id = ?i, rc_kind = cp_kind p, rc_person = cp_person p, rc_amount = cp_amount p,
       rc_note = cp_note p, rc_status = Status_Open, rc_created_at = now, rc_closed_at = None\<rparr>"
    and L': "lg_db L' = lg_db L" "receivables L' = receivables L @ [r]" "links L' = links L @ ?new"
      "prompts L' = prompts L" "distinct (identifiers L')"
    using b f ok by (auto simp: build_receivable_def Let_def ledger_ok_def intro: fold_learn_distinct split: if_splits)
  have r: "row_ok r" "rc_id r = ?i" "rc_kind r = cp_kind p"
    unfolding rows by (rule settle_if_paid_ok) (simp_all add: row_ok_def pos)
  have new: "list_all (link_ok (lg_db L) (kinds (receivables L')))  ?new"
    using linkables_Inr[OF f] r L'(2) by (auto simp: list_all_iff intro: link_ok_new)
  have "list_all (link_ok (lg_db L) (kinds (receivables L'))) (links L)"
    using ok by (auto simp: ledger_ok_def list_all_iff L'(2) intro: link_ok_more)
  then have "ledger_ok L'"
    using ok u new r next_id_fresh[of "map rc_id (receivables L)"] by (simp add: ledger_ok_def L')
  then show ?thesis by (simp add: after_def Inr rL)
qed (simp add: after_def ok)

text \<open>The two operations that write one row and leave the links well formed.\<close>

lemma write_ok:
  assumes ok: "ledger_ok L" and r: "r \<in> set (receivables L)" "row_ok r'" "rc_id r' = rc_id r" "rc_kind r' = rc_kind r"
    and ls: "links_unique ls" "list_all (link_ok (lg_db L) (kinds (receivables L))) ls" and ids: "distinct ids"
  shows "ledger_ok (write_receivable r' (L\<lparr>links := ls, identifiers := ids\<rparr>))"
proof -
  have rows: "distinct (map rc_id (receivables L))" "list_all row_ok (receivables L)"
    using ok by (simp_all add: ledger_ok_def)
  show ?thesis
    using ok ls ids write_row[OF rows r(1,2,3,4)] by (simp add: ledger_ok_def write_receivable_def r(3))
qed

lemma apply_update_row:
  assumes r: "row_ok r" and pos: "\<And>a. up_amount p = Some a \<Longrightarrow> 0 < a"
  shows "row_ok (fst (apply_update now r p L))" "rc_id (fst (apply_update now r p L)) = rc_id r"
    "rc_kind (fst (apply_update now r p L)) = rc_kind r"
proof -
  define r1 where "r1 = (case up_amount p of None \<Rightarrow> r | Some a \<Rightarrow> r\<lparr>rc_amount := a\<rparr>)"
  define r2 where "r2 = (case up_person p of None \<Rightarrow> r1 | Some n \<Rightarrow> r1\<lparr>rc_person := n\<rparr>)"
  define r3 where "r3 = (case up_note p of None \<Rightarrow> r2 | Some n \<Rightarrow> r2\<lparr>rc_note := n\<rparr>)"
  have r1: "row_ok r1" "rc_id r1 = rc_id r" "rc_kind r1 = rc_kind r"
    using r pos by (auto simp: r1_def row_ok_def split: option.splits)
  have r2: "row_ok r2" "rc_id r2 = rc_id r" "rc_kind r2 = rc_kind r"
    using r1 by (auto simp: r2_def row_ok_def split: option.splits)
  have r3: "row_ok r3" "rc_id r3 = rc_id r" "rc_kind r3 = rc_kind r"
    using r2 by (auto simp: r3_def row_ok_def split: option.splits)
  define closed where "closed =
    r3\<lparr>rc_status := the (up_status p), rc_closed_at := (if the (up_status p) = Status_Open then None else Some now)\<rparr>"
  define settled where "settled = settle_if_paid now (lg_db L) (links_of (links L) r) r3"
  have new_row: "fst (apply_update now r p L) =
      (case up_status p of
         None \<Rightarrow> if up_amount p \<noteq> None \<and> up_amount p \<noteq> Some (rc_amount r) then settled else r3
       | Some s \<Rightarrow> if s \<noteq> rc_status r then closed else r3)"
    unfolding apply_update_def Let_def closed_def settled_def r3_def r2_def r1_def
    by (cases "up_person p"; cases "up_status p"; cases "up_note p"; cases "up_amount p") simp_all
  have "row_ok closed" "rc_id closed = rc_id r" "rc_kind closed = rc_kind r" "row_ok settled"
    "rc_id settled = rc_id r" "rc_kind settled = rc_kind r"
    using r3 settle_if_paid_ok[OF r3(1)] by (simp_all add: closed_def settled_def row_ok_def)
  then show "row_ok (fst (apply_update now r p L))" "rc_id (fst (apply_update now r p L)) = rc_id r"
    "rc_kind (fst (apply_update now r p L)) = rc_kind r"
    using r3 unfolding new_row by (simp_all split: option.split)
qed

lemma apply_update_write:
  assumes "distinct (identifiers L)"
  obtains ids where "snd (apply_update now r p L) = write_receivable (fst (apply_update now r p L)) (L\<lparr>identifiers := ids\<rparr>)"
    "distinct ids"
proof (cases "up_person p")
  case None
  then show ?thesis using assms by (intro that[of "identifiers L"]) (simp_all add: apply_update_def Let_def)
next
  case (Some n)
  let ?ids = "rename_identifiers (map rc_person (filter (\<lambda>q. rc_id q \<noteq> rc_id r) (receivables L)))
    (rc_person (case up_amount p of None \<Rightarrow> r | Some a \<Rightarrow> r\<lparr>rc_amount := a\<rparr>)) n (identifiers L)"
  have "snd (apply_update now r p L) = write_receivable (fst (apply_update now r p L)) (L\<lparr>identifiers := ?ids\<rparr>)"
    by (simp add: apply_update_def Let_def Some)
  then show ?thesis by (rule that) (rule rename_identifiers_distinct, fact assms)
qed

lemma update_ok:
  assumes ok: "ledger_ok L" and r: "r \<in> set (receivables L)" and pos: "\<And>a. up_amount p = Some a \<Longrightarrow> 0 < a"
  shows "ledger_ok (snd (update_receivable now r p L))"
proof -
  have "row_ok r" "distinct (identifiers L)" using ok r by (auto simp: ledger_ok_def list_all_iff)
  note row = apply_update_row[of r p now L, OF this(1) pos]
  obtain ids where u: "snd (apply_update now r p L) = write_receivable (fst (apply_update now r p L)) (L\<lparr>identifiers := ids\<rparr>)"
    "distinct ids" using apply_update_write[OF \<open>distinct (identifiers L)\<close>] .
  have same: "L\<lparr>identifiers := ids\<rparr> = L\<lparr>links := links L, identifiers := ids\<rparr>" by simp
  show ?thesis unfolding update_receivable_def u(1)
    by (subst same) (rule write_ok[OF ok r row], use ok u in \<open>auto simp: ledger_ok_def\<close>)
qed

lemma attach_Inr:
  assumes "attach_link now r i role L = Inr (r', L')"
  obtains t ids where "linkable (lg_db L) i (rc_kind r) role = Inr t" "t_id t = i"
    "distinct (identifiers L) \<longrightarrow> distinct ids"
    "L' = write_receivable r'
       (L\<lparr>links := links L @ [\<lparr>ln_receivable = rc_id r, ln_transaction = i, ln_role = role\<rparr>], identifiers := ids\<rparr>)"
    "r' = (if role = Payment then settle_if_paid now (lg_db L)
       (links_of (links L @ [\<lparr>ln_receivable = rc_id r, ln_transaction = i, ln_role = role\<rparr>]) r) r else r)"
proof (cases "linkable (lg_db L) i (rc_kind r) role")
  case (Inr t)
  then have i: "t_id t = i" by (auto dest: linkable_Inr)
  show ?thesis
  proof (cases role)
    case Charge
    show ?thesis
      by (rule that[OF Inr i, of "identifiers L"]) (use assms in \<open>auto simp: attach_link_def Let_def Inr[unfolded Charge] i Charge\<close>)
  next
    case Payment
    show ?thesis
      by (rule that[OF Inr i, of "learn_identifiers (rc_person r) t (identifiers L)"])
        (use assms in \<open>auto simp: attach_link_def Let_def Inr[unfolded Payment] i Payment intro: learn_identifiers_distinct\<close>)
  qed
qed (use assms in \<open>simp add: attach_link_def\<close>)

lemma attach_ok:
  assumes "attach_link now r i role L = Inr (r', L')" "links_unique (links L')"
    and ok: "ledger_ok L" and r: "r \<in> set (receivables L)"
  shows "ledger_ok L'"
proof -
  obtain t ids where a: "linkable (lg_db L) i (rc_kind r) role = Inr t" "t_id t = i"
    "distinct (identifiers L) \<longrightarrow> distinct ids"
    "L' = write_receivable r'
       (L\<lparr>links := links L @ [\<lparr>ln_receivable = rc_id r, ln_transaction = i, ln_role = role\<rparr>], identifiers := ids\<rparr>)"
    "r' = (if role = Payment then settle_if_paid now (lg_db L)
       (links_of (links L @ [\<lparr>ln_receivable = rc_id r, ln_transaction = i, ln_role = role\<rparr>]) r) r else r)"
    using attach_Inr[OF assms(1)] by metis
  have k: "(rc_id r, rc_kind r) \<in> set (kinds (receivables L))" using r by (auto simp: kinds_def)
  have r': "row_ok r'" "rc_id r' = rc_id r" "rc_kind r' = rc_kind r"
    using ok r by (simp_all add: a(5) settle_if_paid_ok ledger_ok_def list_all_iff)
  show ?thesis unfolding a(4)
    by (rule write_ok[OF ok r r'])
      (use ok assms(2) link_ok_new[OF a(1) k] in \<open>simp_all add: a(2,3) ledger_ok_def a(4) write_receivable_def\<close>)
qed

lemma add_ok:
  assumes "ledger_ok L" "r \<in> set (receivables L)"
  shows "ledger_ok (after L (add_link now r i role L))"
  using assms attach_ok
  by (auto simp: add_link_def after_def commit_links_def split: sum.splits if_splits)

lemma remove_ok: "ledger_ok L \<Longrightarrow> ledger_ok (snd (remove_link i tid L))"
  by (auto simp: ledger_ok_def remove_link_def Let_def links_unique_filter list_all_iff)

lemma drop_prompt_frame [simp]:
  "links (drop_prompt old L) = links L" "receivables (drop_prompt old L) = receivables L"
  "identifiers (drop_prompt old L) = identifiers L" "get_txn i (lg_db (drop_prompt old L)) = get_txn i (lg_db L)"
  "transactions (lg_db (drop_prompt old L)) = transactions (lg_db L)"
  by (simp_all add: drop_prompt_def Let_def get_txn_def)

lemma drop_prompt_link_ok [simp]: "link_ok (lg_db (drop_prompt old L)) = link_ok (lg_db L)"
  by (intro ext) (simp add: link_ok_def)

lemma drop_prompt_ok: "ledger_ok L \<Longrightarrow> ledger_ok (drop_prompt old L)"
proof -
  assume ok: "ledger_ok L"
  have "distinct (map mp_transaction (prompts (drop_prompt old L))) \<and> list_all prompt_ok (prompts (drop_prompt old L))"
    using ok by (simp add: drop_prompt_def Let_def ledger_ok_def list_all_iff distinct_map_filter)
  then show ?thesis using ok by (simp add: ledger_ok_def)
qed

lemma get_txn_delete: "get_txn i (lg_db (delete_txn j L)) = (if i = j then None else get_txn i (lg_db L))"
proof -
  have "find (\<lambda>t. t_id t = i) (filter (\<lambda>t. t_id t \<noteq> j) ts) = (if i = j then None else find (\<lambda>t. t_id t = i) ts)" for ts
    by (induction ts) auto
  from this[of "transactions (lg_db L)"] show ?thesis
    unfolding get_txn_def by (simp add: delete_txn_def)
qed

lemma delete_frame [simp]:
  "links (delete_txn i L) = links L" "receivables (delete_txn i L) = receivables L"
  "identifiers (delete_txn i L) = identifiers L" "prompts (delete_txn i L) = prompts L"
  by (simp_all add: delete_txn_def)

lemma delete_ok:
  assumes "ledger_ok L" "list_all (\<lambda>l. ln_transaction l \<noteq> i) (links L)"
  shows "ledger_ok (delete_txn i L)"
proof -
  have "link_ok (lg_db (delete_txn i L)) ks l = link_ok (lg_db L) ks l" if "l \<in> set (links L)" for ks l
    using assms(2) that by (simp add: link_ok_def get_txn_delete list_all_iff)
  then show ?thesis using assms(1) by (simp add: ledger_ok_def list_all_iff)
qed

text \<open>A merge: the links that stay, and their new form.\<close>

definition merge_drops :: "receivable_link list \<Rightarrow> int \<Rightarrow> int \<Rightarrow> receivable_link \<Rightarrow> bool" where
  "merge_drops ls old keeper l \<longleftrightarrow>
     ln_transaction l = old \<and>
     (list_ex (\<lambda>m. ln_transaction m = keeper \<and> ln_receivable m = ln_receivable l) ls \<or>
      ln_role l = Payment \<and> list_ex (\<lambda>m. ln_transaction m = keeper \<and> ln_role m = Payment) ls)"

definition repoint :: "int \<Rightarrow> int \<Rightarrow> receivable_link \<Rightarrow> receivable_link" where
  "repoint old keeper l = (if ln_transaction l = old then l\<lparr>ln_transaction := keeper\<rparr> else l)"

lemma repoint_simps [simp]:
  "ln_receivable (repoint old keeper l) = ln_receivable l" "ln_role (repoint old keeper l) = ln_role l"
  "ln_transaction (repoint old keeper l) = (if ln_transaction l = old then keeper else ln_transaction l)"
  by (simp_all add: repoint_def)

lemma move_links:
  "links (snd (move_receivable_links now old (Some keeper) L)) =
     map (repoint old keeper) (filter (\<lambda>l. \<not> merge_drops (links L) old keeper l) (links L))"
proof -
  have eq: "(\<lambda>l. \<not> (ln_transaction l = old \<and>
        (ln_receivable l \<in> set (map ln_receivable (filter (\<lambda>l. ln_transaction l = keeper) (links L))) \<or>
         ln_role l = Payment \<and> list_ex (\<lambda>l. ln_transaction l = keeper \<and> ln_role l = Payment) (links L)))) =
      (\<lambda>l. \<not> merge_drops (links L) old keeper l)"
    by (rule ext) (force simp: merge_drops_def list_ex_iff image_iff)
  have "update_where (\<lambda>l. ln_transaction l = old) (\<lambda>l. l\<lparr>ln_transaction := keeper\<rparr>) = map (repoint old keeper)"
    by (rule ext) (simp add: update_where_def repoint_def)
  then show ?thesis by (simp only: move_receivable_links_def Let_def option.case snd_conv drop_prompt_frame eq) simp
qed

lemma move_links_unique:
  assumes "links_unique ls" "old \<noteq> keeper"
  shows "links_unique (map (repoint old keeper) (filter (\<lambda>l. \<not> merge_drops ls old keeper l) ls))"
proof -
  let ?rest = "filter (\<lambda>l. \<not> merge_drops ls old keeper l) ls"
  have u: "distinct ls" "inj_on (\<lambda>l. (ln_receivable l, ln_transaction l)) (set ls)"
    "inj_on ln_transaction (set (filter (\<lambda>l. ln_role l = Payment) ls))"
    using assms(1) by (auto simp: links_unique_def distinct_map)
  have pairs: "inj_on ((\<lambda>l. (ln_receivable l, ln_transaction l)) \<circ> repoint old keeper) (set ?rest)"
  proof (rule inj_onI)
    fix x y
    assume a: "x \<in> set ?rest" "y \<in> set ?rest"
      "((\<lambda>l. (ln_receivable l, ln_transaction l)) \<circ> repoint old keeper) x =
       ((\<lambda>l. (ln_receivable l, ln_transaction l)) \<circ> repoint old keeper) y"
    have "ln_transaction x = ln_transaction y"
      using a by (auto simp: merge_drops_def list_ex_iff split: if_splits)
    then show "x = y" using a u(2) by (auto dest: inj_onD)
  qed
  have pays: "inj_on (ln_transaction \<circ> repoint old keeper) (set (filter (\<lambda>l. ln_role l = Payment) ?rest))"
  proof (rule inj_onI)
    fix x y
    assume a: "x \<in> set (filter (\<lambda>l. ln_role l = Payment) ?rest)" "y \<in> set (filter (\<lambda>l. ln_role l = Payment) ?rest)"
      "(ln_transaction \<circ> repoint old keeper) x = (ln_transaction \<circ> repoint old keeper) y"
    have "ln_transaction x = ln_transaction y"
      using a by (auto simp: merge_drops_def list_ex_iff split: if_splits)
    then show "x = y" using a u(3) by (auto dest: inj_onD)
  qed
  have "filter (\<lambda>l. ln_role l = Payment) (map (repoint old keeper) ?rest) =
      map (repoint old keeper) (filter (\<lambda>l. ln_role l = Payment) ?rest)"
    by (simp add: filter_map comp_def)
  then show ?thesis
    using pairs pays u(1) unfolding links_unique_def
    by (simp only: map_map distinct_map) (simp add: comp_def)
qed

lemma move_rows:
  "kinds (receivables (snd (move_receivable_links now old new L))) = kinds (receivables L)"
  "map rc_id (receivables (snd (move_receivable_links now old new L))) = map rc_id (receivables L)"
  by (simp_all add: move_receivable_links_def Let_def update_where_kinds split: option.split)

lemma move_rows_ok:
  "list_all row_ok (receivables L) \<Longrightarrow> list_all row_ok (receivables (snd (move_receivable_links now old new L)))"
  by (cases new) (auto simp: move_receivable_links_def Let_def intro: update_where_all settle_if_paid_ok)

lemma move_rest:
  "lg_db (snd (move_receivable_links now old new L)) = lg_db (drop_prompt old L)"
  "identifiers (snd (move_receivable_links now old new L)) = identifiers L"
  "prompts (snd (move_receivable_links now old new L)) = prompts (drop_prompt old L)"
  by (simp_all add: move_receivable_links_def Let_def split: option.split)

lemma link_ok_repoint:
  assumes "link_ok d ks l" "get_txn old d = Some t" "get_txn keeper d = Some u" "t_direction t = t_direction u"
  shows "link_ok d ks (repoint old keeper l)"
proof (cases "ln_transaction l = old")
  case True
  then obtain k where "(ln_receivable l, k) \<in> set ks" "t_direction t = role_direction k (ln_role l)"
    using assms(1,2) by (auto simp: link_ok_def list_ex_iff)
  then show ?thesis using assms(3,4) True by (force simp: link_ok_def list_ex_iff)
qed (use assms(1) in \<open>simp add: repoint_def\<close>)

lemma merge_ok:
  assumes ok: "ledger_ok L" and pair: "old \<noteq> keeper" "get_txn old (lg_db L) = Some t" "get_txn keeper (lg_db L) = Some u"
    "t_direction t = t_direction u"
  shows "ledger_ok (delete_txn old (snd (move_receivable_links now old (Some keeper) L)))"
proof (rule delete_ok)
  let ?L = "snd (move_receivable_links now old (Some keeper) L)"
  have "list_all (link_ok (lg_db L) (kinds (receivables L))) (links ?L)"
    using ok link_ok_repoint[OF _ pair(2,3,4)] by (auto simp: move_links ledger_ok_def list_all_iff)
  then show "ledger_ok ?L"
    using ok drop_prompt_ok[OF ok, of old] move_links_unique[OF _ pair(1), of "links L"]
    by (simp add: ledger_ok_def move_rest move_rows move_rows_ok) (simp add: move_links)
  show "list_all (\<lambda>l. ln_transaction l \<noteq> old) (links ?L)"
    using pair(1) by (auto simp: move_links list_all_iff)
qed

lemma drop_ok: "ledger_ok L \<Longrightarrow> ledger_ok (delete_txn old (snd (move_receivable_links now old None L)))"
proof (rule delete_ok)
  let ?L = "snd (move_receivable_links now old None L)"
  assume ok: "ledger_ok L"
  have ls: "links ?L = filter (\<lambda>l. ln_transaction l \<noteq> old) (links L)"
    by (simp add: move_receivable_links_def Let_def)
  show "list_all (\<lambda>l. ln_transaction l \<noteq> old) (links ?L)" by (simp add: ls list_all_iff)
  have "list_all (link_ok (lg_db L) (kinds (receivables L))) (links ?L)"
    using ok by (auto simp: ls ledger_ok_def list_all_iff)
  then show "ledger_ok ?L"
    using ok drop_prompt_ok[OF ok, of old]
    by (simp add: ledger_ok_def move_rest move_rows move_rows_ok) (simp add: ls links_unique_filter)
qed

lemma queue_prompt_ok:
  assumes "queue_prompt t matches chat_id L = Some (i, L')" "ledger_ok L"
  shows "ledger_ok L'"
proof -
  have fresh: "t_id t \<notin> mp_transaction ` set (prompts L)"
    using assms(1) by (auto simp: queue_prompt_def Let_def list_ex_iff split: if_splits)
  obtain p where L': "links L' = links L" "receivables L' = receivables L" "identifiers L' = identifiers L"
    "transactions (lg_db L') = transactions (lg_db L)"
    and p: "prompts L' = prompts L @ [p]" "mp_transaction p = t_id t" "prompt_ok p"
    using assms(1) by (auto simp: queue_prompt_def Let_def prompt_ok_def split: if_splits option.splits)
  then have "link_ok (lg_db L') = link_ok (lg_db L)" by (intro ext) (simp add: link_ok_def get_txn_def)
  then show ?thesis using assms(2) L' p fresh by (simp add: ledger_ok_def)
qed

lemma resolve_prompt_ok:
  assumes "ledger_ok L" "status \<noteq> Prompt_Pending"
  shows "ledger_ok (resolve_prompt now p status L)"
proof -
  have "map mp_transaction (update_where P (\<lambda>q. q\<lparr>mp_status := status, mp_resolved_at := Some now\<rparr>) ps) = map mp_transaction ps"
    "list_all prompt_ok ps \<Longrightarrow> list_all prompt_ok (update_where P (\<lambda>q. q\<lparr>mp_status := status, mp_resolved_at := Some now\<rparr>) ps)"
    for P ps
    using assms(2) by (induction ps) (auto simp: prompt_ok_def)
  then show ?thesis using assms(1) by (simp add: ledger_ok_def resolve_prompt_def)
qed

text \<open>A tap changes the ledger only when it dismisses the prompt or links the row.\<close>

lemma tap_cases:
  obtains
    (same) "fst (fst (resolve_match_tap now pid rid chat msg L)) \<notin> {Not_Linked, Tap_Linked}"
      "snd (resolve_match_tap now pid rid chat msg L) = L"
  | (dismissed) p where "fst (resolve_match_tap now pid rid chat msg L) = (Not_Linked, True)"
      "snd (resolve_match_tap now pid rid chat msg L) = resolve_prompt now p Prompt_Dismissed L"
  | (linked) p c i r t r' L' where "fst (resolve_match_tap now pid rid chat msg L) = (Tap_Linked, True)"
      "snd (resolve_match_tap now pid rid chat msg L) = resolve_prompt now p Prompt_Linked L'"
      "find (\<lambda>p. mp_id p = pid) (prompts L) = Some p" "mp_status p = Prompt_Pending"
      "resolve_reply chat msg L = Some c" "mc_outbound_delivery_id c = mp_delivery_id p"
      "rid = Some i" "i \<in> set (mp_candidates p)" "get_receivable i L = Some r"
      "get_txn (mp_transaction p) (lg_db L) = Some t" "still_fits L r t"
      "attach_link now r (t_id t) Payment L = Inr (r', L')" "links_unique (links L')"
proof -
  show thesis
  proof (cases "find (\<lambda>p. mp_id p = pid) (prompts L)")
    case None
    then show thesis by (intro same) (simp_all add: resolve_match_tap_def)
  next
    case p: (Some p)
    show thesis
    proof (cases "mp_status p = Prompt_Pending \<and>
        (\<exists>c. resolve_reply chat msg L = Some c \<and> mc_outbound_delivery_id c = mp_delivery_id p)")
      case False
      then show thesis by (intro same) (auto simp: resolve_match_tap_def p split: option.splits)
    next
      case True
      then obtain c where c: "mp_status p = Prompt_Pending" "resolve_reply chat msg L = Some c"
        "mc_outbound_delivery_id c = mp_delivery_id p" by blast
      show thesis
      proof (cases rid)
        case None
        then show thesis by (intro dismissed[of p]) (simp_all add: resolve_match_tap_def p c)
      next
        case i: (Some i)
        show thesis
        proof (cases "\<exists>r t. i \<in> set (mp_candidates p) \<and> get_receivable i L = Some r \<and>
            get_txn (mp_transaction p) (lg_db L) = Some t \<and> still_fits L r t")
          case False
          then show thesis by (intro same) (auto simp: resolve_match_tap_def p c i split: option.splits)
        next
          case True
          then obtain r t where rt: "i \<in> set (mp_candidates p)" "get_receivable i L = Some r"
            "get_txn (mp_transaction p) (lg_db L) = Some t" "still_fits L r t" by blast
          show thesis
          proof (cases "attach_link now r (t_id t) Payment L")
            case (Inl e)
            then show thesis by (intro same) (simp_all add: resolve_match_tap_def p c i rt)
          next
            case a: (Inr rL)
            obtain r' L' where rL: "rL = (r', L')" by (cases rL)
            have ls: "links (resolve_prompt now p Prompt_Linked L') = links L'" by (simp add: resolve_prompt_def)
            show thesis
            proof (cases "links_unique (links L')")
              case True
              then show thesis
                by (intro linked[of p L' c i r t r']) (simp_all add: resolve_match_tap_def p c i rt a rL commit_links_def ls)
            next
              case False
              then show thesis by (intro same) (simp_all add: resolve_match_tap_def p c i rt a rL commit_links_def ls)
            qed
          qed
        qed
      qed
    qed
  qed
qed

lemma attach_pays:
  assumes "attach_link now r i Payment L = Inr (r', L')" "get_txn i (lg_db L) = Some t"
  shows "links L' = links L @ [\<lparr>ln_receivable = rc_id r, ln_transaction = i, ln_role = Payment\<rparr>]"
    "lg_db L' = lg_db L" "rc_id r' = rc_id r" "rc_amount r' = rc_amount r" "prompts L' = prompts L"
    "paid L' r' = paid L r + t_amount t"
    "rc_status r = Status_Open \<Longrightarrow> rc_amount r \<le> paid L r + t_amount t \<Longrightarrow>
       rc_status r' = Status_Settled \<and> rc_closed_at r' = Some now"
    "receivables L' = update_where (\<lambda>q. rc_id q = rc_id r) (\<lambda>_. r') (receivables L)"
proof -
  obtain u ids where a: "L' = write_receivable r'
       (L\<lparr>links := links L @ [\<lparr>ln_receivable = rc_id r, ln_transaction = i, ln_role = Payment\<rparr>], identifiers := ids\<rparr>)"
    "r' = settle_if_paid now (lg_db L)
       (links_of (links L @ [\<lparr>ln_receivable = rc_id r, ln_transaction = i, ln_role = Payment\<rparr>]) r) r"
    by (rule attach_Inr[OF assms(1)]) simp
  have sum: "paid_by (lg_db L) (links_of (links L @ [\<lparr>ln_receivable = rc_id r, ln_transaction = i, ln_role = Payment\<rparr>]) r) =
      paid L r + t_amount t"
    by (simp add: paid_def paid_by_def links_of_def link_amount_def assms(2))
  show id: "rc_id r' = rc_id r" "rc_amount r' = rc_amount r" by (simp_all add: a(2))
  show ls: "links L' = links L @ [\<lparr>ln_receivable = rc_id r, ln_transaction = i, ln_role = Payment\<rparr>]"
    "lg_db L' = lg_db L" "prompts L' = prompts L"
    "receivables L' = update_where (\<lambda>q. rc_id q = rc_id r) (\<lambda>_. r') (receivables L)"
    by (simp_all add: a(1) write_receivable_def id(1))
  show "paid L' r' = paid L r + t_amount t"
    using sum by (simp add: paid_def ls(1,2) links_of_def id(1))
  show "rc_status r = Status_Open \<Longrightarrow> rc_amount r \<le> paid L r + t_amount t \<Longrightarrow>
       rc_status r' = Status_Settled \<and> rc_closed_at r' = Some now"
    by (simp add: a(2) settle_if_paid_def sum)
qed

lemma tap_ok: "ledger_ok L \<Longrightarrow> ledger_ok (snd (resolve_match_tap now pid rid chat msg L))"
proof -
  assume ok: "ledger_ok L"
  show ?thesis
  proof (cases rule: tap_cases[of now pid rid chat msg L])
    case same
    then show ?thesis using ok by simp
  next
    case (dismissed p)
    then show ?thesis using ok resolve_prompt_ok by simp
  next
    case (linked p c i r t r' L')
    have "r \<in> set (receivables L)" using linked(9) by (auto simp: get_receivable_def find_Some_iff)
    then show ?thesis
      using attach_ok[OF linked(12,13) ok] resolve_prompt_ok linked(2) by simp
  qed
qed

lemma other_ok:
  assumes "ledger_ok L"
    "\<And>l t. l \<in> set (links L) \<Longrightarrow> get_txn (ln_transaction l) (lg_db L) = Some t \<Longrightarrow>
      \<exists>u. get_txn (ln_transaction l) d' = Some u \<and> t_direction u = t_direction t"
  shows "ledger_ok (L\<lparr>lg_db := d', contexts := cs\<rparr>)"
proof -
  have "list_all (link_ok d' (kinds (receivables L))) (links L)"
    using assms link_ok_db by (fastforce simp: ledger_ok_def list_all_iff)
  then show ?thesis using assms(1) by (simp add: ledger_ok_def)
qed

lemma ledger_step_ok: "ledger_step L L' \<Longrightarrow> ledger_ok L \<Longrightarrow> ledger_ok L'"
proof (induction rule: ledger_step.induct)
  case (learn person kind v L row table)
  then show ?case using store_identifier_distinct by (auto simp: ledger_ok_def)
qed (simp_all add: create_ok update_ok add_ok remove_ok merge_ok drop_ok tap_ok other_ok queue_prompt_ok)

interpretation ledger: invariant_steps ledger_step ledger_ok
  by unfold_locales (rule ledger_step_ok)

section \<open>Sums and matches\<close>

lemma dsum_zero [simp]: "dsum (\<lambda>_. 0) xs = 0"
  by (induction xs) simp_all

lemma dsum_pick: "distinct (map key rows) \<Longrightarrow> k \<in> key ` set rows \<Longrightarrow> dsum (\<lambda>r. if k = key r then c else 0) rows = c"
proof (induction rows)
  case (Cons r rows)
  have "dsum (\<lambda>r. if k = key r then c else 0) rows = 0" if "k \<notin> key ` set rows"
    using that by (induction rows) auto
  then show ?case using Cons by auto
qed simp

lemma dsum_grouped:
  "distinct (map key rows) \<Longrightarrow> list_all (\<lambda>l. grp l \<in> key ` set rows) ls \<Longrightarrow>
   dsum (\<lambda>r. dsum w (filter (\<lambda>l. grp l = key r) ls)) rows = dsum w ls"
proof (induction ls)
  case (Cons l ls)
  have "dsum (\<lambda>r. dsum w (filter (\<lambda>l. grp l = key r) (l # ls))) rows =
      dsum (\<lambda>r. (if grp l = key r then w l else 0) + dsum w (filter (\<lambda>l. grp l = key r) ls)) rows"
    by (rule dsum_cong) simp
  then show ?case using Cons dsum_pick[of key rows "grp l" "w l"] by (simp add: dsum_add)
qed simp

text \<open>Each row of the table carries one link of the list at most.\<close>

lemma dsum_rows:
  fixes ts :: "txn list" and ls :: "receivable_link list"
  assumes "distinct (map t_id ts)" "distinct (map ln_transaction ls)"
    "list_all (\<lambda>l. ln_transaction l \<in> t_id ` set ts) ls"
  shows "dsum (\<lambda>l. case find (\<lambda>t. t_id t = ln_transaction l) ts of None \<Rightarrow> 0 | Some t \<Rightarrow> t_amount t) ls =
         dsum t_amount (filter (\<lambda>t. list_ex (\<lambda>l. ln_transaction l = t_id t) ls) ts)"
  using assms(2,3)
proof (induction ls)
  case (Cons l ls)
  obtain t where t: "t \<in> set ts" "t_id t = ln_transaction l" using Cons.prems(2) by auto
  have find: "find (\<lambda>u. t_id u = ln_transaction l) ts = Some t"
    using get_txn_distinct[of "empty_db\<lparr>transactions := ts\<rparr>" t] assms(1) t by (simp add: get_txn_def)
  have "dsum t_amount (filter (\<lambda>u. list_ex (\<lambda>m. ln_transaction m = t_id u) (l # ls)) ts) =
      dsum (\<lambda>u. (if ln_transaction l = t_id u then t_amount t else 0) +
                (if list_ex (\<lambda>m. ln_transaction m = t_id u) ls then t_amount u else 0)) ts"
    unfolding dsum_filter
  proof (rule dsum_cong)
    fix u
    assume u: "u \<in> set ts"
    have "u = t" if "ln_transaction l = t_id u" using assms(1) t u that by (auto simp: distinct_map dest: inj_onD)
    moreover have "\<not> list_ex (\<lambda>m. ln_transaction m = t_id u) ls" if "ln_transaction l = t_id u"
      using Cons.prems(1) that by (force simp: list_ex_iff)
    ultimately show "(if list_ex (\<lambda>m. ln_transaction m = t_id u) (l # ls) then t_amount u else 0) =
        (if ln_transaction l = t_id u then t_amount t else 0) +
        (if list_ex (\<lambda>m. ln_transaction m = t_id u) ls then t_amount u else 0)" by auto
  qed
  also have "\<dots> = t_amount t + dsum t_amount (filter (\<lambda>u. list_ex (\<lambda>m. ln_transaction m = t_id u) ls) ts)"
  proof -
    have "ln_transaction l \<in> t_id ` set ts" using t by force
    from dsum_pick[OF assms(1) this] show ?thesis by (simp add: dsum_add dsum_filter)
  qed
  finally show ?case using Cons find by simp
qed (simp add: list_ex_iff)

lemma set_order_matches [simp]: "set (order_matches ms) = set ms"
  by (simp add: order_matches_def)

lemma identity_receivable: "identity t rv table = Some m \<Longrightarrow> m_receivable m = rv"
  by (auto simp: identity_def Let_def split: if_splits)

lemma in_map_filter: "m \<in> set (List.map_filter f xs) \<Longrightarrow> \<exists>x \<in> set xs. f x = Some m"
  by (induction xs) (auto simp: List.map_filter_simps split: option.splits)

lemma in_matches:
  assumes "rv \<in> set (match_receivables t rvs table)"
  shows "rv \<in> set rvs \<and> can_pay t rv \<and> identity t rv table \<noteq> None"
proof -
  let ?f = "\<lambda>rv. if can_pay t rv then identity t rv table else None"
  obtain m where m: "m \<in> set (List.map_filter ?f rvs)" "rv = m_receivable m"
    using assms unfolding match_receivables_def Let_def
    by (simp only: split: if_splits) (auto simp del: List.map_filter_simps)
  obtain x where "x \<in> set rvs" "?f x = Some m" using in_map_filter[OF m(1)] by blast
  then show ?thesis using identity_receivable[of t x table m] m(2) by (auto split: if_splits)
qed

lemma queue_prompt_frame:
  "queue_prompt t matches chat_id L = Some (i, L') \<Longrightarrow>
   receivables L' = receivables L \<and> links L' = links L \<and> identifiers L' = identifiers L \<and>
   transactions (lg_db L') = transactions (lg_db L) \<and>
   (\<exists>p. prompts L' = prompts L @ [p] \<and> mp_transaction p = t_id t)"
  by (auto simp: queue_prompt_def Let_def split: if_splits option.splits)

lemma queue_prompt_None: "queue_prompt t matches chat_id L = None \<Longrightarrow> t_id t \<in> mp_transaction ` set (prompts L)"
  by (force simp: queue_prompt_def Let_def make_delivery_def list_ex_iff split: if_splits)

lemma queue_prompts_frame:
  "queue_prompts chat_id rvs table ts L = (sent, L') \<Longrightarrow>
   receivables L' = receivables L \<and> links L' = links L \<and> identifiers L' = identifiers L \<and>
   transactions (lg_db L') = transactions (lg_db L) \<and>
   mp_transaction ` set (prompts L) \<subseteq> mp_transaction ` set (prompts L') \<and>
   (\<forall>t \<in> set ts. match_receivables t rvs table \<noteq> [] \<longrightarrow> t_id t \<in> mp_transaction ` set (prompts L'))"
proof (induction ts arbitrary: sent L)
  case (Cons t ts)
  let ?m = "match_receivables t rvs table"
  show ?case
  proof (cases "?m = [] \<or> queue_prompt t ?m chat_id L = None")
    case True
    then have "queue_prompts chat_id rvs table ts L = (sent, L')"
      using Cons.prems by (cases "?m = []") (simp_all add: Let_def)
    note IH = Cons.IH[OF this]
    then show ?thesis using True queue_prompt_None[of t ?m chat_id L] by (simp only: list.set) blast
  next
    case False
    then obtain i L1 where q: "?m \<noteq> []" "queue_prompt t ?m chat_id L = Some (i, L1)" by auto
    obtain sent' where r: "queue_prompts chat_id rvs table ts L1 = (sent', L')"
      using Cons.prems q by (auto simp: Let_def split: prod.splits)
    have "mp_transaction ` set (prompts L1) = insert (t_id t) (mp_transaction ` set (prompts L))"
      using queue_prompt_frame[OF q(2)] by auto
    with Cons.IH[OF r] queue_prompt_frame[OF q(2)] show ?thesis by (simp only: list.set) auto
  qed
qed simp

lemma queue_prompts_nothing:
  "\<forall>t \<in> set ts. match_receivables t rvs table = [] \<Longrightarrow> queue_prompts chat_id rvs table ts L = ([], L)"
  by (induction ts) auto

section \<open>Properties\<close>

definition linked_as :: "ledger \<Rightarrow> int \<Rightarrow> int \<Rightarrow> receivable_role \<Rightarrow> bool" where
  "linked_as L i tid role \<longleftrightarrow>
     list_ex (\<lambda>l. ln_receivable l = i \<and> ln_transaction l = tid \<and> ln_role l = role) (links L)"

definition debt :: receivable_row where
  "debt = \<lparr>rc_id = 1, rc_kind = Receivable, rc_person = ''Asha Rao'', rc_amount = 100, rc_note = None,
           rc_status = Status_Open, rc_created_at = 0, rc_closed_at = None\<rparr>"

definition repayment :: txn where
  "repayment = blank_txn\<lparr>t_id := 7, t_direction := ''credit'', t_counterparty := Some ''ASHA RAO'', t_created_at := Some 0\<rparr>"

definition one_debt :: ledger where
  "one_debt =
     \<lparr>lg_db = empty_db\<lparr>transactions := [repayment, repayment\<lparr>t_id := 8\<rparr>]\<rparr>, receivables = [debt], links = [],
      identifiers = [], prompts = [], contexts = []\<rparr>"

definition prompted_debt :: ledger where
  "prompted_debt =
     one_debt\<lparr>prompts := [\<lparr>mp_id = 1, mp_transaction = 7, mp_candidates = [1], mp_status = Prompt_Pending,
                            mp_delivery_id = Some 3, mp_resolved_at = None\<rparr>],
              contexts := [\<lparr>mc_chat_id = 5, mc_message_id = 9, mc_outbound_delivery_id = Some 3, mc_transaction_id = Some 7\<rparr>]\<rparr>"

lemma debt_ok: "ledger_ok one_debt" "ledger_ok prompted_debt"
  by code_simp+

text \<open>The debt after the tap that pays it.\<close>

definition tapped_debt :: ledger where
  "tapped_debt =
     prompted_debt\<lparr>receivables := [debt\<lparr>rc_status := Status_Settled, rc_closed_at := Some 20\<rparr>],
       links := [\<lparr>ln_receivable = 1, ln_transaction = 7, ln_role = Payment\<rparr>],
       identifiers := [\<lparr>pi_person = ''asha rao'', pi_kind = Counterparty, pi_value = ''asharao''\<rparr>],
       prompts := [\<lparr>mp_id = 1, mp_transaction = 7, mp_candidates = [1], mp_status = Prompt_Linked,
                     mp_delivery_id = Some 3, mp_resolved_at = Some 20\<rparr>]\<rparr>"

lemma tapped: "resolve_match_tap 20 1 (Some 1) 5 9 prompted_debt = ((Tap_Linked, True), tapped_debt)"
  by code_simp



text \<open>C33. Money counts once: the paid sums of all receivables add up to the amounts of the rows that
  pay, each counted once.\<close>

theorem payments_count_once:
  assumes "ledger_ok L" "distinct (map t_id (transactions (lg_db L)))"
  shows "dsum (paid L) (receivables L) =
    dsum t_amount (filter (\<lambda>t. list_ex (\<lambda>l. ln_transaction l = t_id t \<and> ln_role l = Payment) (links L))
      (transactions (lg_db L)))"
proof -
  let ?pays = "filter (\<lambda>l. ln_role l = Payment) (links L)"
  have ok: "list_all (\<lambda>l. ln_receivable l \<in> rc_id ` set (receivables L)) ?pays"
    "list_all (\<lambda>l. ln_transaction l \<in> t_id ` set (transactions (lg_db L))) ?pays"
  proof -
    have "ln_receivable l \<in> rc_id ` set (receivables L) \<and> ln_transaction l \<in> t_id ` set (transactions (lg_db L))"
      if "l \<in> set (links L)" for l
    proof -
      have "link_ok (lg_db L) (kinds (receivables L)) l" using assms(1) that by (simp add: ledger_ok_def list_all_iff)
      from link_ok_rows[OF this] show ?thesis by (metis get_txn_Some imageI)
    qed
    then show "list_all (\<lambda>l. ln_receivable l \<in> rc_id ` set (receivables L)) ?pays"
      "list_all (\<lambda>l. ln_transaction l \<in> t_id ` set (transactions (lg_db L))) ?pays"
      by (simp_all add: list_all_iff)
  qed
  have "paid L = (\<lambda>r. dsum (link_amount (lg_db L)) (filter (\<lambda>l. ln_receivable l = rc_id r) ?pays))"
    by (rule ext) (simp add: paid_def paid_by_def links_of_def conj_commute)
  then have "dsum (paid L) (receivables L) = dsum (link_amount (lg_db L)) ?pays"
    using dsum_grouped[OF _ ok(1)] assms(1) by (simp add: ledger_ok_def)
  also have "\<dots> = dsum t_amount (filter (\<lambda>t. list_ex (\<lambda>l. ln_transaction l = t_id t) ?pays) (transactions (lg_db L)))"
    unfolding link_amount_def get_txn_def
    by (rule dsum_rows[OF assms(2) _ ok(2)]) (use assms(1) in \<open>simp add: ledger_ok_def links_unique_def\<close>)
  also have "(\<lambda>t. list_ex (\<lambda>l. ln_transaction l = t_id t) ?pays) =
      (\<lambda>t. list_ex (\<lambda>l. ln_transaction l = t_id t \<and> ln_role l = Payment) (links L))"
    by (rule ext) (auto simp: list_ex_iff)
  finally show ?thesis .
qed

theorem payments_count_once_witness:
  "dsum (paid (snd (resolve_match_tap 20 1 (Some 1) 5 9 prompted_debt)))
     (receivables (snd (resolve_match_tap 20 1 (Some 1) 5 9 prompted_debt))) = 100"
proof -
  let ?L = "snd (resolve_match_tap 20 1 (Some 1) 5 9 prompted_debt)"
  have "distinct (map t_id (transactions (lg_db ?L)))" unfolding tapped snd_conv by code_simp
  from payments_count_once[OF tap_ok[OF debt_ok(2)] this]
  have "dsum (paid ?L) (receivables ?L) =
      dsum t_amount (filter (\<lambda>t. list_ex (\<lambda>l. ln_transaction l = t_id t \<and> ln_role l = Payment) (links ?L))
        (transactions (lg_db ?L)))" .
  also have "\<dots> = 100" unfolding tapped snd_conv by code_simp
  finally show ?thesis .
qed

text \<open>A merge moves the links of the row that goes away: the keeper has its own links, and the old
  row's links to receivables it does not link yet, save a payment when the keeper pays already. No
  other link changes and none still names the old row.\<close>

theorem merge_links_spec:
  assumes "old \<noteq> keeper"
  shows "linked_as (snd (move_receivable_links now old (Some keeper) L)) i tid role \<longleftrightarrow>
    tid \<noteq> old \<and>
    (linked_as L i tid role \<or>
     tid = keeper \<and> linked_as L i old role \<and>
     \<not> linked_as L i keeper Charge \<and> \<not> linked_as L i keeper Payment \<and>
     \<not> (role = Payment \<and> list_ex (\<lambda>l. ln_transaction l = keeper \<and> ln_role l = Payment) (links L)))"
proof -
  have roles: "ln_role m = Charge \<or> ln_role m = Payment" for m by (cases "ln_role m") simp_all
  let ?L' = "snd (move_receivable_links now old (Some keeper) L)"
  have step: "linked_as ?L' i tid role \<longleftrightarrow>
      (\<exists>l \<in> set (links L). \<not> merge_drops (links L) old keeper l \<and> ln_receivable l = i \<and> ln_role l = role \<and>
        (if ln_transaction l = old then keeper else ln_transaction l) = tid)"
    by (auto simp: linked_as_def move_links list_ex_iff)
  show ?thesis
  proof (cases "tid = keeper")
    case False
    then show ?thesis unfolding step using assms(1) by (auto simp: linked_as_def list_ex_iff merge_drops_def)
  next
    case True
    then show ?thesis unfolding step using assms(1) roles
      by (auto simp: linked_as_def list_ex_iff merge_drops_def; metis)
  qed
qed

theorem merge_links_spec_witness:
  "linked_as (snd (move_receivable_links 30 7 (Some 8) (snd (resolve_match_tap 20 1 (Some 1) 5 9 prompted_debt)))) 1 8 Payment"
proof -
  let ?L = "snd (resolve_match_tap 20 1 (Some 1) 5 9 prompted_debt)"
  have a: "linked_as ?L 1 7 Payment" "\<not> linked_as ?L 1 8 Charge" "\<not> linked_as ?L 1 8 Payment"
    "\<not> list_ex (\<lambda>l. ln_transaction l = 8 \<and> ln_role l = Payment) (links ?L)" unfolding tapped snd_conv by code_simp+
  show ?thesis using a by (subst merge_links_spec) simp_all
qed

text \<open>C34. A tap links a row only when the prompt is pending, the tapped message is the one sent for it
  and the receivable one it offered, still open, with the outstanding equal to the row's amount. Then
  the receivable is settled at that moment and paid in full, the row is the payment of nothing else,
  and a second tap on the prompt answers that it is handled and changes nothing.\<close>

theorem tap_links_once:
  assumes ok: "ledger_ok L" and linked: "fst (resolve_match_tap now pid rid chat msg L) = (Tap_Linked, True)"
  shows "\<exists>p r t r' L'. snd (resolve_match_tap now pid rid chat msg L) = L' \<and> find (\<lambda>p. mp_id p = pid) (prompts L) = Some p \<and> mp_status p = Prompt_Pending \<and>
     rid = Some (rc_id r) \<and> rc_id r \<in> set (mp_candidates p) \<and> r \<in> set (receivables L) \<and>
     map_option mc_outbound_delivery_id (resolve_reply chat msg L) = Some (mp_delivery_id p) \<and>
     get_txn (mp_transaction p) (lg_db L) = Some t \<and>
     rc_status r = Status_Open \<and> rc_amount r - paid L r = t_amount t \<and>
     links L' = links L @ [\<lparr>ln_receivable = rc_id r, ln_transaction = t_id t, ln_role = Payment\<rparr>] \<and>
     \<not> list_ex (\<lambda>l. ln_transaction l = t_id t \<and> ln_role l = Payment) (links L) \<and>
     r' \<in> set (receivables L') \<and> rc_id r' = rc_id r \<and> rc_status r' = Status_Settled \<and>
     rc_closed_at r' = Some now \<and> paid L' r' = rc_amount r' \<and>
     resolve_match_tap now2 pid rid2 chat2 msg2 L' = ((Already_Handled, False), L')"
proof (cases rule: tap_cases[of now pid rid chat msg L])
  case (linked p c i r t r' La)
  define L' where "L' = snd (resolve_match_tap now pid rid chat msg L)"
  have r: "r \<in> set (receivables L)" "rc_id r = i" using linked(9) by (auto simp: get_receivable_def find_Some_iff)
  have t: "t_id t = mp_transaction p" using get_txn_Some[OF linked(10)] by simp
  have t': "get_txn (t_id t) (lg_db L) = Some t" using linked(10) t by simp
  note pays = attach_pays[OF linked(12) t']
  have fits: "rc_status r = Status_Open" "rc_amount r - paid L r = t_amount t"
    using linked(11) by (simp_all add: still_fits_def receivable_read_def Let_def)
  have settled: "rc_status r' = Status_Settled" "rc_closed_at r' = Some now"
    using pays(7) fits by simp_all
  have L': "L' = resolve_prompt now p Prompt_Linked La" unfolding L'_def by (rule linked(2))
  have frame: "links L' = links La" "receivables L' = receivables La" "lg_db L' = lg_db La"
    by (simp_all add: L' resolve_prompt_def)
  have "r' \<in> set (receivables L')"
    unfolding frame pays(8) using r(1) by (auto simp: update_where_def)
  moreover have "paid L' r' = rc_amount r'"
    using pays(4,6) fits(2) by (simp add: paid_def frame)
  moreover have "\<not> list_ex (\<lambda>l. ln_transaction l = t_id t \<and> ln_role l = Payment) (links L)"
    using linked(13) pays(1) by (force simp: links_unique_def list_ex_iff)
  moreover have "resolve_match_tap now2 pid rid2 chat2 msg2 L' = ((Already_Handled, False), L')"
  proof -
    have pid: "mp_id p = pid" using linked(3) by (auto simp: find_Some_iff)
    have "find (\<lambda>p. mp_id p = pid) (prompts L') =
        Some (p\<lparr>mp_status := Prompt_Linked, mp_resolved_at := Some now\<rparr>)"
      using find_update_where[of mp_id "\<lambda>q. q\<lparr>mp_status := Prompt_Linked, mp_resolved_at := Some now\<rparr>" pid "prompts L"]
        linked(3) pays(5) by (simp add: L' resolve_prompt_def pid)
    then show ?thesis by (simp add: resolve_match_tap_def)
  qed
  ultimately show ?thesis
    using linked(3,4,5,6,7,8) r fits settled pays(1,3) frame(1) linked(10) t
    by (intro exI[of _ p] exI[of _ r] exI[of _ t] exI[of _ r'] exI[of _ L']) (simp add: L'_def)
qed (use linked in auto)

theorem tap_links_once_witness:
  "resolve_match_tap 40 1 None 6 10 (snd (resolve_match_tap 20 1 (Some 1) 5 9 prompted_debt)) =
     ((Already_Handled, False), snd (resolve_match_tap 20 1 (Some 1) 5 9 prompted_debt))"
proof -
  have "fst (resolve_match_tap 20 1 (Some 1) 5 9 prompted_debt) = (Tap_Linked, True)" by (simp only: tapped fst_conv)
  from tap_links_once[OF debt_ok(2) this, of 40 None 6 10] show ?thesis by blast
qed

text \<open>The sweep asks once: run again at any later time with no change in between, it queues no
  message and changes nothing.\<close>

theorem sweep_asks_once:
  assumes "now \<le> later" and "run_receivable_match_sweep True chat_id id now L = (sent, L')"
  shows "run_receivable_match_sweep True chat_id id later L' = ([], L')"
proof (cases "list_receivables (Some Status_Open) L = []")
  case True
  then show ?thesis using assms(2) by (auto simp: run_receivable_match_sweep_def)
next
  case False
  let ?rvs = "map (receivable_read L) (list_receivables (Some Status_Open) L)"
  have run: "queue_prompts chat_id ?rvs (identifiers L) (sweep_rows now L) L = (sent, L')"
    using assms(2) False by (simp add: run_receivable_match_sweep_def)
  note frame = queue_prompts_frame[OF run]
  have "link_amount (lg_db L') = link_amount (lg_db L)"
    using frame by (auto simp: fun_eq_iff link_amount_def get_txn_def)
  then have "receivable_read L' r = receivable_read L r" for r
    using frame by (simp add: receivable_read_def paid_def paid_by_def get_txn_def Let_def)
  then have same: "receivable_read L' = receivable_read L" "list_receivables s L' = list_receivables s L" for s
    using frame by (simp_all add: ext list_receivables_def)
  have "match_receivables t ?rvs (identifiers L) = []" if t: "t \<in> set (sweep_rows later L')" for t
  proof -
    have unasked: "t_id t \<notin> mp_transaction ` set (prompts L')" using t by (auto simp: sweep_rows_def list_ex_iff)
    then have "\<not> list_ex (\<lambda>p. mp_transaction p = t_id t) (prompts L)" using frame by (force simp: list_ex_iff)
    then have "t \<in> set (sweep_rows now L)"
      using t assms(1) frame by (auto simp: sweep_rows_def split: option.splits)
    then show ?thesis using frame unasked by blast
  qed
  then have "queue_prompts chat_id ?rvs (identifiers L) (sweep_rows later L') L' = ([], L')"
    by (intro queue_prompts_nothing) blast
  then show ?thesis using frame False by (simp add: run_receivable_match_sweep_def same)
qed

theorem sweep_asks_once_witness:
  "length (fst (run_receivable_match_sweep True 5 id 10 one_debt)) = 2 \<and>
   run_receivable_match_sweep True 5 id 20 (snd (run_receivable_match_sweep True 5 id 10 one_debt)) =
     ([], snd (run_receivable_match_sweep True 5 id 10 one_debt))"
proof -
  have "length (fst (run_receivable_match_sweep True 5 id 10 one_debt)) = 2" by code_simp
  moreover have "run_receivable_match_sweep True 5 id 20 (snd (run_receivable_match_sweep True 5 id 10 one_debt)) =
     ([], snd (run_receivable_match_sweep True 5 id 10 one_debt))"
    by (rule sweep_asks_once[of 10 20 5 one_debt "fst (run_receivable_match_sweep True 5 id 10 one_debt)"]) simp_all
  ultimately show ?thesis ..
qed

end
