(* ===== verification/Bank_Reconcile.thy ===== *)
theory Bank_Reconcile
  imports Cash_Bridge Txn_Merge
begin

text \<open>
  The reconciler of \<^verbatim>\<open>services/statements/bank.py\<close> with \<^verbatim>\<open>services/statements/contention.py\<close>: every line of
  a bank statement is paired with the stored row it reports, or held back, or left for import. A pool
  is the filter that its dictionary stands for; candidates are rows, and sets of row ids are lists. A
  line whose amount or date does not parse goes to the missing ones at once.
\<close>

section \<open>Lines and rows\<close>

record stmt_line =
  sl_direction :: string
  sl_date :: string
  sl_amount :: string
  sl_narration :: "string option"
  sl_counterparty :: "string option"
  sl_reference :: "string option"
  sl_channel :: "string option"
  sl_balance :: "string option"

record parsed_statement =
  ps_bank :: string
  ps_account_number :: "string option"
  ps_holder_name :: "string option"
  ps_lines :: "stmt_line list"
  ps_opening_balance :: "string option"
  ps_closing_balance :: "string option"
  ps_debit_total :: "string option"
  ps_credit_total :: "string option"
  ps_period_start :: "string option"
  ps_period_end :: "string option"

text \<open>A line that parsed, with its position in the statement.\<close>

record parsed_row =
  pr_idx :: nat
  pr_line :: stmt_line
  pr_amount :: decimal
  pr_date :: date

section \<open>References and narrations\<close>

definition MIN_REF_SUBSTRING_LEN :: nat where
  "MIN_REF_SUBSTRING_LEN = 6"

definition OVERLAP_STOPWORDS :: "string list" where
  "OVERLAP_STOPWORDS =
     [''PAYMENT'', ''PAYMENTS'', ''PAID'', ''CREDIT'', ''CREDITS'', ''CREDITED'', ''CRED'',
      ''DEBIT'', ''DEBITS'', ''DEBITED'', ''TRANSFER'', ''TRANSFERS'', ''TRANSFERRED'',
      ''SELFTRANSFER'', ''SELF'', ''BANK'', ''ACCOUNT'', ''BENEFICIARY'', ''REMITTER'',
      ''SENDER'', ''FROM'', ''VIA'', ''FOR'', ''WITH'', ''RECEIVED'', ''RECEIPT'', ''SENT'',
      ''AMOUNT'', ''BALANCE'', ''AVAILABLE'', ''INDIA'', ''INTERNATIONAL'', ''TRANSACTION'',
      ''TXNRECONCILE'', ''TXN'', ''REFUND'', ''REFUNDS'', ''REVERSAL'', ''REVERSED'', ''UPI'',
      ''IMPS'', ''NEFT'', ''RTGS'', ''ACH'', ''NACH'', ''SLICE'', ''ICICI'', ''HDFC'',
      ''AXIS'', ''KOTAK'', ''IDFC'', ''INDUSIND'', ''SBI'', ''YESBANK'', ''EQUITAS'',
      ''JUPITER'', ''ONECARD'', ''HSBC'', ''OKAXIS'', ''OKICICI'', ''OKHDFCBANK'', ''OKSBI'',
      ''YBL'', ''PAYTM'']"

definition stmt_ref_key :: "string option \<Rightarrow> string option" where
  "stmt_ref_key ref =
     (if truthy ref \<and> list_all py_isdigit (or_empty ref)
      then (let rest = dropWhile (\<lambda>c. c = CHR ''0'') (or_empty ref) in if rest = [] then None else Some rest)
      else if truthy ref then ref else None)"

definition ascii_letter :: "char \<Rightarrow> bool" where
  "ascii_letter c \<longleftrightarrow>
     (let n = char_code c in 65 \<le> n \<and> n \<le> 90 \<or> 97 \<le> n \<and> n \<le> 122)"

definition ascii_alnum :: "char \<Rightarrow> bool" where
  "ascii_alnum c \<longleftrightarrow> ascii_letter c \<or> ascii_digit c"

text \<open>\<open>w\<close>: the character before the text is alphanumeric.\<close>

fun appears_at_boundary :: "bool \<Rightarrow> string \<Rightarrow> string \<Rightarrow> bool" where
  "appears_at_boundary w ref [] \<longleftrightarrow> False"
| "appears_at_boundary w ref (c # s) \<longleftrightarrow>
     \<not> w \<and> prefix ref (c # s) \<and> (case drop (length ref) (c # s) of [] \<Rightarrow> True | x # _ \<Rightarrow> \<not> ascii_alnum x) \<or>
     appears_at_boundary (ascii_alnum c) ref s"

definition ref_appears_in :: "string option \<Rightarrow> string option \<Rightarrow> bool" where
  "ref_appears_in ref text \<longleftrightarrow>
     truthy ref \<and> truthy text \<and> MIN_REF_SUBSTRING_LEN \<le> length (or_empty ref) \<and>
     appears_at_boundary False (or_empty ref) (or_empty text)"

fun letter_runs :: "string \<Rightarrow> string \<Rightarrow> string list" where
  "letter_runs w [] = (if w = [] then [] else [w])"
| "letter_runs w (c # s) =
     (if ascii_letter c then letter_runs (w @ [c]) s
      else if w = [] then letter_runs [] s else w # letter_runs [] s)"

definition holder_name_tokens :: "string option \<Rightarrow> string list" where
  "holder_name_tokens name =
     map py_upper (filter (\<lambda>w. 4 \<le> length w) (letter_runs [] (or_empty name)))"

definition significant_tokens :: "string option \<Rightarrow> string list \<Rightarrow> string list" where
  "significant_tokens text exclude = filter (\<lambda>w. w \<notin> set exclude) (holder_name_tokens text)"

definition is_utr :: "string option \<Rightarrow> bool" where
  "is_utr ref \<longleftrightarrow> (let r = py_strip (or_empty ref) in length r = 12 \<and> list_all ascii_digit r)"

text \<open>\<open>raw_description or counterparty\<close>\<close>

definition row_narration :: "txn \<Rightarrow> string option" where
  "row_narration t = (if truthy (t_raw_description t) then t_raw_description t else t_counterparty t)"

section \<open>What a line could claim\<close>

definition is_statement_candidate_compatible :: "string list \<Rightarrow> stmt_line \<Rightarrow> bool \<Rightarrow> txn \<Rightarrow> bool" where
  "is_statement_candidate_compatible holder l has_date_offset t \<longleftrightarrow>
     (let candidate_key = stmt_ref_key (t_reference_number t);
          statement_key = stmt_ref_key (sl_reference l);
          exclude = OVERLAP_STOPWORDS @ holder
      in if statement_key \<noteq> None \<and> candidate_key \<noteq> None \<and> statement_key = candidate_key then True
         else if statement_key = None \<or> candidate_key = None then True
         else if has_date_offset then False
         else if ref_appears_in (t_reference_number t) (sl_narration l) then True
         else if ref_appears_in (sl_reference l) (row_narration t) then True
         else if prefix ''screenshot'' (or_empty (t_source t)) \<and> is_utr (t_reference_number t) \<and> is_utr (sl_reference l)
         then False
         else sl_channel l = Some ''upi'' \<and> t_channel t = Some ''upi'' \<and>
              list_ex (\<lambda>w. w \<in> set (significant_tokens (sl_narration l) exclude))
                (significant_tokens (row_narration t) exclude))"

record compatible_candidates =
  cc_strong :: "txn list"
  cc_compatible :: "txn list"

definition compatible_candidates ::
    "string list \<Rightarrow> stmt_line \<Rightarrow> bool \<Rightarrow> int list \<Rightarrow> txn list \<Rightarrow> compatible_candidates" where
  "compatible_candidates holder l has_date_offset consumed candidates =
     (let compatible = filter (\<lambda>t. t_id t \<notin> set consumed \<and>
                                   is_statement_candidate_compatible holder l has_date_offset t) candidates
      in \<lparr>cc_strong = filter (\<lambda>t. ref_appears_in (t_reference_number t) (sl_narration l) \<or>
                                  ref_appears_in (sl_reference l) (row_narration t)) compatible,
          cc_compatible = compatible\<rparr>)"

definition select_unique_compatible :: "compatible_candidates \<Rightarrow> txn option" where
  "select_unique_compatible c = the_single (if cc_strong c \<noteq> [] then cc_strong c else cc_compatible c)"

definition take_sole_unconsumed :: "txn list \<Rightarrow> int list \<Rightarrow> txn option" where
  "take_sole_unconsumed candidates consumed = the_single (filter (\<lambda>t. t_id t \<notin> set consumed) candidates)"

definition ref_pool :: "txn list \<Rightarrow> string \<Rightarrow> string \<Rightarrow> txn list" where
  "ref_pool rows key direction =
     filter (\<lambda>t. stmt_ref_key (t_reference_number t) = Some key \<and> t_direction t \<noteq> [] \<and> t_direction t = direction) rows"

definition date_pool :: "txn list \<Rightarrow> date \<Rightarrow> decimal \<Rightarrow> string \<Rightarrow> txn list" where
  "date_pool rows day amount direction =
     filter (\<lambda>t. t_transaction_date t = Some day \<and> t_amount t = amount \<and>
                 t_direction t \<noteq> [] \<and> t_direction t = direction) rows"

text \<open>The rows under the reference of the line, whatever their amount, and those with its amount.\<close>

definition reference_evidence :: "txn list \<Rightarrow> parsed_row \<Rightarrow> txn list" where
  "reference_evidence rows pr =
     (case stmt_ref_key (sl_reference (pr_line pr)) of
        None \<Rightarrow> [] | Some key \<Rightarrow> ref_pool rows key (sl_direction (pr_line pr)))"

definition reference_compatible :: "txn list \<Rightarrow> parsed_row \<Rightarrow> txn list" where
  "reference_compatible rows pr = filter (\<lambda>t. t_amount t = pr_amount pr) (reference_evidence rows pr)"

definition window_candidates ::
    "string list \<Rightarrow> int list \<Rightarrow> txn list \<Rightarrow> parsed_row \<Rightarrow> int \<Rightarrow> compatible_candidates" where
  "window_candidates holder consumed rows pr offset =
     compatible_candidates holder (pr_line pr) (offset \<noteq> 0) consumed
       (date_pool rows (pr_date pr + offset) (pr_amount pr) (sl_direction (pr_line pr)))"

text \<open>What the line could claim by date if no other line claimed anything.\<close>

definition reachable :: "string list \<Rightarrow> txn list \<Rightarrow> parsed_row \<Rightarrow> txn list" where
  "reachable holder rows pr = concat (map (\<lambda>offset. cc_compatible (window_candidates holder [] rows pr offset)) [0, -1, 1])"

definition candidate_set :: "string list \<Rightarrow> txn list \<Rightarrow> parsed_row \<Rightarrow> int list" where
  "candidate_set holder rows pr =
     remdups (map t_id (reference_evidence rows pr @ reachable holder rows pr))"

definition contention_set :: "string list \<Rightarrow> txn list \<Rightarrow> parsed_row \<Rightarrow> int list" where
  "contention_set holder rows pr = map t_id (reference_compatible rows pr @ reachable holder rows pr)"

section \<open>The two passes\<close>

text \<open>The claims in the order they are made; the consumed ids are those of the claimed rows.\<close>

type_synonym claims = "(parsed_row \<times> txn) list"

definition consumed_ids :: "claims \<Rightarrow> int list" where
  "consumed_ids cl = map (\<lambda>(_, t). t_id t) cl"

definition claim_by_reference :: "txn list \<Rightarrow> parsed_row \<Rightarrow> claims \<Rightarrow> claims" where
  "claim_by_reference rows pr cl =
     (case take_sole_unconsumed (reference_compatible rows pr) (consumed_ids cl) of
        None \<Rightarrow> cl | Some t \<Rightarrow> cl @ [(pr, t)])"

fun first_pick :: "(int \<Rightarrow> txn option) \<Rightarrow> int list \<Rightarrow> txn option" where
  "first_pick pick [] = None"
| "first_pick pick (i # is) = (case pick i of None \<Rightarrow> first_pick pick is | Some t \<Rightarrow> Some t)"

definition claim_by_date :: "string list \<Rightarrow> txn list \<Rightarrow> parsed_row \<Rightarrow> claims \<Rightarrow> claims" where
  "claim_by_date holder rows pr cl =
     (if list_ex (\<lambda>(q, _). pr_idx q = pr_idx pr) cl then cl
      else case first_pick
                  (\<lambda>offset. select_unique_compatible (window_candidates holder (consumed_ids cl) rows pr offset))
                  [0, -1, 1] of
             None \<Rightarrow> cl | Some t \<Rightarrow> cl @ [(pr, t)])"

section \<open>Contested winners\<close>

definition refresh_identity :: "stmt_line \<Rightarrow> string \<times> string option" where
  "refresh_identity l =
     (let counterparty = py_strip (or_empty (sl_counterparty l)) in
      (if counterparty \<noteq> [] then counterparty else py_strip (or_empty (sl_narration l)), sl_channel l))"

text \<open>A claim by a reference that only one row carries is final: only lines with the same evidence
  can contest it.\<close>

definition final_claim :: "claims \<Rightarrow> txn list \<Rightarrow> parsed_row \<Rightarrow> bool" where
  "final_claim by_reference rows pr \<longleftrightarrow>
     list_ex (\<lambda>(q, _). pr_idx q = pr_idx pr) by_reference \<and> length (reference_evidence rows pr) = 1"

definition rivals ::
    "string list \<Rightarrow> txn list \<Rightarrow> parsed_row list \<Rightarrow> bool \<Rightarrow> parsed_row \<times> txn \<Rightarrow> parsed_row list" where
  "rivals holder rows prs final claim =
     (case claim of (pr, t) \<Rightarrow>
        filter (\<lambda>q. pr_idx q \<noteq> pr_idx pr \<and>
          t_id t \<in> set (if final then map t_id (reference_compatible rows q) else contention_set holder rows q)) prs)"

definition contested :: "string list \<Rightarrow> txn list \<Rightarrow> parsed_row list \<Rightarrow> claims \<Rightarrow> parsed_row \<times> txn \<Rightarrow> bool" where
  "contested holder rows prs by_reference claim \<longleftrightarrow>
     list_ex (\<lambda>q. refresh_identity (pr_line q) \<noteq> refresh_identity (pr_line (fst claim)))
       (rivals holder rows prs (final_claim by_reference rows (fst claim)) claim)"

section \<open>The reconciliation\<close>

record evidence =
  ev_candidates :: "int list"
  ev_count :: nat
  ev_truncated :: bool
  ev_reason :: string

definition CANDIDATE_EVIDENCE_LIMIT :: nat where
  "CANDIDATE_EVIDENCE_LIMIT = 20"

definition candidate_evidence :: "int list \<Rightarrow> string \<Rightarrow> evidence" where
  "candidate_evidence candidates reason =
     (let ordered = sort candidates in
      \<lparr>ev_candidates = take CANDIDATE_EVIDENCE_LIMIT ordered, ev_count = length ordered,
       ev_truncated = CANDIDATE_EVIDENCE_LIMIT < length ordered, ev_reason = reason\<rparr>)"

definition contended_miss :: "int list \<Rightarrow> bool" where
  "contended_miss candidates \<longleftrightarrow> candidates \<noteq> []"

record matched_entry =
  me_idx :: nat
  me_line :: stmt_line
  me_txn :: txn
  me_evidence :: evidence
  me_enriched :: bool

datatype import_error = Ambiguous_match | Unparseable | Duplicate_row

record missing_entry =
  mi_idx :: nat
  mi_line :: stmt_line
  mi_ambiguous :: bool
  mi_evidence :: evidence
  mi_imported :: "int option"
  mi_error :: "import_error option"

record verification =
  vf_computed_closing :: decimal
  vf_delta :: decimal
  vf_is_balanced :: bool

record recon =
  rn_matched :: "matched_entry list"
  rn_missing :: "missing_entry list"
  rn_verification :: "verification option"

definition parse_row :: "date_parser \<Rightarrow> nat \<times> stmt_line \<Rightarrow> parsed_row option" where
  "parse_row p il =
     (case (parse_bank_amount (sl_amount (snd il)), parse_bank_date p (sl_date (snd il))) of
        (Some amount, Some day) \<Rightarrow>
          Some \<lparr>pr_idx = fst il, pr_line = snd il, pr_amount = amount, pr_date = day\<rparr>
      | _ \<Rightarrow> None)"

definition numbered :: "stmt_line list \<Rightarrow> (nat \<times> stmt_line) list" where
  "numbered ls = zip [0..<length ls] ls"

text \<open>A voided charge never posts; a row that a statement imported did.\<close>

definition posted :: "txn \<Rightarrow> bool" where
  "posted t \<longleftrightarrow> t_voided t \<noteq> Some True \<or> t_bank_statement_upload_id t \<noteq> None"

definition missing_entry :: "nat \<Rightarrow> stmt_line \<Rightarrow> bool \<Rightarrow> int list \<Rightarrow> string \<Rightarrow> missing_entry" where
  "missing_entry i l ambiguous candidates reason =
     \<lparr>mi_idx = i, mi_line = l, mi_ambiguous = ambiguous, mi_evidence = candidate_evidence candidates reason,
      mi_imported = None, mi_error = None\<rparr>"

definition matched_entry :: "parsed_row \<Rightarrow> txn \<Rightarrow> int list \<Rightarrow> string \<Rightarrow> matched_entry" where
  "matched_entry pr t candidates reason =
     \<lparr>me_idx = pr_idx pr, me_line = pr_line pr, me_txn = t,
      me_evidence = candidate_evidence candidates reason, me_enriched = False\<rparr>"

text \<open>\<open>None\<close> is the exception of a balance or a total that prints as no number.\<close>

definition balance_verification :: "parsed_statement \<Rightarrow> verification option option" where
  "balance_verification ps =
     (if \<not> truthy (ps_opening_balance ps) \<or> \<not> truthy (ps_closing_balance ps) then Some None
      else
        let total = (\<lambda>s. parse_bank_amount (if truthy s then or_empty s else ''0'')) in
        case (parse_bank_amount (or_empty (ps_opening_balance ps)), parse_bank_amount (or_empty (ps_closing_balance ps)),
              total (ps_credit_total ps), total (ps_debit_total ps)) of
          (Some opening, Some closing, Some credits, Some debits) \<Rightarrow>
            (let computed = opening + credits - debits; delta = closing - computed
             in Some (Some \<lparr>vf_computed_closing = computed, vf_delta = delta, vf_is_balanced = \<bar>delta\<bar> < 1\<rparr>))
        | _ \<Rightarrow> None)"

definition all_claims :: "string list \<Rightarrow> txn list \<Rightarrow> parsed_row list \<Rightarrow> claims \<times> claims" where
  "all_claims holder rows prs =
     (let by_reference = fold (claim_by_reference rows) prs []
      in (by_reference, fold (claim_by_date holder rows) prs by_reference))"

definition claim_of :: "claims \<Rightarrow> parsed_row \<Rightarrow> (parsed_row \<times> txn) option" where
  "claim_of cl pr = find (\<lambda>(q, _). pr_idx q = pr_idx pr) cl"

text \<open>The entry of one parsed line, from the claims by reference, all claims, and those kept.\<close>

definition line_entry ::
    "string list \<Rightarrow> txn list \<Rightarrow> claims \<Rightarrow> claims \<Rightarrow> claims \<Rightarrow> parsed_row \<Rightarrow> matched_entry + missing_entry" where
  "line_entry holder rows by_reference claimed kept pr =
     (let candidates = candidate_set holder rows pr
      in case claim_of kept pr of
           Some (_, t) \<Rightarrow>
             Inl (matched_entry pr t candidates
                    (if claim_of by_reference pr \<noteq> None then ''matched_reference'' else ''matched_date_amount''))
         | None \<Rightarrow>
             Inr (missing_entry (pr_idx pr) (pr_line pr) (contended_miss candidates) candidates
                    (if claim_of claimed pr \<noteq> None then ''contested_match_demoted''
                     else if candidates \<noteq> [] then ''candidate_refused_or_consumed'' else ''no_candidate'')))"

definition unparsed_entries :: "date_parser \<Rightarrow> (nat \<times> stmt_line) list \<Rightarrow> missing_entry list" where
  "unparsed_entries p il =
     map (\<lambda>(i, l). missing_entry i l False [] ''unparseable_statement_identity'')
       (filter (\<lambda>x. parse_row p x = None) il)"

definition reconcile_bank_statement :: "date_parser \<Rightarrow> parsed_statement \<Rightarrow> txn list \<Rightarrow> recon option" where
  "reconcile_bank_statement p ps db_transactions =
     (let il = numbered (ps_lines ps);
          prs = List.map_filter (parse_row p) il;
          rows = filter posted db_transactions;
          holder = holder_name_tokens (ps_holder_name ps);
          (by_reference, claimed) = all_claims holder rows prs;
          kept = filter (\<lambda>c. \<not> contested holder rows prs by_reference c) claimed;
          entries = map (line_entry holder rows by_reference claimed kept) prs
      in case balance_verification ps of
           None \<Rightarrow> None
         | Some verification \<Rightarrow>
             Some \<lparr>rn_matched = List.map_filter (\<lambda>e. case e of Inl m \<Rightarrow> Some m | Inr _ \<Rightarrow> None) entries,
                   rn_missing = unparsed_entries p il @
                     List.map_filter (\<lambda>e. case e of Inl _ \<Rightarrow> None | Inr m \<Rightarrow> Some m) entries,
                   rn_verification = verification\<rparr>)"

end
