(* ===== verification/Bank_Import.thy ===== *)
theory Bank_Import
  imports Bank_Reconcile Cc_Payments
begin

text \<open>
  What follows a reconciliation in \<^verbatim>\<open>services/statements/bank.py\<close>: the matched rows take the name and
  the narration of their line, the missing lines that no stored row could be are imported, and the
  upload records the outcome; with \<open>retry_bank_statement_upload\<close> of \<^verbatim>\<open>services/statements/shared.py\<close>,
  \<open>emit_bank_snapshot\<close> of \<^verbatim>\<open>services/snapshots.py\<close> and \<^verbatim>\<open>services/statements/skip_summary.py\<close>. The
  parser of the PDF is an argument: its result, or the text of its exception.
\<close>

section \<open>Enriching matched rows\<close>

definition GENERIC_COUNTERPARTIES :: "string list" where
  "GENERIC_COUNTERPARTIES = [''payment received'', ''payment successful'', ''payment done'']"

text \<open>\<open>(?:mobile|acct|account)?\s*x{3,}\d+\<close>, without regard to case.\<close>

definition is_mask_only :: "string \<Rightarrow> bool" where
  "is_mask_only s \<longleftrightarrow>
     (let low = py_lower s;
          label_len = (if prefix ''mobile'' low then 6 else if prefix ''acct'' low then 4
                       else if prefix ''account'' low then 7 else 0);
          rest = dropWhile py_isspace (drop label_len low);
          tail = dropWhile (\<lambda>c. c = CHR ''x'') rest
      in 3 \<le> length rest - length tail \<and> tail \<noteq> [] \<and> list_all ascii_digit tail)"

definition is_placeholder_counterparty :: "string \<Rightarrow> bool" where
  "is_placeholder_counterparty v \<longleftrightarrow>
     (let cleaned = py_strip v in py_lower cleaned \<in> set GENERIC_COUNTERPARTIES \<or> is_mask_only cleaned)"

text \<open>\<open>LIKE 'screenshot%'\<close> and \<open>LIKE '%bank_statement%'\<close>: the underscore stands for any character.\<close>

definition like_bank_statement :: "string \<Rightarrow> bool" where
  "like_bank_statement s \<longleftrightarrow>
     list_ex (\<lambda>n. prefix ''bank'' (drop n (py_lower s)) \<and> prefix ''statement'' (drop (n + 5) (py_lower s)))
       [0..<length s]"

definition gains_bank_source :: "recon \<Rightarrow> txn \<Rightarrow> bool" where
  "gains_bank_source r t \<longleftrightarrow>
     t_id t \<in> set (map (\<lambda>m. t_id (me_txn m)) (rn_matched r)) \<and>
     (case t_source t of None \<Rightarrow> False
      | Some s \<Rightarrow> prefix ''screenshot'' (py_lower s) \<and> \<not> like_bank_statement s)"

text \<open>The row as the line leaves it, and whether it changed.\<close>

definition enrich_name :: "stmt_line \<Rightarrow> txn \<Rightarrow> txn \<times> bool" where
  "enrich_name l t =
     (let counterparty = py_strip (or_empty (sl_counterparty l));
          narration = py_strip (or_empty (sl_narration l));
          new_value = (if counterparty \<noteq> [] then counterparty else narration);
          existing = py_strip (or_empty (t_counterparty t));
          fd_upgrade = is_fd_counterparty (Some new_value) (Some (t_bank t)) \<and> py_lower existing = ''self'';
          writes_name = counterparty \<noteq> [] \<and>
            (existing = [] \<or> is_placeholder_counterparty existing \<or> t_counterparty_source t = ''user_alias'');
          (t1, changed) =
            (if new_value \<noteq> existing \<and> (writes_name \<or> fd_upgrade)
             then (t\<lparr>t_counterparty := Some new_value, t_counterparty_source := ''bank''\<rparr>, True)
             else if new_value = existing \<and> writes_name then (t\<lparr>t_counterparty_source := ''bank''\<rparr>, False)
             else (t, False))
      in if new_value = [] then (t, False)
         else if narration \<noteq> [] \<and> py_strip (or_empty (t_raw_description t)) = []
         then (t1\<lparr>t_raw_description := Some narration\<rparr>, True)
         else (t1, changed))"

definition enrich_entry :: "env \<Rightarrow> matched_entry \<Rightarrow> db \<Rightarrow> matched_entry \<times> db" where
  "enrich_entry e m d =
     (case get_txn (t_id (me_txn m)) d of
        None \<Rightarrow> (m, d)
      | Some t \<Rightarrow>
          let (t', changed) = enrich_name (me_line m) t; d' = write_txn (t_id t) (\<lambda>_. t') d
          in if changed then (m\<lparr>me_enriched := True\<rparr>, requeue_after_enrichment e t' d') else (m, d'))"

fun enrich_entries :: "env \<Rightarrow> matched_entry list \<Rightarrow> db \<Rightarrow> matched_entry list \<times> db" where
  "enrich_entries e [] d = ([], d)"
| "enrich_entries e (m # ms) d =
     (let (m', d') = enrich_entry e m d; (ms', d'') = enrich_entries e ms d' in (m' # ms', d''))"

definition enrich_matched_transactions :: "env \<Rightarrow> recon \<Rightarrow> db \<Rightarrow> recon \<times> db" where
  "enrich_matched_transactions e r d =
     (let d1 = d\<lparr>transactions := update_where (gains_bank_source r)
                   (\<lambda>t. t\<lparr>t_source := map_option (\<lambda>s. s @ ''+bank_statement'') (t_source t)\<rparr>) (transactions d)\<rparr>;
          (ms, d2) = enrich_entries e (rn_matched r) d1
      in (r\<lparr>rn_matched := ms\<rparr>, d2))"

section \<open>Importing missing lines\<close>

definition statement_row :: "env \<Rightarrow> int \<Rightarrow> int \<Rightarrow> parsed_statement \<Rightarrow> account \<Rightarrow> stmt_line \<Rightarrow> decimal \<Rightarrow> date \<Rightarrow> txn" where
  "statement_row e i upload_id ps acct l amount day =
     \<lparr>t_id = i, t_email_id = None, t_account_id = Some (a_id acct), t_card_id = None, t_statement_upload_id = None,
      t_bank_statement_upload_id = Some upload_id,
      t_bank = (if ps_bank ps \<noteq> [] then ps_bank ps else a_bank acct),
      t_email_type = ''bank_statement'', t_direction = sl_direction l, t_amount = amount,
      t_currency = Some ''INR'', t_transaction_date = Some day, t_transaction_time = None,
      t_identifies_by = ''counterparty'', t_counterparty_source = ''bank'', t_amount_source = ''bank'', t_time_is_received_time = False,
      t_counterparty = (if truthy (sl_counterparty l) then sl_counterparty l else sl_narration l),
      t_card_mask = None, t_card_holder = None, t_account_mask = mask_last4 True (ps_account_number ps),
      t_reference_number = sl_reference l,
      t_channel = (if truthy (sl_channel l) then sl_channel l else Some ''bank_statement''),
      t_balance = None, t_raw_description = sl_narration l, t_note = None, t_attachment_path = None,
      t_exclude_from_cashflow = Some False, t_voided = Some False, t_category = None,
      t_category_method = None, t_category_confidence = None, t_category_model = None,
      t_category_input_hash = None, t_category_vocab_version = None, t_categorized_at = None,
      t_review_status = None, t_review_reason = None, t_sms_message_id = None, t_source = None,
      t_notified_channel = None, t_enriched_at = None, t_created_at = Some (e_now e),
      t_last_notified_at = None, t_notify_attempts = Some 0\<rparr>"

text \<open>The savepoint of one line: add, flush, link, flush.\<close>

definition import_row :: "link_context \<Rightarrow> txn \<Rightarrow> db \<Rightarrow> merge_error + txn \<times> db" where
  "import_row ctx row d =
     (case flush (d\<lparr>transactions := transactions d @ [row]\<rparr>) of
        Inl err \<Rightarrow> Inl err
      | Inr d1 \<Rightarrow>
          let row' = snd (link_transaction ctx row) in
          case flush (write_txn (t_id row) (\<lambda>_. row') d1) of Inl err \<Rightarrow> Inl err | Inr d2 \<Rightarrow> Inr (row', d2))"

definition import_entry ::
    "date_parser \<Rightarrow> env \<Rightarrow> link_context \<Rightarrow> int \<Rightarrow> parsed_statement \<Rightarrow> account \<Rightarrow> missing_entry \<Rightarrow> db \<Rightarrow> missing_entry \<times> db" where
  "import_entry p e ctx upload_id ps acct m d =
     (if mi_imported m \<noteq> None then (m, d)
      else if mi_ambiguous m then (m\<lparr>mi_error := Some Ambiguous_match\<rparr>, d)
      else
        case (parse_bank_amount (sl_amount (mi_line m)), parse_bank_date p (sl_date (mi_line m))) of
          (Some amount, Some day) \<Rightarrow>
            (case import_row ctx
                    (statement_row e (next_id (map t_id (transactions d))) upload_id ps acct (mi_line m) amount day) d of
               Inl _ \<Rightarrow> (m\<lparr>mi_error := Some Duplicate_row\<rparr>, d)
             | Inr (row, d') \<Rightarrow>
                 (m\<lparr>mi_imported := Some (t_id row)\<rparr>, snd (apply_reference_self_transfer_rule e row d')))
        | _ \<Rightarrow> (m\<lparr>mi_error := Some Unparseable\<rparr>, d))"

fun import_entries ::
    "date_parser \<Rightarrow> env \<Rightarrow> link_context \<Rightarrow> int \<Rightarrow> parsed_statement \<Rightarrow> account \<Rightarrow> missing_entry list \<Rightarrow> db \<Rightarrow>
      missing_entry list \<times> db" where
  "import_entries p e ctx upload_id ps acct [] d = ([], d)"
| "import_entries p e ctx upload_id ps acct (m # ms) d =
     (let (m', d') = import_entry p e ctx upload_id ps acct m d;
          (ms', d'') = import_entries p e ctx upload_id ps acct ms d'
      in (m' # ms', d''))"

definition import_missing_bank_txns ::
    "date_parser \<Rightarrow> env \<Rightarrow> int \<Rightarrow> parsed_statement \<Rightarrow> account \<Rightarrow> recon \<Rightarrow> db \<Rightarrow> recon \<times> db" where
  "import_missing_bank_txns p e upload_id ps acct r d =
     (let (ms, d') = import_entries p e (build_link_context (accounts d) (cards d)) upload_id ps acct (rn_missing r) d
      in (r\<lparr>rn_missing := ms\<rparr>, d'))"

section \<open>The upload\<close>

text \<open>The counts of duplicates and of unexpected errors; the model has no unexpected errors.\<close>

definition import_skip_summary :: "recon \<Rightarrow> upload_error option" where
  "import_skip_summary r =
     (let duplicates = length (filter (\<lambda>m. mi_error m = Some Duplicate_row) (rn_missing r))
      in if duplicates \<noteq> 0 then Some (Lines_skipped duplicates 0) else None)"

definition emit_bank_snapshot :: "date_parser \<Rightarrow> bank_upload \<Rightarrow> db \<Rightarrow> bool \<times> db" where
  "emit_bank_snapshot p u d =
     (if \<not> truthy (bu_closing_balance u) \<or> \<not> truthy (bu_statement_period_end u) then (False, d)
      else case (parse_bank_amount (or_empty (bu_closing_balance u)),
                 parse_bank_date p (or_empty (bu_statement_period_end u))) of
          (Some v, Some day) \<Rightarrow>
            (True, d\<lparr>snapshots := upsert_account_snapshot (bu_account_id u) ''asset'' ''bank_balance'' day v
                      ''bank_statement'' (snapshots d)\<rparr>)
        | _ \<Rightarrow> (False, d))"

definition not_imported :: "recon \<Rightarrow> nat" where
  "not_imported r = length (filter (\<lambda>m. mi_imported m = None) (rn_missing r))"

definition imported_count :: "recon \<Rightarrow> nat" where
  "imported_count r = length (filter (\<lambda>m. mi_imported m \<noteq> None) (rn_missing r))"

definition stored_missing :: "missing_entry \<Rightarrow> recon_entry" where
  "stored_missing m =
     \<lparr>re_db_txn_id = None, re_imported_txn_id = mi_imported m, re_candidate_ids = ev_candidates (mi_evidence m),
      re_candidate_ids_truncated = ev_truncated (mi_evidence m), re_imported = (mi_imported m \<noteq> None),
      re_date = sl_date (mi_line m), re_amount = sl_amount (mi_line m), re_direction = sl_direction (mi_line m)\<rparr>"

definition stored_matched :: "matched_entry \<Rightarrow> recon_entry" where
  "stored_matched m =
     \<lparr>re_db_txn_id = Some (t_id (me_txn m)), re_imported_txn_id = None,
      re_candidate_ids = ev_candidates (me_evidence m), re_candidate_ids_truncated = ev_truncated (me_evidence m),
      re_imported = False, re_date = sl_date (me_line m), re_amount = sl_amount (me_line m),
      re_direction = sl_direction (me_line m)\<rparr>"

definition reconciliation_to_json :: "recon \<Rightarrow> stored_recon" where
  "reconciliation_to_json r =
     \<lparr>sr_matched = map stored_matched (rn_matched r), sr_missing = map stored_missing (rn_missing r)\<rparr>"

definition parsed_upload :: "parsed_statement \<Rightarrow> recon \<Rightarrow> bank_upload \<Rightarrow> bank_upload" where
  "parsed_upload ps r u =
     u\<lparr>bu_status := ''parsed'', bu_account_number := ps_account_number ps,
       bu_account_holder_name := ps_holder_name ps, bu_opening_balance := ps_opening_balance ps,
       bu_closing_balance := ps_closing_balance ps, bu_statement_period_start := ps_period_start ps,
       bu_statement_period_end := ps_period_end ps,
       bu_parsed_txn_count := length (rn_matched r) + length (rn_missing r),
       bu_matched_count := length (rn_matched r), bu_missing_count := length (rn_missing r),
       bu_reconciliation_data := Some (reconciliation_to_json r), bu_error := None\<rparr>"

definition imported_upload :: "recon \<Rightarrow> bank_upload \<Rightarrow> bank_upload" where
  "imported_upload r u =
     u\<lparr>bu_imported_count := imported_count r, bu_missing_count := not_imported r,
       bu_reconciliation_data := Some (reconciliation_to_json r),
       bu_status := (if not_imported r = 0 then ''imported''
                     else if imported_count r > 0 then ''partial_import'' else bu_status u),
       bu_error := (case import_skip_summary r of None \<Rightarrow> bu_error u | Some skipped \<Rightarrow> Some skipped)\<rparr>"

definition write_bank_upload :: "bank_upload \<Rightarrow> db \<Rightarrow> db" where
  "write_bank_upload u d = d\<lparr>bank_uploads := update_where (\<lambda>v. bu_id v = bu_id u) (\<lambda>_. u) (bank_uploads d)\<rparr>"

text \<open>The common end of every path: import, record, snapshot, commit.\<close>

definition finish_upload ::
    "date_parser \<Rightarrow> env \<Rightarrow> parsed_statement \<Rightarrow> account \<Rightarrow> recon \<Rightarrow> bank_upload \<Rightarrow> db \<Rightarrow> recon \<times> bank_upload \<times> db" where
  "finish_upload p e ps acct r u d =
     (let (r', d1) = import_missing_bank_txns p e (bu_id u) ps acct r d;
          u' = imported_upload r' u;
          d2 = snd (emit_bank_snapshot p u' (write_bank_upload u' d1))
      in (r', u', d2))"

definition STMT_RECONCILE_DATE_BUFFER_DAYS :: int where
  "STMT_RECONCILE_DATE_BUFFER_DAYS = 7"

definition given_date :: "date_parser \<Rightarrow> string option \<Rightarrow> date option" where
  "given_date p s = (case s of None \<Rightarrow> None | Some text \<Rightarrow> parse_bank_date p text)"

definition bank_stmt_date_range :: "date_parser \<Rightarrow> parsed_statement \<Rightarrow> (date \<times> date) option" where
  "bank_stmt_date_range p ps =
     (case (given_date p (ps_period_start ps), given_date p (ps_period_end ps)) of
        (Some s, Some t) \<Rightarrow> Some (s, t)
      | _ \<Rightarrow>
          let ds = List.map_filter (\<lambda>l. parse_bank_date p (sl_date l)) (ps_lines ps)
          in if ds = [] then None else Some (foldr min ds (hd ds), foldr max ds (hd ds)))"

definition account_rows :: "int \<Rightarrow> db \<Rightarrow> txn list" where
  "account_rows acct d = filter (\<lambda>t. t_account_id t = Some acct) (transactions d)"

definition rows_near :: "(date \<times> date) option \<Rightarrow> txn list \<Rightarrow> txn list" where
  "rows_near interval rows =
     (case interval of None \<Rightarrow> rows
      | Some (lo, hi) \<Rightarrow>
          filter (\<lambda>t. case t_transaction_date t of None \<Rightarrow> False
                      | Some day \<Rightarrow> lo - STMT_RECONCILE_DATE_BUFFER_DAYS \<le> day \<and>
                                    day \<le> hi + STMT_RECONCILE_DATE_BUFFER_DAYS) rows)"

definition is_password_error :: "string \<Rightarrow> bool" where
  "is_password_error message \<longleftrightarrow>
     sublist ''encrypt'' (py_lower message) \<or> sublist ''password'' (py_lower message)"

text \<open>\<open>None\<close> is the exception of a balance that prints as no number; the result is the answer, the
  reconciliation when there is one, and the database.\<close>

definition retry_bank_statement_upload ::
    "date_parser \<Rightarrow> env \<Rightarrow> int \<Rightarrow> string + parsed_statement \<Rightarrow> db \<Rightarrow> (bool \<times> recon option \<times> db) option" where
  "retry_bank_statement_upload p e upload_id pdf d =
     (case find (\<lambda>u. bu_id u = upload_id) (bank_uploads d) of
        None \<Rightarrow> Some (False, None, d)
      | Some u \<Rightarrow>
          case pdf of
            Inl message \<Rightarrow>
              Some (False, None, write_bank_upload
                (u\<lparr>bu_error := Some (Parse_failed message),
                   bu_status := (if is_password_error message then bu_status u else ''parse_error'')\<rparr>) d)
          | Inr ps \<Rightarrow>
              case reconcile_bank_statement p ps
                     (rows_near (bank_stmt_date_range p ps) (account_rows (bu_account_id u) d)) of
                None \<Rightarrow> None
              | Some r \<Rightarrow>
                  let (r1, d1) = enrich_matched_transactions e r d; u1 = parsed_upload ps r1 u in
                  case find (\<lambda>a. a_id a = bu_account_id u) (accounts d1) of
                    None \<Rightarrow> Some (False, Some r1, d1)
                  | Some acct \<Rightarrow>
                      (case finish_upload p e ps acct r1 u1 d1 of (r2, _, d2) \<Rightarrow> Some (True, Some r2, d2)))"

definition new_upload :: "int \<Rightarrow> int \<Rightarrow> string \<Rightarrow> string \<Rightarrow> upload_error option \<Rightarrow> bank_upload" where
  "new_upload i account_id bank status err =
     \<lparr>bu_id = i, bu_account_id = account_id, bu_bank = bank, bu_status = status, bu_account_number = None,
      bu_account_holder_name = None, bu_statement_period_start = None, bu_statement_period_end = None,
      bu_opening_balance = None, bu_closing_balance = None, bu_parsed_txn_count = 0, bu_matched_count = 0,
      bu_missing_count = 0, bu_imported_count = 0, bu_reconciliation_data = None, bu_error = err\<rparr>"

text \<open>A real run: the reconciliation and the upload row when there are any.\<close>

definition upload_bank_statement ::
    "date_parser \<Rightarrow> env \<Rightarrow> account \<Rightarrow> string + parsed_statement \<Rightarrow> db \<Rightarrow> (recon option \<times> bank_upload \<times> db) option" where
  "upload_bank_statement p e acct pdf d =
     (let i = next_id (map bu_id (bank_uploads d)) in
      case pdf of
        Inl message \<Rightarrow>
          (let u = new_upload i (a_id acct) (a_bank acct)
                     (if is_password_error message then ''password_required'' else ''parse_error'')
                     (Some (Parse_failed message))
           in Some (None, u, snd (emit_bank_snapshot p u (d\<lparr>bank_uploads := bank_uploads d @ [u]\<rparr>))))
      | Inr ps \<Rightarrow>
          case reconcile_bank_statement p ps (account_rows (a_id acct) d) of
            None \<Rightarrow> None
          | Some r \<Rightarrow>
              let (r1, d1) = enrich_matched_transactions e r d;
                  u = parsed_upload ps r1
                        (new_upload i (a_id acct) (if ps_bank ps \<noteq> [] then ps_bank ps else a_bank acct) ''parsed'' None)
              in case finish_upload p e ps acct r1 u (d1\<lparr>bank_uploads := bank_uploads d1 @ [u]\<rparr>) of
                   (r2, u2, d2) \<Rightarrow> Some (Some r2, u2, d2))"

section \<open>Which account a statement belongs to\<close>

definition find_bank_account :: "string \<Rightarrow> (account \<Rightarrow> bool) \<Rightarrow> string option \<Rightarrow> db \<Rightarrow> account option" where
  "find_bank_account bank active number d =
     (let bank_accounts = filter (\<lambda>a. a_bank a = bank \<and> a_type a = ''bank_account'' \<and> active a) (accounts d);
          stmt_last4 = mask_last4 True number;
          hit = (if truthy stmt_last4
                 then find (\<lambda>a. mask_last4 True (a_account_number a) = stmt_last4) bank_accounts
                 else if truthy number
                 then find (\<lambda>a. truthy (a_account_number a) \<and>
                                sublist (or_empty number) (or_empty (a_account_number a))) bank_accounts
                 else None)
      in case hit of None \<Rightarrow> the_single bank_accounts | Some a \<Rightarrow> Some a)"

end
