(* ===== verification/Bank_Facts.thy ===== *)
theory Bank_Facts
  imports Bank_Import Merge_Facts "HOL-Library.Multiset"
begin

text \<open>
  What the bank reconciler promises: every line has one outcome, a stored row is claimed once and
  only by a line it agrees with, a line is imported only when no stored row could be it, and a line
  once imported is recognised ever after; enrichment overwrites no name; the counts add up.
\<close>

section \<open>Rows that parsed\<close>

lemma map_filter_mset:
  "mset (map g (List.map_filter (\<lambda>e. case e of Inl m \<Rightarrow> Some m | Inr _ \<Rightarrow> None) es)) +
   mset (map h (List.map_filter (\<lambda>e. case e of Inl _ \<Rightarrow> None | Inr m \<Rightarrow> Some m) es)) =
   mset (map (case_sum g h) es)"
  by (induction es) (auto simp: List.map_filter_simps split: sum.splits)

definition parsed_rows :: "date_parser \<Rightarrow> parsed_statement \<Rightarrow> parsed_row list" where
  "parsed_rows p ps = List.map_filter (parse_row p) (numbered (ps_lines ps))"

lemma parse_row_Some:
  "parse_row p (i, l) = Some pr \<longleftrightarrow>
   pr_idx pr = i \<and> pr_line pr = l \<and> parse_bank_amount (sl_amount l) = Some (pr_amount pr) \<and>
   parse_bank_date p (sl_date l) = Some (pr_date pr)"
  by (cases pr) (auto simp: parse_row_def split: option.splits)

lemma numbered_idx [simp]: "map fst (numbered ls) = [0..<length ls]"
  by (simp add: numbered_def)

lemma numbered_nth: "(i, l) \<in> set (numbered ls) \<longleftrightarrow> i < length ls \<and> l = ls ! i"
  by (auto simp: numbered_def in_set_zip intro!: exI[of _ i])

lemma map_filter_idx: "map pr_idx (List.map_filter (parse_row p) il) = map fst (filter (\<lambda>x. parse_row p x \<noteq> None) il)"
  by (induction il) (auto simp: List.map_filter_simps parse_row_Some split: option.splits)

lemma parsed_rows_distinct: "distinct (map pr_idx (parsed_rows p ps))"
  unfolding parsed_rows_def map_filter_idx by (rule distinct_map_filter) simp

lemma in_parsed_rows:
  "pr \<in> set (parsed_rows p ps) \<longleftrightarrow>
   pr_idx pr < length (ps_lines ps) \<and> pr_line pr = ps_lines ps ! pr_idx pr \<and>
   parse_bank_amount (sl_amount (pr_line pr)) = Some (pr_amount pr) \<and>
   parse_bank_date p (sl_date (pr_line pr)) = Some (pr_date pr)"
proof -
  have "pr \<in> set (parsed_rows p ps) \<longleftrightarrow>
      (\<exists>i l. (i, l) \<in> set (numbered (ps_lines ps)) \<and> parse_row p (i, l) = Some pr)"
    by (auto simp: in_map_filter_iff parsed_rows_def)
  then show ?thesis by (auto simp: parse_row_Some numbered_nth)
qed

lemma same_idx_same_row:
  "distinct (map pr_idx prs) \<Longrightarrow> q \<in> set prs \<Longrightarrow> pr \<in> set prs \<Longrightarrow> pr_idx q = pr_idx pr \<Longrightarrow> q = pr"
  by (auto simp: distinct_map dest: inj_onD)

section \<open>Claims\<close>

definition claim_ok :: "string list \<Rightarrow> txn list \<Rightarrow> parsed_row list \<Rightarrow> parsed_row \<times> txn \<Rightarrow> bool" where
  "claim_ok holder rows prs c \<longleftrightarrow>
     fst c \<in> set prs \<and> (snd c \<in> set (reference_compatible rows (fst c)) \<or> snd c \<in> set (reachable holder rows (fst c)))"

definition claims_ok :: "string list \<Rightarrow> txn list \<Rightarrow> parsed_row list \<Rightarrow> claims \<Rightarrow> bool" where
  "claims_ok holder rows prs cl \<longleftrightarrow>
     distinct (map (\<lambda>c. pr_idx (fst c)) cl) \<and> distinct (map (\<lambda>c. t_id (snd c)) cl) \<and>
     list_all (claim_ok holder rows prs) cl"

lemma consumed_ids_map: "consumed_ids cl = map (\<lambda>c. t_id (snd c)) cl"
  by (simp add: consumed_ids_def case_prod_beta)

lemma claims_snoc:
  "claims_ok holder rows prs cl \<Longrightarrow> claim_ok holder rows prs (pr, t) \<Longrightarrow>
   pr_idx pr \<notin> (\<lambda>c. pr_idx (fst c)) ` set cl \<Longrightarrow> t_id t \<notin> set (consumed_ids cl) \<Longrightarrow>
   claims_ok holder rows prs (cl @ [(pr, t)])"
  by (auto simp: claims_ok_def consumed_ids_map)

lemma take_sole_Some:
  "take_sole_unconsumed cs ids = Some t \<Longrightarrow> t \<in> set cs \<and> t_id t \<notin> set ids"
  by (auto simp: take_sole_unconsumed_def dest: filter_singleton_unique)

lemma first_pick_Some: "first_pick f is = Some t \<Longrightarrow> \<exists>i \<in> set is. f i = Some t"
  by (induction f "is" rule: first_pick.induct) (auto split: option.splits)

lemma unique_compatible_Some:
  "select_unique_compatible (window_candidates holder ids rows pr off) = Some t \<Longrightarrow>
   t \<in> set (cc_compatible (window_candidates holder [] rows pr off)) \<and> t_id t \<notin> set ids"
  unfolding select_unique_compatible_def the_single_eq_Some
  by (auto simp: window_candidates_def compatible_candidates_def split: if_splits
      dest: filter_singleton_unique) 

lemma claim_by_reference_ok:
  assumes "claims_ok holder rows prs cl" "pr \<in> set prs" "pr_idx pr \<notin> (\<lambda>c. pr_idx (fst c)) ` set cl"
  shows "claims_ok holder rows prs (claim_by_reference rows pr cl)"
proof (cases "take_sole_unconsumed (reference_compatible rows pr) (consumed_ids cl)")
  case (Some t)
  have "claim_ok holder rows prs (pr, t)" using take_sole_Some[OF Some] assms(2) by (simp add: claim_ok_def)
  then show ?thesis
    using claims_snoc[OF assms(1) _ assms(3)] take_sole_Some[OF Some] Some by (simp add: claim_by_reference_def)
qed (simp add: claim_by_reference_def assms(1))

lemma claim_by_reference_idx:
  "(\<lambda>c. pr_idx (fst c)) ` set (claim_by_reference rows pr cl) \<subseteq> insert (pr_idx pr) ((\<lambda>c. pr_idx (fst c)) ` set cl)"
  by (auto simp: claim_by_reference_def split: option.splits)

lemma disjoint_from_insert: "A \<subseteq> insert x B \<Longrightarrow> x \<notin> C \<Longrightarrow> B \<inter> C = {} \<Longrightarrow> A \<inter> C = {}"
  by blast

lemma fold_reference_ok:
  assumes "distinct (map pr_idx qs)" "set qs \<subseteq> set prs" "claims_ok holder rows prs cl"
    "(\<lambda>c. pr_idx (fst c)) ` set cl \<inter> pr_idx ` set qs = {}"
  shows "claims_ok holder rows prs (fold (claim_by_reference rows) qs cl)"
  using assms
proof (induction qs arbitrary: cl)
  case (Cons pr qs)
  let ?cl = "claim_by_reference rows pr cl"
  have "claims_ok holder rows prs ?cl" using Cons.prems by (intro claim_by_reference_ok) auto
  moreover have "(\<lambda>c. pr_idx (fst c)) ` set ?cl \<inter> pr_idx ` set qs = {}"
  proof -
    have "pr_idx pr \<notin> pr_idx ` set qs" "(\<lambda>c. pr_idx (fst c)) ` set cl \<inter> pr_idx ` set qs = {}"
      using Cons.prems(1,4) by auto
    then show ?thesis by (rule disjoint_from_insert[OF claim_by_reference_idx])
  qed
  ultimately show ?case using Cons by simp
qed simp

lemma claim_by_date_ok:
  assumes "claims_ok holder rows prs cl" "pr \<in> set prs"
  shows "claims_ok holder rows prs (claim_by_date holder rows pr cl)"
proof (cases "list_ex (\<lambda>(q, _). pr_idx q = pr_idx pr) cl")
  case False
  then have fresh: "pr_idx pr \<notin> (\<lambda>c. pr_idx (fst c)) ` set cl" by (auto simp: list_ex_iff)
  let ?pick = "first_pick (\<lambda>off. select_unique_compatible (window_candidates holder (consumed_ids cl) rows pr off)) [0, -1, 1]"
  show ?thesis
  proof (cases ?pick)
    case (Some t)
    then obtain off where "off \<in> set [0, -1, 1]"
      "select_unique_compatible (window_candidates holder (consumed_ids cl) rows pr off) = Some t"
      using first_pick_Some by blast
    then have "t \<in> set (reachable holder rows pr)" "t_id t \<notin> set (consumed_ids cl)"
      using unique_compatible_Some unfolding reachable_def by fastforce+
    then show ?thesis
      using claims_snoc[OF assms(1) _ fresh] assms(2) False Some by (simp add: claim_by_date_def claim_ok_def)
  qed (use False assms(1) in \<open>simp add: claim_by_date_def\<close>)
qed (simp add: claim_by_date_def assms(1))

lemma all_claims_ok:
  assumes "distinct (map pr_idx prs)"
  shows "claims_ok holder rows prs (fst (all_claims holder rows prs))"
    "claims_ok holder rows prs (snd (all_claims holder rows prs))"
proof -
  show first: "claims_ok holder rows prs (fst (all_claims holder rows prs))"
    using fold_reference_ok[OF assms subset_refl, of holder rows "[]"]
    by (simp add: all_claims_def Let_def) (simp add: claims_ok_def)
  have "claims_ok holder rows prs (fold (claim_by_date holder rows) qs cl)"
    if "set qs \<subseteq> set prs" "claims_ok holder rows prs cl" for qs cl
    using that by (induction qs arbitrary: cl) (auto intro: claim_by_date_ok)
  then show "claims_ok holder rows prs (snd (all_claims holder rows prs))"
    using first by (simp add: all_claims_def Let_def)
qed

section \<open>The entries of a reconciliation\<close>

text \<open>One line's entry, with the parts of the reconciliation it reads.\<close>

definition entry_of ::
    "string list \<Rightarrow> txn list \<Rightarrow> parsed_row list \<Rightarrow> parsed_row \<Rightarrow> matched_entry + missing_entry" where
  "entry_of holder rows prs pr =
     (let (by_reference, claimed) = all_claims holder rows prs
      in line_entry holder rows by_reference claimed
           (filter (\<lambda>c. \<not> contested holder rows prs by_reference c) claimed) pr)"

lemmas entry_defs = entry_of_def line_entry_def claim_of_def unparsed_entries_def

abbreviation posted_rows :: "txn list \<Rightarrow> txn list" where
  "posted_rows D \<equiv> filter posted D"

abbreviation holder_of :: "parsed_statement \<Rightarrow> string list" where
  "holder_of ps \<equiv> holder_name_tokens (ps_holder_name ps)"

lemma reconcile_parts:
  assumes "reconcile_bank_statement p ps D = Some r"
  defines "es \<equiv> map (entry_of (holder_of ps) (posted_rows D) (parsed_rows p ps)) (parsed_rows p ps)"
  shows "rn_matched r = List.map_filter (\<lambda>e. case e of Inl m \<Rightarrow> Some m | Inr _ \<Rightarrow> None) es"
    "rn_missing r =
       map (\<lambda>(i, l). missing_entry i l False [] ''unparseable_statement_identity'')
         (filter (\<lambda>x. parse_row p x = None) (numbered (ps_lines ps))) @
       List.map_filter (\<lambda>e. case e of Inl _ \<Rightarrow> None | Inr m \<Rightarrow> Some m) es"
  using assms(1)
  by (auto simp: reconcile_bank_statement_def Let_def es_def entry_defs[abs_def] parsed_rows_def case_prod_beta split: option.splits)

lemma reconciles: "balance_verification ps \<noteq> None \<Longrightarrow>
    reconcile_bank_statement p ps D = Some (the (reconcile_bank_statement p ps D))"
  by (auto simp: reconcile_bank_statement_def Let_def split: option.splits prod.splits)

lemma entry_matched:
  assumes "entry_of holder rows prs pr = Inl m" "pr \<in> set prs" "distinct (map pr_idx prs)"
  shows "me_idx m = pr_idx pr \<and> me_line m = pr_line pr \<and>
    (pr, me_txn m) \<in> set (snd (all_claims holder rows prs)) \<and>
    \<not> contested holder rows prs (fst (all_claims holder rows prs)) (pr, me_txn m)"
proof -
  let ?kept = "filter (\<lambda>c. \<not> contested holder rows prs (fst (all_claims holder rows prs)) c)
    (snd (all_claims holder rows prs))"
  obtain q t where f: "find (\<lambda>(q, _). pr_idx q = pr_idx pr) ?kept = Some (q, t)"
    "me_idx m = pr_idx pr" "me_line m = pr_line pr" "me_txn m = t"
    using assms(1) by (auto simp: entry_defs Let_def matched_entry_def case_prod_beta split: option.splits)
  have q: "(q, t) \<in> set ?kept" "pr_idx q = pr_idx pr" using find_SomeD[OF f(1)] by simp_all
  have "q \<in> set prs"
    using all_claims_ok(2)[OF assms(3), of holder rows] q(1) by (auto simp: claims_ok_def claim_ok_def list_all_iff)
  then have "q = pr" using same_idx_same_row[OF assms(3) _ assms(2)] q(2) by blast
  then show ?thesis using f q by simp
qed

lemma entry_missing:
  assumes "entry_of holder rows prs pr = Inr m"
  shows "mi_idx m = pr_idx pr \<and> mi_line m = pr_line pr \<and> mi_ambiguous m = (candidate_set holder rows pr \<noteq> []) \<and>
    mi_imported m = None \<and> mi_error m = None"
  using assms by (auto simp: entry_defs Let_def missing_entry_def contended_miss_def case_prod_beta split: option.splits)

lemma Inl_Some: "(case e of Inl m \<Rightarrow> Some m | Inr _ \<Rightarrow> None) = Some m \<longleftrightarrow> e = Inl m"
  by (cases e) simp_all

lemma Inr_Some: "(case e of Inl _ \<Rightarrow> None | Inr m \<Rightarrow> Some m) = Some m \<longleftrightarrow> e = Inr m"
  by (cases e) simp_all

lemma matched_of_row:
  assumes "reconcile_bank_statement p ps D = Some r" "m \<in> set (rn_matched r)"
  obtains pr where "pr \<in> set (parsed_rows p ps)"
    "entry_of (holder_of ps) (posted_rows D) (parsed_rows p ps) pr = Inl m"
  using assms(2) unfolding reconcile_parts(1)[OF assms(1)] in_map_filter_iff Inl_Some by auto

lemma missing_of_row:
  assumes "reconcile_bank_statement p ps D = Some r" "m \<in> set (rn_missing r)"
  obtains (unparsed) i l where "(i, l) \<in> set (numbered (ps_lines ps))" "parse_row p (i, l) = None"
      "m = missing_entry i l False [] ''unparseable_statement_identity''"
    | (row) pr where "pr \<in> set (parsed_rows p ps)"
      "entry_of (holder_of ps) (posted_rows D) (parsed_rows p ps) pr = Inr m"
  using assms(2) unfolding reconcile_parts(2)[OF assms(1)] set_append Un_iff in_map_filter_iff Inr_Some
  by auto

lemma entry_idx: "case_sum me_idx mi_idx (entry_of holder rows prs pr) = pr_idx pr"
  by (auto simp: entry_defs Let_def missing_entry_def matched_entry_def case_prod_beta split: option.splits)

text \<open>No posted row could be the line: none carries its reference, none agrees with it by date.\<close>

lemma no_candidate_rows:
  assumes "candidate_set holder rows pr = []" "t \<in> set rows"
  shows "t \<notin> set (reference_evidence rows pr) \<and> t \<notin> set (reachable holder rows pr)"
  using assms by (auto simp: candidate_set_def)

lemma reachable_iff:
  "t \<in> set (reachable holder rows pr) \<longleftrightarrow>
   t \<in> set rows \<and> t_direction t = sl_direction (pr_line pr) \<and> t_direction t \<noteq> [] \<and> t_amount t = pr_amount pr \<and>
   (\<exists>day. t_transaction_date t = Some day \<and> \<bar>day - pr_date pr\<bar> \<le> 1 \<and>
     is_statement_candidate_compatible holder (pr_line pr) (day \<noteq> pr_date pr) t)"
proof -
  have one: "\<bar>day - pr_date pr\<bar> \<le> 1 \<longleftrightarrow> day = pr_date pr \<or> day = pr_date pr - 1 \<or> day = pr_date pr + 1" for day
    by auto
  show ?thesis unfolding one
    by (auto simp: reachable_def window_candidates_def compatible_candidates_def date_pool_def)
qed

lemma reference_iff:
  "t \<in> set (reference_evidence rows pr) \<longleftrightarrow>
   t \<in> set rows \<and> t_direction t = sl_direction (pr_line pr) \<and> t_direction t \<noteq> [] \<and>
   stmt_ref_key (sl_reference (pr_line pr)) \<noteq> None \<and>
   stmt_ref_key (t_reference_number t) = stmt_ref_key (sl_reference (pr_line pr))"
  by (cases "stmt_ref_key (sl_reference (pr_line pr))") (auto simp: reference_evidence_def ref_pool_def)

section \<open>Importing\<close>

lemma flush_Inr: "flush d = Inr d' \<longleftrightarrow> d' = d \<and> uq_transactions_ref (transactions d)"
  by (auto simp: flush_def)

lemma link_transaction_linked: "t_account_id t \<noteq> None \<Longrightarrow> link_transaction ctx t = (True, t)"
  by (simp add: link_transaction_def)

lemma write_same:
  assumes "t_id row \<notin> t_id ` set rows"
  shows "update_where (\<lambda>t. t_id t = t_id row) (\<lambda>_. row) (rows @ [row]) = rows @ [row]"
proof -
  have "update_where (\<lambda>t. t_id t = t_id row) (\<lambda>_. row) rows = rows" using assms by (intro update_where_False) (metis imageI)
  then show ?thesis by (simp add: update_where_def)
qed

lemma import_row_Inr:
  assumes "import_row ctx row d = Inr (row', d')" "t_id row \<notin> t_id ` set (transactions d)" "t_account_id row \<noteq> None"
  shows "row' = row \<and> transactions d' = transactions d @ [row] \<and> uq_transactions_ref (transactions d')"
  using assms
  by (auto simp: import_row_def Let_def link_transaction_linked flush_Inr write_same split: sum.splits)

text \<open>What one line does to the table: nothing, or one new row that the line states.\<close>

lemma import_entry_cases:
  obtains
    (skipped) err where "import_entry p e ctx u ps acct m d = (m\<lparr>mi_error := err\<rparr>, d)"
  | (imported) amount day row d' where
      "mi_imported m = None" "\<not> mi_ambiguous m"
      "parse_bank_amount (sl_amount (mi_line m)) = Some amount" "parse_bank_date p (sl_date (mi_line m)) = Some day"
      "row = statement_row e (next_id (map t_id (transactions d))) u ps acct (mi_line m) amount day"
      "transactions d' = transactions d @ [row]" "uq_transactions_ref (transactions d')"
      "import_entry p e ctx u ps acct m d = (m\<lparr>mi_imported := Some (t_id row)\<rparr>, snd (apply_reference_self_transfer_rule e row d'))"
proof (cases "mi_imported m \<noteq> None \<or> mi_ambiguous m \<or>
    parse_bank_amount (sl_amount (mi_line m)) = None \<or> parse_bank_date p (sl_date (mi_line m)) = None")
  case True
  then have "\<exists>err. import_entry p e ctx u ps acct m d = (m\<lparr>mi_error := err\<rparr>, d)"
    by (cases "mi_imported m \<noteq> None") (auto simp: import_entry_def intro: exI[of _ "mi_error m"] split: option.splits)
  then show thesis using skipped by blast
next
  case False
  then obtain amount day where ad: "parse_bank_amount (sl_amount (mi_line m)) = Some amount"
    "parse_bank_date p (sl_date (mi_line m)) = Some day" by auto
  let ?row = "statement_row e (next_id (map t_id (transactions d))) u ps acct (mi_line m) amount day"
  show thesis
  proof (cases "import_row ctx ?row d")
    case (Inl x)
    then show thesis using False ad by (intro skipped[of "Some Duplicate_row"]) (simp add: import_entry_def)
  next
    case (Inr rd)
    obtain row' d' where rd: "rd = (row', d')" by (cases rd)
    have "t_id ?row \<notin> t_id ` set (transactions d)" "t_account_id ?row \<noteq> None"
      using next_id_fresh[of "map t_id (transactions d)"] by (simp_all add: statement_row_def)
    from import_row_Inr[OF Inr[unfolded rd] this] show thesis
      using False ad Inr rd by (intro imported[of amount day ?row d']) (auto simp: import_entry_def)
  qed
qed

definition imported_row :: "date_parser \<Rightarrow> env \<Rightarrow> int \<Rightarrow> parsed_statement \<Rightarrow> account \<Rightarrow> missing_entry \<Rightarrow> txn \<Rightarrow> bool" where
  "imported_row p e u ps acct m row \<longleftrightarrow>
     mi_imported m = Some (t_id row) \<and> \<not> mi_ambiguous m \<and>
     (\<exists>i amount day. parse_bank_amount (sl_amount (mi_line m)) = Some amount \<and>
        parse_bank_date p (sl_date (mi_line m)) = Some day \<and>
        row = statement_row e i u ps acct (mi_line m) amount day)"

lemma import_entries_rows:
  assumes "import_entries p e ctx u ps acct ms d = (ms', d')" "list_all (\<lambda>m. mi_imported m = None) ms"
  shows "\<exists>new. map drop_category (transactions d') = map drop_category (transactions d @ new) \<and>
      list_all2 (imported_row p e u ps acct) (filter (\<lambda>m. mi_imported m \<noteq> None) ms') new \<and>
      (db_ok d \<longrightarrow> db_ok d') \<and>
      map (\<lambda>m. (mi_idx m, mi_line m, mi_ambiguous m)) ms' = map (\<lambda>m. (mi_idx m, mi_line m, mi_ambiguous m)) ms"
  using assms
proof (induction ms arbitrary: d ms')
  case Nil
  then show ?case by (auto intro: exI[of _ "[]"])
next
  case (Cons m ms)
  obtain m1 d1 ms1 where s: "import_entry p e ctx u ps acct m d = (m1, d1)"
    "import_entries p e ctx u ps acct ms d1 = (ms1, d')" "ms' = m1 # ms1"
    using Cons.prems(1) by (auto simp: Let_def split: prod.splits)
  obtain new where new: "map drop_category (transactions d') = map drop_category (transactions d1 @ new)"
    "list_all2 (imported_row p e u ps acct) (filter (\<lambda>m. mi_imported m \<noteq> None) ms1) new"
    "db_ok d1 \<longrightarrow> db_ok d'"
    "map (\<lambda>m. (mi_idx m, mi_line m, mi_ambiguous m)) ms1 = map (\<lambda>m. (mi_idx m, mi_line m, mi_ambiguous m)) ms"
    using Cons.IH[OF s(2)] Cons.prems(2) by auto
  show ?case
  proof (cases rule: import_entry_cases[of p e ctx u ps acct m d])
    case (skipped err)
    then have "m1 = m\<lparr>mi_error := err\<rparr>" "d1 = d" using s(1) by auto
    then show ?thesis using new s(3) Cons.prems(2) by (intro exI[of _ new]) simp
  next
    case (imported amount day row d2)
    have m1: "m1 = m\<lparr>mi_imported := Some (t_id row)\<rparr>" "d1 = snd (apply_reference_self_transfer_rule e row d2)"
      using imported(8) s(1) by auto
    have rows: "map drop_category (transactions d1) = map drop_category (transactions d @ [row])"
      using rule_drop_category[of e row d2] imported(6) m1(2) by simp
    have "imported_row p e u ps acct m1 row" using imported(2,3,4,5) m1(1) by (auto simp: imported_row_def)
    moreover have "db_ok d \<longrightarrow> db_ok d1"
    proof
      assume "db_ok d"
      moreover have "t_id row \<notin> t_id ` set (transactions d)"
        using imported(5) next_id_fresh[of "map t_id (transactions d)"] by (simp add: statement_row_def)
      ultimately have "db_ok d2" using imported(6,7) by (simp add: db_ok_def)
      then show "db_ok d1" using db_ok_drop_category[OF rule_drop_category[of e row d2]] m1(2) by simp
    qed
    ultimately show ?thesis using new s(3) m1(1) rows by (intro exI[of _ "row # new"]) simp
  qed
qed

lemma reconcile_unimported: "reconcile_bank_statement p ps D = Some r \<Longrightarrow> list_all (\<lambda>m. mi_imported m = None) (rn_missing r)"
  unfolding list_all_iff by (auto elim!: missing_of_row dest: entry_missing simp: missing_entry_def)

lemma import_rows:
  assumes "reconcile_bank_statement p ps D = Some r" "rn_missing r0 = rn_missing r"
    "import_missing_bank_txns p e u ps acct r0 d = (r', d')"
  shows "\<exists>new. map drop_category (transactions d') = map drop_category (transactions d @ new) \<and>
      list_all2 (imported_row p e u ps acct) (filter (\<lambda>m. mi_imported m \<noteq> None) (rn_missing r')) new \<and>
      (db_ok d \<longrightarrow> db_ok d') \<and>
      map (\<lambda>m. (mi_idx m, mi_line m, mi_ambiguous m)) (rn_missing r') =
        map (\<lambda>m. (mi_idx m, mi_line m, mi_ambiguous m)) (rn_missing r)"
  using import_entries_rows[OF _ reconcile_unimported[OF assms(1)]] assms(2,3)
  by (auto simp: import_missing_bank_txns_def Let_def split: prod.splits)

text \<open>A line that was imported had no candidate.\<close>

lemma importable_no_candidate:
  assumes "reconcile_bank_statement p ps D = Some r" "m \<in> set (rn_missing r)" "\<not> mi_ambiguous m"
    "parse_bank_amount (sl_amount (mi_line m)) = Some amount" "parse_bank_date p (sl_date (mi_line m)) = Some day"
  obtains pr where "pr \<in> set (parsed_rows p ps)" "pr_line pr = mi_line m" "pr_idx pr = mi_idx m"
    "pr_amount pr = amount" "pr_date pr = day" "candidate_set (holder_of ps) (posted_rows D) pr = []"
proof (cases rule: missing_of_row[OF assms(1,2)])
  case (1 i l)
  then have "parse_row p (i, mi_line m) = None" by (simp add: missing_entry_def)
  then show thesis using assms(4,5) by (simp add: parse_row_def)
next
  case (2 pr)
  have e: "pr_line pr = mi_line m" "pr_idx pr = mi_idx m" "candidate_set (holder_of ps) (posted_rows D) pr = []"
    using entry_missing[OF 2(2)] assms(3) by simp_all
  moreover have "pr_amount pr = amount" "pr_date pr = day"
    using 2(1) assms(4,5) unfolding in_parsed_rows e(1) by simp_all
  ultimately show thesis by (intro that[OF 2(1)])
qed

lemma missing_line:
  assumes "reconcile_bank_statement p ps D = Some r" "m \<in> set (rn_missing r)"
  shows "mi_line m = ps_lines ps ! mi_idx m"
proof (cases rule: missing_of_row[OF assms])
  case (1 i l)
  then show ?thesis by (simp add: numbered_nth missing_entry_def)
next
  case (2 pr)
  then show ?thesis using entry_missing[OF 2(2)] 2(1)[unfolded in_parsed_rows] by simp
qed

lemma compatible_without_keys:
  "stmt_ref_key (sl_reference l) = None \<or> stmt_ref_key (t_reference_number t) = None \<Longrightarrow>
   is_statement_candidate_compatible h l off t"
  by (auto simp: is_statement_candidate_compatible_def Let_def)

lemma compatible_same_reference:
  "t_reference_number t = sl_reference l \<Longrightarrow> is_statement_candidate_compatible h l off t"
  by (auto simp: is_statement_candidate_compatible_def Let_def)

section \<open>Properties\<close>

definition sample_line :: stmt_line where
  "sample_line =
     \<lparr>sl_direction = ''debit'', sl_date = ''d'', sl_amount = ''100'', sl_narration = Some ''UPI-SWIGGY'',
      sl_counterparty = Some ''SWIGGY'', sl_reference = None, sl_channel = Some ''upi'', sl_balance = None\<rparr>"

definition sample_statement :: parsed_statement where
  "sample_statement =
     \<lparr>ps_bank = ''hdfc'', ps_account_number = Some ''1234'', ps_holder_name = Some ''ASHA RAO'',
      ps_lines = [sample_line, sample_line\<lparr>sl_amount := ''250''\<rparr>, sample_line\<lparr>sl_amount := ''x''\<rparr>],
      ps_opening_balance = None, ps_closing_balance = None, ps_debit_total = None, ps_credit_total = None,
      ps_period_start = None, ps_period_end = None\<rparr>"

definition one_alert :: db where
  "one_alert = empty_db\<lparr>transactions := [blank_txn\<lparr>t_id := 4, t_account_id := Some 1, t_transaction_date := Some 10,
     t_counterparty := Some ''Mobile XXXX06''\<rparr>], accounts := [blank_account],
     bank_uploads := [new_upload 1 1 ''hdfc'' ''password_required'' None]\<rparr>"

abbreviation sample_dates :: date_parser where
  "sample_dates \<equiv> (\<lambda>s. if s = ''d'' then Some 10 else None)"

definition sample_recon :: recon where
  "sample_recon = the (reconcile_bank_statement sample_dates sample_statement (transactions one_alert))"

definition sample_import :: "recon \<times> db" where
  "sample_import = import_missing_bank_txns sample_dates sample_env 1 sample_statement blank_account sample_recon one_alert"

lemma sample_reconciled:
  "reconcile_bank_statement sample_dates sample_statement (transactions one_alert) = Some sample_recon"
  using reconciles[of sample_statement] by (simp add: sample_statement_def balance_verification_def sample_recon_def)

lemma sample_recon_value:
  "case reconcile_bank_statement sample_dates sample_statement (transactions one_alert) of None \<Rightarrow> False
   | Some r \<Rightarrow> length (rn_matched r) = 1 \<and> t_amount (me_txn (hd (rn_matched r))) = 100"
  by code_simp

lemma sample_import_value:
  "case sample_import of (r, d) \<Rightarrow>
     map t_id (transactions d) = [4, 5] \<and> length (rn_missing r) = 2 \<and>
     mi_imported (rn_missing r ! 1) = Some 5 \<and> mi_idx (rn_missing r ! 1) = 1 \<and>
     mi_line (rn_missing r ! 1) = sample_line\<lparr>sl_amount := ''250''\<rparr>"
  by code_simp

text \<open>Every line of a bank statement has exactly one outcome: its position occurs once among the
  matched and the missing entries together.\<close>

theorem every_line_once:
  assumes "reconcile_bank_statement p ps D = Some r"
  shows "mset (map me_idx (rn_matched r)) + mset (map mi_idx (rn_missing r)) = mset [0..<length (ps_lines ps)]"
proof -
  let ?es = "map (entry_of (holder_of ps) (posted_rows D) (parsed_rows p ps)) (parsed_rows p ps)"
  let ?il = "numbered (ps_lines ps)"
  have "mset (map (case_sum me_idx mi_idx) ?es) = mset (map pr_idx (parsed_rows p ps))"
    by (simp add: entry_idx comp_def)
  also have "\<dots> = mset (map fst (filter (\<lambda>x. parse_row p x \<noteq> None) ?il))"
    by (simp only: parsed_rows_def map_filter_idx)
  finally have es: "mset (map (case_sum me_idx mi_idx) ?es) = mset (map fst (filter (\<lambda>x. parse_row p x \<noteq> None) ?il))" .
  have un: "map mi_idx (map (\<lambda>(i, l). missing_entry i l False [] ''unparseable_statement_identity'')
      (filter (\<lambda>x. parse_row p x = None) ?il)) = map fst (filter (\<lambda>x. parse_row p x = None) ?il)"
    by (simp add: missing_entry_def comp_def case_prod_beta)
  have split: "mset (map fst (filter (\<lambda>x. \<not> P x) il)) + mset (map fst (filter P il)) = mset (map fst il)"
    for P and il :: "(nat \<times> stmt_line) list" by (induction il) auto
  have "mset (map me_idx (rn_matched r)) + mset (map mi_idx (rn_missing r)) =
      mset (map fst (filter (\<lambda>x. parse_row p x \<noteq> None) ?il)) + mset (map fst (filter (\<lambda>x. parse_row p x = None) ?il))"
    unfolding reconcile_parts[OF assms] map_append un mset_append es[symmetric] map_filter_mset[symmetric]
    by (simp only: add_ac)
  then show ?thesis using split[of "\<lambda>x. parse_row p x = None" ?il] by simp
qed

theorem every_line_once_witness:
  "mset (map me_idx (rn_matched sample_recon)) + mset (map mi_idx (rn_missing sample_recon)) = mset [0..<3]"
proof -
  have "length (ps_lines sample_statement) = 3" by (simp add: sample_statement_def)
  then show ?thesis using every_line_once[OF sample_reconciled] by (simp only:)
qed

text \<open>C9. A match is sound and one-to-one: no stored row is matched twice, and a matched row is one of
  the posted rows, with the direction and the amount of the line, and either carries the line's
  reference or is dated within one day of it and passes the compatibility rule.\<close>

theorem matches_sound:
  assumes "reconcile_bank_statement p ps D = Some r"
  shows "distinct (map (\<lambda>m. t_id (me_txn m)) (rn_matched r)) \<and>
    (\<forall>m \<in> set (rn_matched r). me_txn m \<in> set D \<and> posted (me_txn m) \<and>
       me_idx m < length (ps_lines ps) \<and> me_line m = ps_lines ps ! me_idx m \<and>
       t_direction (me_txn m) = sl_direction (me_line m) \<and>
       parse_bank_amount (sl_amount (me_line m)) = Some (t_amount (me_txn m)) \<and>
       (stmt_ref_key (t_reference_number (me_txn m)) = stmt_ref_key (sl_reference (me_line m)) \<or>
        (\<exists>day x. parse_bank_date p (sl_date (me_line m)) = Some x \<and> t_transaction_date (me_txn m) = Some day \<and>
           \<bar>day - x\<bar> \<le> 1 \<and>
           is_statement_candidate_compatible (holder_of ps) (me_line m) (day \<noteq> x) (me_txn m))))"
proof (intro conjI ballI)
  let ?rows = "posted_rows D" and ?prs = "parsed_rows p ps" and ?h = "holder_of ps"
  note ok = all_claims_ok[OF parsed_rows_distinct, of ?h ?rows p ps]
  let ?claims = "snd (all_claims ?h ?rows ?prs)"
  have ids: "distinct (map (\<lambda>c. t_id (snd c)) ?claims)" using ok(2) by (simp add: claims_ok_def)
  have "distinct (map (\<lambda>m. t_id (me_txn m)) (List.map_filter (\<lambda>e. case e of Inl m \<Rightarrow> Some m | Inr _ \<Rightarrow> None)
      (map (entry_of ?h ?rows ?prs) qs)))"
    if "set qs \<subseteq> set ?prs" "distinct (map pr_idx qs)" for qs
    using that
  proof (induction qs)
    case (Cons q qs)
    have IH: "distinct (map (\<lambda>m. t_id (me_txn m)) (List.map_filter (\<lambda>e. case e of Inl m \<Rightarrow> Some m | Inr _ \<Rightarrow> None)
        (map (entry_of ?h ?rows ?prs) qs)))" using Cons by simp
    show ?case
    proof (cases "entry_of ?h ?rows ?prs q")
      case (Inl m)
      have "t_id (me_txn m) \<noteq> t_id (me_txn m2)"
        if m2: "entry_of ?h ?rows ?prs q2 = Inl m2" "q2 \<in> set qs" for q2 m2
      proof
        assume same: "t_id (me_txn m) = t_id (me_txn m2)"
        have "(q, me_txn m) \<in> set ?claims" "(q2, me_txn m2) \<in> set ?claims"
          using entry_matched[OF Inl _ parsed_rows_distinct] entry_matched[OF m2(1) _ parsed_rows_distinct]
            m2(2) Cons.prems(1) by auto
        moreover have "inj_on (\<lambda>c. t_id (snd c)) (set ?claims)" using ids by (simp add: distinct_map)
        ultimately have "(q, me_txn m) = (q2, me_txn m2)"
          using inj_onD[of "\<lambda>c. t_id (snd c)" "set ?claims" "(q, me_txn m)" "(q2, me_txn m2)"] same by simp
        then show False using Cons.prems(2) m2(2) by auto
      qed
      then have "t_id (me_txn m) \<noteq> t_id (me_txn m2)"
        if "m2 \<in> set (List.map_filter (\<lambda>e. case e of Inl m \<Rightarrow> Some m | Inr _ \<Rightarrow> None)
          (map (entry_of ?h ?rows ?prs) qs))" for m2
      proof -
        from that obtain q2 where "q2 \<in> set qs" "entry_of ?h ?rows ?prs q2 = Inl m2"
          unfolding in_map_filter_iff Inl_Some set_map by (metis imageE)
        then show ?thesis using \<open>\<And>q2 m2. entry_of ?h ?rows ?prs q2 = Inl m2 \<Longrightarrow> q2 \<in> set qs \<Longrightarrow> t_id (me_txn m) \<noteq> t_id (me_txn m2)\<close>
          by blast
      qed
      then show ?thesis using IH by (auto simp: Inl List.map_filter_simps)
    next
      case (Inr m)
      then show ?thesis using IH by (simp add: List.map_filter_simps)
    qed
  qed (simp add: List.map_filter_simps)
  then show "distinct (map (\<lambda>m. t_id (me_txn m)) (rn_matched r))"
    unfolding reconcile_parts(1)[OF assms] using parsed_rows_distinct by blast
  fix m
  assume "m \<in> set (rn_matched r)"
  then obtain pr where pr: "pr \<in> set ?prs" "entry_of ?h ?rows ?prs pr = Inl m" by (rule matched_of_row[OF assms])
  note e = entry_matched[OF pr(2,1) parsed_rows_distinct]
  have c: "me_txn m \<in> set (reference_compatible ?rows pr) \<or> me_txn m \<in> set (reachable ?h ?rows pr)"
    using e ok(2) by (auto simp: claims_ok_def claim_ok_def list_all_iff)
  have line: "me_idx m < length (ps_lines ps)" "me_line m = ps_lines ps ! me_idx m"
    "parse_bank_amount (sl_amount (me_line m)) = Some (pr_amount pr)"
    "parse_bank_date p (sl_date (me_line m)) = Some (pr_date pr)"
    using pr(1) e unfolding in_parsed_rows by auto
  show "me_txn m \<in> set D" "posted (me_txn m)" "me_idx m < length (ps_lines ps)" "me_line m = ps_lines ps ! me_idx m"
    "t_direction (me_txn m) = sl_direction (me_line m)"
    "parse_bank_amount (sl_amount (me_line m)) = Some (t_amount (me_txn m))"
    using c e line by (auto simp: reference_compatible_def reference_iff reachable_iff)
  show "stmt_ref_key (t_reference_number (me_txn m)) = stmt_ref_key (sl_reference (me_line m)) \<or>
      (\<exists>day x. parse_bank_date p (sl_date (me_line m)) = Some x \<and> t_transaction_date (me_txn m) = Some day \<and>
         \<bar>day - x\<bar> \<le> 1 \<and> is_statement_candidate_compatible ?h (me_line m) (day \<noteq> x) (me_txn m))"
    using c e line(4) by (auto simp: reference_compatible_def reference_iff reachable_iff)
qed

theorem matches_sound_witness:
  "length (rn_matched sample_recon) = 1 \<and> distinct (map (\<lambda>m. t_id (me_txn m)) (rn_matched sample_recon)) \<and>
   t_amount (me_txn (hd (rn_matched sample_recon))) = 100"
proof -
  have one: "length (rn_matched sample_recon) = 1" "t_amount (me_txn (hd (rn_matched sample_recon))) = 100"
    using sample_recon_value by (simp_all add: sample_reconciled)
  show ?thesis using matches_sound[OF sample_reconciled] one by blast
qed

text \<open>C8. The import stores no second copy: the new rows are those of the entries marked imported, the
  stored rows keep all but their categorization, the constraints of the table hold, and no posted row
  of the account has the direction of a new row and either its reference, or its amount, a date within
  one day of it and no reference to tell them apart.\<close>

theorem import_stores_no_copy:
  assumes "reconcile_bank_statement p ps D = Some r" "rn_missing r0 = rn_missing r"
    "import_missing_bank_txns p e u ps acct r0 d = (r', d')" "db_ok d"
  shows "db_ok d' \<and> (\<exists>new. map drop_category (transactions d') = map drop_category (transactions d @ new) \<and>
    map (Some \<circ> t_id) new = filter (\<lambda>i. i \<noteq> None) (map mi_imported (rn_missing r')) \<and>
    (\<forall>row \<in> set new. t_bank_statement_upload_id row = Some u \<and> t_account_id row = Some (a_id acct) \<and>
       (\<forall>t \<in> set D. posted t \<and> t_direction t \<noteq> [] \<and> t_direction t = t_direction row \<longrightarrow>
          (stmt_ref_key (t_reference_number row) = None \<or>
           stmt_ref_key (t_reference_number t) \<noteq> stmt_ref_key (t_reference_number row)) \<and>
          (t_amount t = t_amount row \<and>
           (\<exists>day x. t_transaction_date t = Some day \<and> t_transaction_date row = Some x \<and> \<bar>day - x\<bar> \<le> 1) \<longrightarrow>
           stmt_ref_key (t_reference_number row) \<noteq> None \<and> stmt_ref_key (t_reference_number t) \<noteq> None))))"
proof -
  obtain new where new: "map drop_category (transactions d') = map drop_category (transactions d @ new)"
    "list_all2 (imported_row p e u ps acct) (filter (\<lambda>m. mi_imported m \<noteq> None) (rn_missing r')) new"
    "db_ok d'"
    "map (\<lambda>m. (mi_idx m, mi_line m, mi_ambiguous m)) (rn_missing r') =
       map (\<lambda>m. (mi_idx m, mi_line m, mi_ambiguous m)) (rn_missing r)"
    using import_rows[OF assms(1,2,3)] assms(4) by blast
  have "map (Some \<circ> t_id) new = map mi_imported (filter (\<lambda>m. mi_imported m \<noteq> None) (rn_missing r'))"
    using new(2) by (induction rule: list_all2_induct) (simp_all add: imported_row_def)
  then have ids: "map (Some \<circ> t_id) new = filter (\<lambda>i. i \<noteq> None) (map mi_imported (rn_missing r'))"
    by (simp add: filter_map comp_def)
  have "t_bank_statement_upload_id row = Some u \<and> t_account_id row = Some (a_id acct) \<and>
      (\<forall>t \<in> set D. posted t \<and> t_direction t \<noteq> [] \<and> t_direction t = t_direction row \<longrightarrow>
        (stmt_ref_key (t_reference_number row) = None \<or>
         stmt_ref_key (t_reference_number t) \<noteq> stmt_ref_key (t_reference_number row)) \<and>
        (t_amount t = t_amount row \<and>
         (\<exists>day x. t_transaction_date t = Some day \<and> t_transaction_date row = Some x \<and> \<bar>day - x\<bar> \<le> 1) \<longrightarrow>
         stmt_ref_key (t_reference_number row) \<noteq> None \<and> stmt_ref_key (t_reference_number t) \<noteq> None))"
    if row: "row \<in> set new" for row
  proof -
    obtain m where m: "m \<in> set (rn_missing r')" "imported_row p e u ps acct m row"
      using list_all2_right[OF new(2) row] by (metis filter_is_subset subsetD)
    then obtain i amount day where r: "\<not> mi_ambiguous m" "parse_bank_amount (sl_amount (mi_line m)) = Some amount"
      "parse_bank_date p (sl_date (mi_line m)) = Some day" "row = statement_row e i u ps acct (mi_line m) amount day"
      by (auto simp: imported_row_def)
    obtain m0 where m0: "m0 \<in> set (rn_missing r)" "mi_line m0 = mi_line m" "\<not> mi_ambiguous m0"
      using same_image[OF new(4) m(1)] r(1) by auto
    obtain pr where pr: "pr_line pr = mi_line m" "pr_amount pr = amount" "pr_date pr = day"
      "candidate_set (holder_of ps) (posted_rows D) pr = []"
      by (rule importable_no_candidate[OF assms(1) m0(1,3) r(2,3)[folded m0(2)]]) (simp add: m0(2))
    have cols: "t_direction row = sl_direction (mi_line m)" "t_amount row = amount"
      "t_transaction_date row = Some day" "t_reference_number row = sl_reference (mi_line m)"
      "t_bank_statement_upload_id row = Some u" "t_account_id row = Some (a_id acct)"
      by (simp_all add: r(4) statement_row_def)
    have "(stmt_ref_key (t_reference_number row) = None \<or>
          stmt_ref_key (t_reference_number t) \<noteq> stmt_ref_key (t_reference_number row)) \<and>
         (t_amount t = t_amount row \<and>
          (\<exists>dy x. t_transaction_date t = Some dy \<and> t_transaction_date row = Some x \<and> \<bar>dy - x\<bar> \<le> 1) \<longrightarrow>
          stmt_ref_key (t_reference_number row) \<noteq> None \<and> stmt_ref_key (t_reference_number t) \<noteq> None)"
      if t: "t \<in> set D" "posted t \<and> t_direction t \<noteq> [] \<and> t_direction t = t_direction row" for t
    proof -
      have "t \<in> set (posted_rows D)" using t by simp
      note free = no_candidate_rows[OF pr(4) this]
      show ?thesis
      proof (intro conjI)
        show "stmt_ref_key (t_reference_number row) = None \<or>
            stmt_ref_key (t_reference_number t) \<noteq> stmt_ref_key (t_reference_number row)"
          using conjunct1[OF free] t \<open>t \<in> set (posted_rows D)\<close> cols unfolding reference_iff pr(1) by metis
        show "t_amount t = t_amount row \<and>
          (\<exists>dy x. t_transaction_date t = Some dy \<and> t_transaction_date row = Some x \<and> \<bar>dy - x\<bar> \<le> 1) \<longrightarrow>
          stmt_ref_key (t_reference_number row) \<noteq> None \<and> stmt_ref_key (t_reference_number t) \<noteq> None"
        proof (rule impI, rule ccontr)
          assume near: "t_amount t = t_amount row \<and>
            (\<exists>dy x. t_transaction_date t = Some dy \<and> t_transaction_date row = Some x \<and> \<bar>dy - x\<bar> \<le> 1)"
            and keys: "\<not> (stmt_ref_key (t_reference_number row) \<noteq> None \<and> stmt_ref_key (t_reference_number t) \<noteq> None)"
          have "is_statement_candidate_compatible (holder_of ps) (mi_line m) off t" for off
            using keys cols(4) by (intro compatible_without_keys) auto
          then have "t \<in> set (reachable (holder_of ps) (posted_rows D) pr)"
            using near t(2) \<open>t \<in> set (posted_rows D)\<close> unfolding reachable_iff pr(1,2,3) cols(1,2,3) option.inject by blast
          then show False using conjunct2[OF free] by simp
        qed
      qed
    qed
    then show ?thesis using cols by blast
  qed
  then show ?thesis using new(1,3) ids by blast
qed

theorem import_stores_no_copy_witness:
  "db_ok (snd sample_import) \<and> map t_id (transactions (snd sample_import)) = [4, 5]"
proof -
  have ok: "db_ok one_alert"
    by (simp add: db_ok_def one_alert_def uq_transactions_ref_def some_values_def ref_key_def blank_txn_def)
  have "import_missing_bank_txns sample_dates sample_env 1 sample_statement blank_account sample_recon one_alert =
    (fst sample_import, snd sample_import)" by (simp add: sample_import_def)
  from import_stores_no_copy[OF sample_reconciled refl this ok] have "db_ok (snd sample_import)" by blast
  moreover have "map t_id (transactions (snd sample_import)) = [4, 5]" using sample_import_value by (simp add: case_prod_beta)
  ultimately show ?thesis ..
qed

text \<open>C10. A line that was imported is never imported again: in every later reconciliation of the same
  statement against rows that include the imported one, whatever else changed in them and in the row
  itself but its reference, direction, amount, date and statement, the line is matched or held back.\<close>

theorem imported_line_recognised:
  assumes "reconcile_bank_statement p ps D = Some r" "rn_missing r0 = rn_missing r"
    "import_missing_bank_txns p e u ps acct r0 d = (r', d')"
    "m \<in> set (rn_missing r')" "mi_imported m = Some i" "sl_direction (mi_line m) \<noteq> []"
    "row \<in> set D2" "t_direction row = sl_direction (mi_line m)" "t_reference_number row = sl_reference (mi_line m)"
    "parse_bank_amount (sl_amount (mi_line m)) = Some (t_amount row)"
    "parse_bank_date p (sl_date (mi_line m)) = t_transaction_date row"
    "t_bank_statement_upload_id row \<noteq> None"
    "reconcile_bank_statement p ps D2 = Some r2" "m2 \<in> set (rn_missing r2)" "mi_idx m2 = mi_idx m"
  shows "mi_ambiguous m2"
proof (rule ccontr)
  assume new: "\<not> mi_ambiguous m2"
  have kept: "map (\<lambda>m. (mi_idx m, mi_line m, mi_ambiguous m)) (rn_missing r') =
      map (\<lambda>m. (mi_idx m, mi_line m, mi_ambiguous m)) (rn_missing r)"
    using import_rows[OF assms(1,2,3)] by blast
  obtain m0 where m0: "m0 \<in> set (rn_missing r)" "mi_line m0 = mi_line m" "mi_idx m0 = mi_idx m"
    using same_image[OF kept assms(4)] by auto
  have same: "mi_line m2 = mi_line m"
    using missing_line[OF assms(1) m0(1)] missing_line[OF assms(13,14)] m0 assms(15) by simp
  obtain day where day: "t_transaction_date row = Some day" "parse_bank_date p (sl_date (mi_line m2)) = Some day"
  proof -
    have "mi_imported m \<noteq> None" using assms(5) by simp
    then have "m \<in> set (filter (\<lambda>m. mi_imported m \<noteq> None) (rn_missing r'))" using assms(4) by simp
    moreover obtain new where "list_all2 (imported_row p e u ps acct) (filter (\<lambda>m. mi_imported m \<noteq> None) (rn_missing r')) new"
      using import_rows[OF assms(1,2,3)] by blast
    ultimately obtain x where "imported_row p e u ps acct m x" by (metis list_all2_left)
    then obtain day where "parse_bank_date p (sl_date (mi_line m)) = Some day" unfolding imported_row_def by blast
    then show thesis using that assms(11) same by simp
  qed
  obtain pr where pr: "pr_line pr = mi_line m2" "pr_amount pr = t_amount row" "pr_date pr = day"
    "candidate_set (holder_of ps) (posted_rows D2) pr = []"
    by (rule importable_no_candidate[OF assms(13,14) new assms(10)[folded same] day(2)])
  have "row \<in> set (posted_rows D2)" using assms(7,12) by (simp add: posted_def)
  moreover have "is_statement_candidate_compatible (holder_of ps) (mi_line m) off row" for off
    using assms(9) by (intro compatible_same_reference) simp
  ultimately have "row \<in> set (reachable (holder_of ps) (posted_rows D2) pr)"
    using assms(6,8) day(1) unfolding reachable_iff pr(1,2,3) same by simp
  then show False using no_candidate_rows[OF pr(4) \<open>row \<in> set (posted_rows D2)\<close>] by simp
qed

definition later_row :: txn where
  "later_row = blank_txn\<lparr>t_id := 5, t_account_id := Some 1, t_transaction_date := Some 10, t_amount := 250,
     t_counterparty := Some ''SWIGGY'', t_bank_statement_upload_id := Some 1\<rparr>"

definition later_recon :: recon where
  "later_recon =
     the (reconcile_bank_statement sample_dates sample_statement [later_row, later_row\<lparr>t_id := 9\<rparr>])"

theorem imported_line_recognised_witness:
  "mi_ambiguous (rn_missing later_recon ! 2) \<and> mi_imported (rn_missing (fst sample_import) ! 1) = Some 5"
proof -
  let ?m = "rn_missing (fst sample_import) ! 1" and ?m2 = "rn_missing later_recon ! 2"
  have run: "import_missing_bank_txns sample_dates sample_env 1 sample_statement blank_account sample_recon one_alert =
    (fst sample_import, snd sample_import)" by (simp add: sample_import_def)
  have v: "length (rn_missing (fst sample_import)) = 2" "mi_imported ?m = Some 5" "mi_idx ?m = 1"
    "mi_line ?m = sample_line\<lparr>sl_amount := ''250''\<rparr>" using sample_import_value by (simp_all add: case_prod_beta)
  have run2: "reconcile_bank_statement sample_dates sample_statement [later_row, later_row\<lparr>t_id := 9\<rparr>] = Some later_recon"
    using reconciles[of sample_statement] by (simp add: sample_statement_def balance_verification_def later_recon_def)
  have "case reconcile_bank_statement sample_dates sample_statement [later_row, later_row\<lparr>t_id := 9\<rparr>] of None \<Rightarrow> False
    | Some r \<Rightarrow> length (rn_missing r) = 3 \<and> mi_idx (rn_missing r ! 2) = 1" by code_simp
  then have v2: "length (rn_missing later_recon) = 3" "mi_idx ?m2 = 1" by (simp_all add: run2)
  have inn: "?m \<in> set (rn_missing (fst sample_import))" "later_row \<in> set [later_row, later_row\<lparr>t_id := 9\<rparr>]"
    "?m2 \<in> set (rn_missing later_recon)" using v(1) v2(1) by simp_all
  have idx: "mi_idx ?m2 = mi_idx ?m" by (simp only: v(3) v2(2))
  have amount: "parse_bank_amount ''250'' = Some 250" "parse_bank_date sample_dates ''d'' = Some 10" by code_simp+
  have r: "sl_direction (mi_line ?m) \<noteq> []" "t_direction later_row = sl_direction (mi_line ?m)"
    "t_reference_number later_row = sl_reference (mi_line ?m)"
    "parse_bank_amount (sl_amount (mi_line ?m)) = Some (t_amount later_row)"
    "parse_bank_date sample_dates (sl_date (mi_line ?m)) = t_transaction_date later_row"
    "t_bank_statement_upload_id later_row \<noteq> None"
    unfolding v(4) by (simp_all add: later_row_def blank_txn_def sample_line_def amount)
  from imported_line_recognised[OF sample_reconciled refl run inn(1) v(2) r(1) inn(2) r(2-6) run2 inn(3) idx] v(2)
  show ?thesis by (rule conjI)
qed

end
