(* ===== verification/Sequence_Matcher.thy ===== *)
theory Sequence_Matcher
  imports Prelude
begin

text \<open>
  \<open>difflib.SequenceMatcher(None, a, b).ratio()\<close> of Python's standard library, which
  \<^verbatim>\<open>services/statements/cc.py\<close> compares with its similarity bound. The longest block of equal
  characters is found first, the first of the longest in \<open>a\<close> and then in \<open>b\<close>, and the search goes on
  to its left and to its right. A character that is popular in a long \<open>b\<close> starts no block but may
  extend one. The blocks never overlap, so the ratio lies between 0 and 1.
\<close>

section \<open>The longest block\<close>

definition popular :: "string \<Rightarrow> char \<Rightarrow> bool" where
  "popular b c \<longleftrightarrow>
     200 \<le> length b \<and> length b div 100 + 1 < length (filter (\<lambda>x. x = c) b)"

text \<open>For one character of \<open>a\<close>: the length of the block that ends at each position of \<open>b\<close>.\<close>

definition ends_at :: "(char \<Rightarrow> bool) \<Rightarrow> char \<Rightarrow> nat list \<Rightarrow> string \<Rightarrow> nat list" where
  "ends_at pop c prev b = map2 (\<lambda>k y. if y = c \<and> \<not> pop y then k + 1 else 0) (0 # prev) b"

type_synonym block = "nat \<times> nat \<times> nat"

fun best_of_row :: "nat \<Rightarrow> nat \<Rightarrow> nat list \<Rightarrow> block \<Rightarrow> block" where
  "best_of_row i j [] best = best"
| "best_of_row i j (k # ks) best =
     best_of_row i (Suc j) ks (if snd (snd best) < k then (i + 1 - k, j + 1 - k, k) else best)"

fun longest :: "(char \<Rightarrow> bool) \<Rightarrow> nat \<Rightarrow> nat list \<Rightarrow> string \<Rightarrow> string \<Rightarrow> block \<Rightarrow> block" where
  "longest pop i prev [] b best = best"
| "longest pop i prev (c # a) b best =
     (let row = ends_at pop c prev b in longest pop (Suc i) row a b (best_of_row i 0 row best))"

fun common_prefix :: "string \<Rightarrow> string \<Rightarrow> nat" where
  "common_prefix (x # xs) (y # ys) = (if x = y then Suc (common_prefix xs ys) else 0)"
| "common_prefix _ _ = 0"

definition find_longest_match :: "(char \<Rightarrow> bool) \<Rightarrow> string \<Rightarrow> string \<Rightarrow> block" where
  "find_longest_match pop a b =
     (let (i, j, k) = longest pop 0 (replicate (length b) 0) a b (0, 0, 0);
          back = common_prefix (rev (take i a)) (rev (take j b));
          forth = common_prefix (drop (i + k) a) (drop (j + k) b)
      in (i - back, j - back, back + k + forth))"

lemma common_prefix_le: "common_prefix xs ys \<le> length xs" "common_prefix xs ys \<le> length ys"
  by (induction xs ys rule: common_prefix.induct) auto

text \<open>A block lies in both texts, and a longer end at a position needs as many positions before it.\<close>

definition inside :: "nat \<Rightarrow> nat \<Rightarrow> block \<Rightarrow> bool" where
  "inside m n x = (case x of (i, j, k) \<Rightarrow> i + k \<le> m \<and> j + k \<le> n)"

definition row_ok :: "nat \<Rightarrow> nat \<Rightarrow> nat list \<Rightarrow> bool" where
  "row_ok m n row \<longleftrightarrow> length row = n \<and> (\<forall>j < n. row ! j \<le> m \<and> row ! j \<le> j + 1)"

lemma ends_at_nth:
  "j < length b \<Longrightarrow> length prev = length b \<Longrightarrow>
   ends_at pop c prev b ! j = (if b ! j = c \<and> \<not> pop (b ! j) then (0 # prev) ! j + 1 else 0)"
  by (simp add: ends_at_def)

lemma ends_at_ok:
  assumes "row_ok m (length b) prev"
  shows "row_ok (Suc m) (length b) (ends_at pop c prev b)"
  unfolding row_ok_def
proof (intro conjI allI impI)
  show "length (ends_at pop c prev b) = length b" using assms by (simp add: row_ok_def ends_at_def)
  fix j
  assume j: "j < length b"
  have "(0 # prev) ! j \<le> m \<and> (0 # prev) ! j \<le> j"
    using assms j by (cases j) (simp_all add: row_ok_def)
  then show "ends_at pop c prev b ! j \<le> Suc m" "ends_at pop c prev b ! j \<le> j + 1"
    using assms j by (simp_all add: ends_at_nth row_ok_def)
qed

lemma best_of_row_inside:
  assumes "\<forall>t < length ks. ks ! t \<le> Suc i \<and> ks ! t \<le> j + t + 1" "i < m" "inside m n best" "j + length ks \<le> n"
  shows "inside m n (best_of_row i j ks best)"
  using assms
proof (induction ks arbitrary: j best)
  case (Cons k ks)
  have k: "k \<le> Suc i" "k \<le> j + 1" using Cons.prems(1) by force+
  have "inside m n (if snd (snd best) < k then (i + 1 - k, j + 1 - k, k) else best)"
    using Cons.prems(2-4) k by (auto simp: inside_def)
  moreover have "\<forall>t < length ks. ks ! t \<le> Suc i \<and> ks ! t \<le> Suc j + t + 1"
    using Cons.prems(1) by force
  ultimately show ?case using Cons.IH[of "Suc j"] Cons.prems(2,4) by simp
qed simp

lemma longest_inside:
  assumes "row_ok i (length b) prev" "inside m (length b) best" "i + length a \<le> m"
  shows "inside m (length b) (longest pop i prev a b best)"
  using assms
proof (induction pop i prev a b best rule: longest.induct)
  case (2 pop i prev c a b best)
  define row where "row = ends_at pop c prev b"
  have row: "row_ok (Suc i) (length b) row" using 2(2) ends_at_ok by (simp add: row_def)
  have "inside m (length b) (best_of_row i 0 row best)"
    using row 2(3,4) by (intro best_of_row_inside) (auto simp: row_ok_def)
  then show ?case using 2(1)[OF row_def row] 2(4) by (simp add: row_def[symmetric] Let_def)
qed simp

lemma find_longest_match_inside: "inside (length a) (length b) (find_longest_match pop a b)"
proof -
  obtain i j k where l: "longest pop 0 (replicate (length b) 0) a b (0, 0, 0) = (i, j, k)" by (metis prod_cases3)
  have "row_ok 0 (length b) (replicate (length b) 0)" by (simp add: row_ok_def)
  from longest_inside[OF this, of "length a" "(0, 0, 0)" a pop]
  have ijk: "i + k \<le> length a" "j + k \<le> length b" by (simp_all add: l inside_def)
  have "common_prefix (rev (take i a)) (rev (take j b)) \<le> i" "common_prefix (rev (take i a)) (rev (take j b)) \<le> j"
    "common_prefix (drop (i + k) a) (drop (j + k) b) \<le> length a - (i + k)"
    "common_prefix (drop (i + k) a) (drop (j + k) b) \<le> length b - (j + k)"
    using common_prefix_le[of "rev (take i a)" "rev (take j b)"] common_prefix_le[of "drop (i + k) a" "drop (j + k) b"] ijk
    by simp_all
  then have "i + k + common_prefix (drop (i + k) a) (drop (j + k) b) \<le> length a"
    "j + k + common_prefix (drop (i + k) a) (drop (j + k) b) \<le> length b" using ijk by linarith+
  then show ?thesis using \<open>common_prefix (rev (take i a)) (rev (take j b)) \<le> i\<close>
    \<open>common_prefix (rev (take i a)) (rev (take j b)) \<le> j\<close>
    by (simp add: find_longest_match_def l inside_def Let_def)
qed

section \<open>All blocks\<close>

text \<open>The sizes of the blocks add up; the search ends because each block takes a character of \<open>a\<close>.\<close>

function matched_size :: "(char \<Rightarrow> bool) \<Rightarrow> string \<Rightarrow> string \<Rightarrow> nat" where
  "matched_size pop a b =
     (case find_longest_match pop a b of
        (i, j, k) \<Rightarrow>
          if k = 0 then 0
          else matched_size pop (take i a) (take j b) + k + matched_size pop (drop (i + k) a) (drop (j + k) b))"
  by pat_completeness auto

lemma find_longest_match_le: "(i, j, k) = find_longest_match pop a b \<Longrightarrow> i + k \<le> length a"
  using find_longest_match_inside[of a b pop] by (auto simp: inside_def split: prod.splits)

termination matched_size
  by (relation "measure (\<lambda>(pop, a, b). length a)") (auto dest: find_longest_match_le)

declare matched_size.simps [simp del]

definition sequence_ratio :: "string \<Rightarrow> string \<Rightarrow> decimal" where
  "sequence_ratio a b =
     (if length a + length b = 0 then 1
      else 2 * of_nat (matched_size (popular b) a b) / of_nat (length a + length b))"

lemma matched_size_le: "matched_size pop a b \<le> length a \<and> matched_size pop a b \<le> length b"
proof (induction pop a b rule: matched_size.induct)
  case (1 pop a b)
  obtain i j k where f: "find_longest_match pop a b = (i, j, k)" by (metis prod_cases3)
  have ijk: "i + k \<le> length a" "j + k \<le> length b"
    using find_longest_match_inside[of a b pop] by (simp_all add: f inside_def)
  show ?case
  proof (cases "k = 0")
    case False
    have "matched_size pop (take i a) (take j b) \<le> i" "matched_size pop (take i a) (take j b) \<le> j"
      "matched_size pop (drop (i + k) a) (drop (j + k) b) \<le> length a - (i + k)"
      "matched_size pop (drop (i + k) a) (drop (j + k) b) \<le> length b - (j + k)"
      using 1(1)[OF f[symmetric] refl False] 1(2)[OF f[symmetric] refl False] ijk by simp_all
    then have "matched_size pop (take i a) (take j b) + k + matched_size pop (drop (i + k) a) (drop (j + k) b) \<le> length a"
      "matched_size pop (take i a) (take j b) + k + matched_size pop (drop (i + k) a) (drop (j + k) b) \<le> length b"
      using ijk by linarith+
    then show ?thesis using False by (simp add: matched_size.simps[of pop a b] f)
  qed (simp add: matched_size.simps[of pop a b] f)
qed

lemma sequence_ratio_bounds: "0 \<le> sequence_ratio a b \<and> sequence_ratio a b \<le> 1"
proof (cases "length a + length b = 0")
  case False
  have "2 * matched_size (popular b) a b \<le> length a + length b" using matched_size_le[of "popular b" a b] by linarith
  then have "(of_nat (2 * matched_size (popular b) a b) :: rat) \<le> of_nat (length a + length b)"
    by (simp only: of_nat_le_iff)
  moreover have "(0::rat) < of_nat (length a + length b)" using False unfolding of_nat_0_less_iff by simp
  ultimately show ?thesis using False by (simp add: sequence_ratio_def divide_le_eq)
qed (simp add: sequence_ratio_def)

end
