(* ===== verification/Cc_Reconcile.thy ===== *)
theory Cc_Reconcile
  imports Bank_Import Sequence_Matcher
begin

text \<open>
  The reconciliation of a card statement in \<^verbatim>\<open>services/statements/cc.py\<close>: the lines that are card
  transactions, the greedy pass over the stored rows, contested winners and their resolution by the
  merchant, and the pairing of foreign alerts. The parsed statement is an argument; so is
  \<open>normalize_merchant_name\<close> of the parser package. A line is named by its position.
  On the texts of the model NFC changes nothing, and case folding is lower-casing with the sharp s
  spelled out.
\<close>

section \<open>Statement lines\<close>

record cc_line =
  cl_date :: string
  cl_amount :: string
  cl_narration :: string
  cl_card_number :: "string option"
  cl_person :: "string option"
  cl_credit_reasons :: "string option"

record parsed_cc =
  pc_bank :: string
  pc_card_number :: "string option"
  pc_name :: "string option"
  pc_due_date :: "string option"
  pc_total_amount_due :: "string option"
  pc_transactions :: "cc_line list"
  pc_payments_refunds :: "cc_line list"

record cc_row =
  cr_idx :: nat
  cr_list :: string
  cr_direction :: string
  cr_line :: cc_line

definition SETTLEMENT_BAND :: decimal where
  "SETTLEMENT_BAND = 12 / 1000"

definition INTERNAL_TRANSFER_CREDIT_REASONS :: "string list" where
  "INTERNAL_TRANSFER_CREDIT_REASONS = [''emi_installment_transfer'']"

definition MERCHANT_SIMILARITY :: decimal where
  "MERCHANT_SIMILARITY = 4 / 5"

text \<open>A \<open>Counter\<close> of keys is the list of its keys with their multiplicity.\<close>

type_synonym twin_key = "string option \<times> string \<times> string \<times> string"

definition ledger_twin_key :: "cc_line \<Rightarrow> twin_key" where
  "ledger_twin_key l = (cl_card_number l, cl_date l, cl_amount l, py_upper (cl_narration l))"

definition internal_transfer_debit_twins :: "cc_line list \<Rightarrow> twin_key list" where
  "internal_transfer_debit_twins debits = map ledger_twin_key debits"

definition claim_internal_transfer_twin :: "cc_line \<Rightarrow> twin_key list \<Rightarrow> twin_key list option" where
  "claim_internal_transfer_twin l twins =
     (if cl_credit_reasons l \<notin> Some ` set INTERNAL_TRANSFER_CREDIT_REASONS then None
      else if ledger_twin_key l \<notin> set twins then None
      else Some (remove1 (ledger_twin_key l) twins))"

fun real_credits :: "twin_key list \<Rightarrow> cc_line list \<Rightarrow> cc_line list" where
  "real_credits twins [] = []"
| "real_credits twins (l # ls) =
     (case claim_internal_transfer_twin l twins of
        Some twins' \<Rightarrow> real_credits twins' ls
      | None \<Rightarrow> l # real_credits twins ls)"

definition number_rows :: "(string \<times> string \<times> cc_line) list \<Rightarrow> cc_row list" where
  "number_rows ls =
     map (\<lambda>(i, (source, direction, l)). \<lparr>cr_idx = i, cr_list = source, cr_direction = direction, cr_line = l\<rparr>)
       (zip [0..<length ls] ls)"

definition statement_rows :: "parsed_cc \<Rightarrow> cc_row list" where
  "statement_rows ps =
     number_rows
       (map (\<lambda>l. (''transactions'', ''debit'', l)) (pc_transactions ps) @
        map (\<lambda>l. (''payments_refunds'', ''credit'', l))
          (real_credits (internal_transfer_debit_twins (pc_transactions ps)) (pc_payments_refunds ps)))"

section \<open>Cards\<close>

definition cc_card_compatible :: "string option \<Rightarrow> string list \<Rightarrow> bool" where
  "cc_card_compatible db_card_mask account_card_masks \<longleftrightarrow>
     (let db_mask = normalize_mask db_card_mask in
      db_mask = [] \<or> account_card_masks = [] \<or> list_ex (mask_matches db_mask) account_card_masks)"

fun all_pairs :: "('a \<Rightarrow> 'a \<Rightarrow> bool) \<Rightarrow> 'a list \<Rightarrow> bool" where
  "all_pairs P [] \<longleftrightarrow> True"
| "all_pairs P (x # xs) \<longleftrightarrow> list_all (P x) xs \<and> all_pairs P xs"

definition identifies_one_card :: "string \<Rightarrow> string list \<Rightarrow> bool" where
  "identifies_one_card m account_card_masks \<longleftrightarrow>
     (let matched = filter (mask_matches m) account_card_masks
      in matched \<noteq> [] \<and> all_pairs mask_matches matched)"

definition confirmed_same_card :: "string option \<Rightarrow> string option \<Rightarrow> string list \<Rightarrow> bool" where
  "confirmed_same_card stmt_card db_card_mask account_card_masks \<longleftrightarrow>
     (let stmt_mask = normalize_mask stmt_card; db_mask = normalize_mask db_card_mask in
      mask_matches stmt_mask db_mask \<and> identifies_one_card stmt_mask account_card_masks \<and>
      identifies_one_card db_mask account_card_masks)"

definition confirmed_different_card :: "string option \<Rightarrow> string option \<Rightarrow> bool" where
  "confirmed_different_card stmt_card db_card_mask \<longleftrightarrow>
     (let stmt_mask = normalize_mask stmt_card; db_mask = normalize_mask db_card_mask in
      stmt_mask \<noteq> [] \<and> db_mask \<noteq> [] \<and> \<not> mask_matches stmt_mask db_mask)"

definition load_account_card_masks :: "db \<Rightarrow> int \<Rightarrow> string list" where
  "load_account_card_masks d account_id =
     (case find (\<lambda>a. a_id a = account_id) (accounts d) of
        None \<Rightarrow> []
      | Some a \<Rightarrow>
          filter (\<lambda>m. m \<noteq> [])
            (normalize_mask (a_account_number a) #
             map (\<lambda>c. normalize_mask (Some (c_card_mask c))) (filter (\<lambda>c. c_account_id c = account_id) (cards d))))"

section \<open>Merchants\<close>

definition py_isalpha :: "char \<Rightarrow> bool" where
  "py_isalpha c \<longleftrightarrow>
     (let n = char_code c in
        py_isalnum c \<and> \<not> ascii_digit c \<and> n \<notin> {178, 179, 185, 188, 189, 190})"

definition casefold :: "string \<Rightarrow> string" where
  "casefold s = concat (map (\<lambda>c. if char_code c = 223 then ''ss'' else [lower_char c]) s)"

definition normalize_narration :: "string option \<Rightarrow> string" where
  "normalize_narration s = (if \<not> truthy s then [] else casefold (join_words (py_words (or_empty s))))"

definition is_word_char :: "char \<Rightarrow> bool" where
  "is_word_char c \<longleftrightarrow> py_isalnum c \<or> c = CHR ''_''"

text \<open>\<open>w\<close>: the character before the text continues a word.\<close>

fun token_at :: "bool \<Rightarrow> string \<Rightarrow> string \<Rightarrow> bool" where
  "token_at w needle [] \<longleftrightarrow> False"
| "token_at w needle (c # s) \<longleftrightarrow>
     \<not> w \<and> prefix needle (c # s) \<and>
       (case drop (length needle) (c # s) of [] \<Rightarrow> True | x # _ \<Rightarrow> \<not> is_word_char x) \<or>
     token_at (is_word_char c) needle s"

definition contains_whole_token :: "string \<Rightarrow> string \<Rightarrow> bool" where
  "contains_whole_token haystack needle \<longleftrightarrow> needle \<noteq> [] \<and> token_at False needle haystack"

definition merchant_separator :: "char \<Rightarrow> bool" where
  "merchant_separator c \<longleftrightarrow> py_isspace c \<or> c \<in> set ''.,/*-''"

fun fold_runs :: "bool \<Rightarrow> string \<Rightarrow> string" where
  "fold_runs in_run [] = []"
| "fold_runs in_run (c # s) =
     (if \<not> merchant_separator c then c # fold_runs False s
      else if in_run then fold_runs True s
      else CHR '' '' # fold_runs True s)"

text \<open>A run at an edge of the text stays.\<close>

definition fold_separators :: "string \<Rightarrow> string" where
  "fold_separators s =
     (let lead = takeWhile merchant_separator s;
          rest = dropWhile merchant_separator s;
          trail = rev (takeWhile merchant_separator (rev rest))
      in lead @ fold_runs False (take (length rest - length trail) rest) @ trail)"

definition same_merchant :: "(string \<Rightarrow> string) \<Rightarrow> string \<Rightarrow> txn \<Rightarrow> bool" where
  "same_merchant normalize_merchant_name line_narration t \<longleftrightarrow>
     (let narration = normalize_merchant_name line_narration;
          stored = normalize_merchant_name (or_empty (t_counterparty t))
      in narration \<noteq> [] \<and> stored \<noteq> [] \<and>
         ((if length narration \<le> length stored then sublist narration stored else sublist stored narration) \<or>
          MERCHANT_SIMILARITY \<le> sequence_ratio narration stored))"

definition counterparty_singles_out :: "string \<Rightarrow> txn \<Rightarrow> bool" where
  "counterparty_singles_out line_narration t \<longleftrightarrow>
     (let narration = normalize_narration (Some line_narration);
          counterparty = normalize_narration (t_counterparty t);
          db_narration = normalize_narration (t_raw_description t)
      in narration \<noteq> [] \<and>
         (counterparty \<noteq> [] \<and>
            (contains_whole_token narration counterparty \<or>
             contains_whole_token (fold_separators narration) (fold_separators counterparty)) \<or>
          db_narration \<noteq> [] \<and> db_narration = narration))"

definition is_glued_prefix :: "string \<Rightarrow> txn \<Rightarrow> bool" where
  "is_glued_prefix line_narration t \<longleftrightarrow>
     (let narration = normalize_narration (Some line_narration);
          counterparty = normalize_narration (t_counterparty t);
          rest = drop (length counterparty) narration
      in 8 \<le> length counterparty \<and> (CHR '' '' \<in> set counterparty \<or> CHR ''*'' \<in> set counterparty) \<and>
         prefix counterparty narration \<and> rest \<noteq> [] \<and> list_all py_isalpha rest)"

text \<open>The rows, among those given, that the line names as its own.\<close>

definition row_names :: "cc_line \<Rightarrow> txn list \<Rightarrow> txn list" where
  "row_names l ts =
     (let same_card = filter (\<lambda>t. \<not> confirmed_different_card (cl_card_number l) (t_card_mask t)) ts;
          whole = filter (counterparty_singles_out (cl_narration l)) same_card
      in if whole \<noteq> [] then whole else filter (is_glued_prefix (cl_narration l)) same_card)"

section \<open>Holders\<close>

definition is_cased :: "char \<Rightarrow> bool" where
  "is_cased c \<longleftrightarrow> py_isalpha c"

fun title_loop :: "bool \<Rightarrow> string \<Rightarrow> string" where
  "title_loop prev_cased [] = []"
| "title_loop prev_cased (c # s) =
     (if prev_cased then [lower_char c]
      else if char_code c = 223 then ''Ss'' else [upper_char c]) @ title_loop (is_cased c) s"

definition card_holder_name :: "string option \<Rightarrow> string option" where
  "card_holder_name person =
     (if truthy person \<and> py_strip (or_empty person) \<noteq> []
      then Some (title_loop False (join_words (py_words (or_empty person)))) else None)"

text \<open>\<open>\s*addon\s*(\d{4})\s*\<close>, without regard to case: the digits.\<close>

definition addon_digits :: "string option \<Rightarrow> string option" where
  "addon_digits person =
     (let low = py_lower (py_strip (or_empty person));
          digits = dropWhile py_isspace (drop 5 low)
      in if prefix ''addon'' low \<and> length digits = 4 \<and> list_all ascii_digit digits then Some digits else None)"

definition addon_card_label :: "string option \<Rightarrow> (string \<times> string option) list \<Rightarrow> string option" where
  "addon_card_label person cs =
     (case addon_digits person of
        None \<Rightarrow> None
      | Some digits \<Rightarrow>
          map_option (\<lambda>(_, label). py_strip (or_empty label))
            (find (\<lambda>(m, label). suffix digits (normalize_mask (Some m)) \<and> py_strip (or_empty label) \<noteq> []) cs))"

definition statement_card_holder :: "db \<Rightarrow> int option \<Rightarrow> string option \<Rightarrow> string option" where
  "statement_card_holder d account_id person =
     (let registered = map (\<lambda>c. (c_card_mask c, c_label c))
            (sort_key c_id (filter (\<lambda>c. Some (c_account_id c) = account_id) (cards d)))
      in case (if account_id = None then None else addon_card_label person registered) of
           Some label \<Rightarrow> Some label
         | None \<Rightarrow> card_holder_name person)"

type_synonym cc_identity = "string \<times> string option"

definition cc_refresh_identity :: "cc_line \<Rightarrow> cc_identity" where
  "cc_refresh_identity l = (py_strip (cl_narration l), card_holder_name (cl_person l))"

section \<open>What a line could be\<close>

record cc_parsed =
  cq_row :: cc_row
  cq_amount :: decimal
  cq_date :: date

definition parse_cc_row :: "date_parser \<Rightarrow> cc_row \<Rightarrow> cc_parsed option" where
  "parse_cc_row p r =
     (case (parse_cc_amount (cl_amount (cr_line r)), parse_cc_date p (cl_date (cr_line r))) of
        (Some amount, Some day) \<Rightarrow> Some \<lparr>cq_row = r, cq_amount = amount, cq_date = day\<rparr>
      | _ \<Rightarrow> None)"

definition settles_within_band :: "decimal \<Rightarrow> decimal \<Rightarrow> bool" where
  "settles_within_band settled authorised \<longleftrightarrow>
     \<bar>settled - authorised\<bar> \<le> max \<bar>settled\<bar> \<bar>authorised\<bar> * SETTLEMENT_BAND"

text \<open>A voided charge never posts; a row that a statement imported did. Only a rupee row with a date pairs.\<close>

definition cc_posted :: "txn \<Rightarrow> bool" where
  "cc_posted t \<longleftrightarrow> t_voided t \<noteq> Some True \<or> t_statement_upload_id t \<noteq> None"

definition cc_pool :: "txn list \<Rightarrow> txn list" where
  "cc_pool rows = filter (\<lambda>t. normalized_currency (t_currency t) = ''INR'' \<and> t_transaction_date t \<noteq> None) rows"

definition cc_pool_at :: "txn list \<Rightarrow> date \<Rightarrow> string \<Rightarrow> txn list" where
  "cc_pool_at rows day direction =
     filter (\<lambda>t. t_transaction_date t = Some day \<and> t_direction t = direction) (cc_pool rows)"

definition banded :: "txn list \<Rightarrow> cc_parsed \<Rightarrow> txn list" where
  "banded rows c =
     concat (map (\<lambda>offset. filter (\<lambda>t. settles_within_band (cq_amount c) (t_amount t))
                             (cc_pool_at rows (cq_date c + offset) (cr_direction (cq_row c)))) [0, -1, 1])"

definition exact_set :: "txn list \<Rightarrow> cc_parsed \<Rightarrow> txn list" where
  "exact_set rows c = filter (\<lambda>t. t_amount t = cq_amount c) (banded rows c)"

definition cc_candidate_set :: "(string \<Rightarrow> string) \<Rightarrow> txn list \<Rightarrow> cc_parsed \<Rightarrow> txn list" where
  "cc_candidate_set nm rows c =
     filter (\<lambda>t. t_amount t = cq_amount c \<or> same_merchant nm (cl_narration (cr_line (cq_row c))) t) (banded rows c)"

section \<open>The greedy pass\<close>

text \<open>The claims in statement order; a claimed row leaves the pool.\<close>

type_synonym cc_claims = "(cc_parsed \<times> txn) list"

definition cc_consumed :: "cc_claims \<Rightarrow> int list" where
  "cc_consumed cl = map (\<lambda>(_, t). t_id t) cl"

definition cc_pick :: "string list \<Rightarrow> txn list \<Rightarrow> int list \<Rightarrow> cc_parsed \<Rightarrow> int \<Rightarrow> txn option" where
  "cc_pick masks rows consumed c offset =
     find (\<lambda>t. t_amount t = cq_amount c \<and> t_id t \<notin> set consumed \<and> cc_card_compatible (t_card_mask t) masks)
       (cc_pool_at rows (cq_date c + offset) (cr_direction (cq_row c)))"

definition cc_claim :: "string list \<Rightarrow> txn list \<Rightarrow> cc_parsed \<Rightarrow> cc_claims \<Rightarrow> cc_claims" where
  "cc_claim masks rows c cl =
     (case first_pick (cc_pick masks rows (cc_consumed cl) c) [0, -1, 1] of
        None \<Rightarrow> cl | Some t \<Rightarrow> cl @ [(c, t)])"

definition cc_claims_of :: "string list \<Rightarrow> txn list \<Rightarrow> cc_parsed list \<Rightarrow> cc_claims" where
  "cc_claims_of masks rows cs = fold (cc_claim masks rows) cs []"

section \<open>Contested winners\<close>

definition cc_rivals :: "string list \<Rightarrow> txn list \<Rightarrow> cc_parsed list \<Rightarrow> cc_parsed \<times> txn \<Rightarrow> cc_parsed list" where
  "cc_rivals masks rows cs claim =
     (case claim of (c, t) \<Rightarrow>
        let reaching = filter (\<lambda>q. cr_idx (cq_row q) \<noteq> cr_idx (cq_row c) \<and>
                                   t_id t \<in> set (map t_id (exact_set rows q))) cs
        in if confirmed_same_card (cl_card_number (cr_line (cq_row c))) (t_card_mask t) masks
           then filter (\<lambda>q. \<not> confirmed_different_card (cl_card_number (cr_line (cq_row q))) (t_card_mask t)) reaching
           else reaching)"

definition cc_contested :: "string list \<Rightarrow> txn list \<Rightarrow> cc_parsed list \<Rightarrow> cc_parsed \<times> txn \<Rightarrow> bool" where
  "cc_contested masks rows cs claim \<longleftrightarrow>
     list_ex (\<lambda>q. cc_refresh_identity (cr_line (cq_row q)) \<noteq> cc_refresh_identity (cr_line (cq_row (fst claim))))
       (cc_rivals masks rows cs claim)"

text \<open>The ties: the connected components of the contested claims under a common exact candidate.\<close>

definition tied :: "txn list \<Rightarrow> cc_parsed \<times> txn \<Rightarrow> cc_parsed \<times> txn \<Rightarrow> bool" where
  "tied rows x y \<longleftrightarrow>
     list_ex (\<lambda>t. t_id t \<in> set (map t_id (exact_set rows (fst y)))) (exact_set rows (fst x))"

definition add_to_ties :: "txn list \<Rightarrow> cc_parsed \<times> txn \<Rightarrow> cc_claims list \<Rightarrow> cc_claims list" where
  "add_to_ties rows x groups =
     (concat (filter (list_ex (tied rows x)) groups) @ [x]) # filter (\<lambda>g. \<not> list_ex (tied rows x) g) groups"

definition ties :: "txn list \<Rightarrow> cc_claims \<Rightarrow> cc_claims list" where
  "ties rows claims = fold (add_to_ties rows) claims []"

definition names_of :: "txn list \<Rightarrow> cc_parsed \<Rightarrow> txn list" where
  "names_of rows c = row_names (cr_line (cq_row c)) (exact_set rows c)"

text \<open>The pairing that the merchants single out for one tie, or nothing.\<close>

definition resolve_tie :: "txn list \<Rightarrow> cc_parsed list \<Rightarrow> cc_claims \<Rightarrow> cc_claims option" where
  "resolve_tie rows cs members =
     (let won = map (\<lambda>(_, t). t_id t) members;
          named = map (\<lambda>(c, _). (c, names_of rows c)) members;
          assignment = map (\<lambda>(c, ts). (c, hd ts)) named;
          contesting = filter (\<lambda>q. list_ex (\<lambda>t. t_id t \<in> set won) (exact_set rows q)) cs
      in if length members < 2 then None
         else if \<not> list_all (\<lambda>(_, ts). length ts = 1 \<and> t_id (hd ts) \<in> set won) named then None
         else if set (map (\<lambda>(_, t). t_id t) assignment) \<noteq> set won then None
         else if list_ex (\<lambda>i. length (filter (\<lambda>q. i \<in> set (map t_id (names_of rows q))) contesting) \<noteq> 1) won then None
         else Some assignment)"

definition resolve_contested :: "txn list \<Rightarrow> cc_parsed list \<Rightarrow> cc_claims \<Rightarrow> cc_claims" where
  "resolve_contested rows cs winners =
     concat (map (\<lambda>g. case resolve_tie rows cs g of None \<Rightarrow> [] | Some pairs \<Rightarrow> pairs) (ties rows winners))"

section \<open>Entries\<close>

record cc_matched =
  cm_row :: cc_row
  cm_txn :: txn
  cm_foreign :: bool
  cm_evidence :: evidence
  cm_enriched :: bool

record cc_missing =
  cx_row :: cc_row
  cx_ambiguous :: bool
  cx_evidence :: evidence
  cx_imported :: "int option"
  cx_error :: "import_error option"

definition cc_ids :: "txn list \<Rightarrow> int list" where
  "cc_ids ts = remdups (map t_id ts)"

definition cc_missing_entry :: "cc_row \<Rightarrow> bool \<Rightarrow> int list \<Rightarrow> string \<Rightarrow> cc_missing" where
  "cc_missing_entry r ambiguous candidates reason =
     \<lparr>cx_row = r, cx_ambiguous = ambiguous, cx_evidence = candidate_evidence candidates reason,
      cx_imported = None, cx_error = None\<rparr>"

definition cc_matched_entry :: "(string \<Rightarrow> string) \<Rightarrow> txn list \<Rightarrow> cc_parsed \<times> txn \<Rightarrow> cc_matched" where
  "cc_matched_entry nm rows claim =
     (case claim of (c, t) \<Rightarrow>
        \<lparr>cm_row = cq_row c, cm_txn = t, cm_foreign = False,
         cm_evidence = candidate_evidence (cc_ids (cc_candidate_set nm rows c))
           (if t_transaction_date t = Some (cq_date c) then ''matched_exact_date'' else ''matched_date_offset''),
         cm_enriched = False\<rparr>)"

section \<open>Foreign alerts\<close>

definition foreign_candidates :: "date_parser \<Rightarrow> txn list \<Rightarrow> string list \<Rightarrow> cc_row \<Rightarrow> txn list" where
  "foreign_candidates p foreign masks r =
     (case parse_cc_row p r of
        None \<Rightarrow> []
      | Some c \<Rightarrow>
          filter (\<lambda>t. t_direction t = cr_direction r \<and>
              (case t_transaction_date t of None \<Rightarrow> False | Some day \<Rightarrow> \<bar>day - cq_date c\<bar> \<le> 1) \<and>
              cc_card_compatible (t_card_mask t) masks \<and>
              counterparty_singles_out (cl_narration (cr_line r)) t) foreign)"

definition same_rows :: "txn list \<Rightarrow> txn list \<Rightarrow> bool" where
  "same_rows ts us \<longleftrightarrow> set (map t_id ts) = set (map t_id us)"

text \<open>\<open>links\<close>: each line that names foreign rows, with them; \<open>lines\<close> name exactly \<open>ts\<close>.\<close>

definition certain_group :: "(cc_row \<times> txn list) list \<Rightarrow> cc_row list \<Rightarrow> txn list \<Rightarrow> bool" where
  "certain_group links lines ts \<longleftrightarrow>
     list_all (\<lambda>(r, us). list_ex (\<lambda>t. t_id t \<in> set (map t_id us)) ts \<longrightarrow> cr_idx r \<in> set (map cr_idx lines)) links \<and>
     length lines = length ts \<and>
     length (remdups (map (\<lambda>r. (parse_cc_amount (cl_amount (cr_line r)), cc_refresh_identity (cr_line r))) lines)) = 1 \<and>
     length (remdups (map (\<lambda>t. (t_amount t, normalized_currency (t_currency t))) ts)) = 1"

definition foreign_match :: "cc_row \<Rightarrow> txn \<Rightarrow> cc_matched" where
  "foreign_match r t =
     \<lparr>cm_row = r, cm_txn = t, cm_foreign = True,
      cm_evidence = candidate_evidence [t_id t] ''matched_foreign_currency'', cm_enriched = False\<rparr>"

fun distinct_row_sets :: "txn list list \<Rightarrow> txn list list" where
  "distinct_row_sets [] = []"
| "distinct_row_sets (ts # tss) = ts # filter (\<lambda>us. \<not> same_rows ts us) (distinct_row_sets tss)"

definition foreign_pairs :: "date_parser \<Rightarrow> cc_row list \<Rightarrow> txn list \<Rightarrow> string list \<Rightarrow> cc_matched list \<Rightarrow> cc_missing list \<Rightarrow>
    (cc_row \<times> txn) list" where
  "foreign_pairs p rs rows masks matched missing =
     (let taken = map (\<lambda>m. t_id (cm_txn m)) matched;
          foreign = filter (\<lambda>t. (normalized_currency (t_currency t) \<noteq> ''INR'' \<or> t_amount_source t = ''manual'') \<and>
                               t_id t \<notin> set taken) rows;
          links = filter (\<lambda>(r, ts). ts \<noteq> []) (map (\<lambda>r. (r, foreign_candidates p foreign masks r)) rs);
          free = map (\<lambda>m. cr_idx (cx_row m)) (filter (\<lambda>m. \<not> cx_ambiguous m) missing);
          pairable = filter (\<lambda>(r, ts). cr_idx r \<in> set free) links
      in concat (map (\<lambda>ts.
           let lines = map fst (filter (\<lambda>(r, us). same_rows ts us) pairable)
           in if certain_group links lines ts then zip lines (sort_key t_id ts) else [])
         (distinct_row_sets (map snd pairable))))"

record cc_recon =
  cn_matched :: "cc_matched list"
  cn_missing :: "cc_missing list"

definition pair_foreign_alerts :: "date_parser \<Rightarrow> cc_row list \<Rightarrow> txn list \<Rightarrow> string list \<Rightarrow> cc_recon \<Rightarrow> cc_recon" where
  "pair_foreign_alerts p rs rows masks r =
     (let pairs = foreign_pairs p rs rows masks (cn_matched r) (cn_missing r)
      in \<lparr>cn_matched = cn_matched r @ map (\<lambda>(x, t). foreign_match x t) pairs,
          cn_missing = filter (\<lambda>m. cr_idx (cx_row m) \<notin> set (map (\<lambda>(x, _). cr_idx x) pairs)) (cn_missing r)\<rparr>)"

section \<open>The reconciliation\<close>

text \<open>The claims that stand: the uncontested ones in their order, a resolved one with its new row.\<close>

definition settled_claim :: "cc_claims \<Rightarrow> (cc_parsed \<times> txn \<Rightarrow> bool) \<Rightarrow> cc_parsed \<times> txn \<Rightarrow> (cc_parsed \<times> txn) option" where
  "settled_claim resolved disputed claim =
     (case find (\<lambda>(q, _). cr_idx (cq_row q) = cr_idx (cq_row (fst claim))) resolved of
        Some pair \<Rightarrow> Some pair
      | None \<Rightarrow> if disputed claim then None else Some claim)"

definition missed_entry :: "(string \<Rightarrow> string) \<Rightarrow> txn list \<Rightarrow> cc_claims \<Rightarrow> cc_parsed \<Rightarrow> cc_missing option" where
  "missed_entry nm rows claims c =
     (let candidates = cc_ids (cc_candidate_set nm rows c)
      in if list_ex (\<lambda>(q, _). cr_idx (cq_row q) = cr_idx (cq_row c)) claims then None
         else Some (cc_missing_entry (cq_row c) (contended_miss candidates) candidates
                     (if candidates \<noteq> [] then ''candidate_refused_or_consumed'' else ''no_candidate'')))"

definition demoted_entry :: "(string \<Rightarrow> string) \<Rightarrow> txn list \<Rightarrow> cc_parsed \<times> txn \<Rightarrow> cc_missing" where
  "demoted_entry nm rows claim =
     cc_missing_entry (cq_row (fst claim)) True (cc_ids (cc_candidate_set nm rows (fst claim))) ''contested_match_demoted''"

definition reconcile_statement ::
    "(string \<Rightarrow> string) \<Rightarrow> date_parser \<Rightarrow> parsed_cc \<Rightarrow> txn list \<Rightarrow> string list \<Rightarrow> cc_recon" where
  "reconcile_statement nm p ps db_transactions masks =
     (let rows = filter cc_posted db_transactions;
          rs = statement_rows ps;
          cs = List.map_filter (parse_cc_row p) rs;
          unparsed = map (\<lambda>r. cc_missing_entry r False [] ''unparseable_statement_identity'')
                       (filter (\<lambda>r. parse_cc_row p r = None) rs);
          claims = cc_claims_of masks rows cs;
          resolved = resolve_contested rows cs (filter (cc_contested masks rows cs) claims);
          kept = List.map_filter (settled_claim resolved (cc_contested masks rows cs)) claims;
          demoted = filter (\<lambda>x. settled_claim resolved (cc_contested masks rows cs) x = None) claims;
          paired = pair_foreign_alerts p rs rows masks
            \<lparr>cn_matched = map (cc_matched_entry nm rows) kept,
             cn_missing = unparsed @ List.map_filter (missed_entry nm rows claims) cs @
               map (demoted_entry nm rows) demoted\<rparr>
      in paired\<lparr>cn_missing := sort_key (\<lambda>m. cr_idx (cx_row m)) (cn_missing paired)\<rparr>)"

end
