(* ===== verification/Cc_Import.thy ===== *)
theory Cc_Import
  imports Cc_Reconcile
begin

text \<open>
  What follows the reconciliation of a card statement in \<^verbatim>\<open>services/statements/cc.py\<close>: the matched rows
  take the rupees, the narration and the holder of their line, the missing lines are imported unless a
  statement recorded them before, and the upload records the outcome; with
  \<open>retry_cc_statement_upload\<close> of \<^verbatim>\<open>services/statements/shared.py\<close>. \<open>None\<close> is an exception that leaves
  the import: the caller's transaction is rolled back.
\<close>

section \<open>Enriching matched rows\<close>

definition CC_GENERIC_COUNTERPARTIES :: "string list" where
  "CC_GENERIC_COUNTERPARTIES = [''payment received'', ''payment successful'', ''payment done'']"

definition take_statement_rupees :: "cc_matched \<Rightarrow> txn \<Rightarrow> txn \<times> bool" where
  "take_statement_rupees m t =
     (if t_amount_source t \<noteq> ''manual'' \<and> (\<not> cm_foreign m \<or> normalized_currency (t_currency t) = ''INR'')
      then (t, False)
      else case parse_cc_amount (cl_amount (cr_line (cm_row m))) of
             None \<Rightarrow> (t, False)
           | Some amount \<Rightarrow>
               (t\<lparr>t_amount_source := (if t_amount_source t = ''manual'' then ''bank'' else t_amount_source t),
                  t_amount := amount, t_currency := Some ''INR''\<rparr>, True))"

definition takes_narration :: "txn \<Rightarrow> string \<Rightarrow> bool" where
  "takes_narration t narration \<longleftrightarrow>
     (let existing = py_strip (or_empty (t_counterparty t)) in
      narration \<noteq> [] \<and>
      (existing = [] \<or> py_lower existing \<in> set CC_GENERIC_COUNTERPARTIES \<or> t_counterparty_source t = ''user_alias''))"

text \<open>\<open>LIKE '%cc_statement%'\<close>: the underscore stands for any character.\<close>

definition like_cc_statement :: "string \<Rightarrow> bool" where
  "like_cc_statement s \<longleftrightarrow>
     list_ex (\<lambda>n. prefix ''cc'' (drop n (py_lower s)) \<and> prefix ''statement'' (drop (n + 3) (py_lower s)))
       [0..<length s]"

definition gains_cc_source :: "cc_recon \<Rightarrow> txn \<Rightarrow> bool" where
  "gains_cc_source r t \<longleftrightarrow>
     t_id t \<in> set (map (\<lambda>m. t_id (cm_txn m)) (filter (\<lambda>m. ev_count (cm_evidence m) = 1) (cn_matched r))) \<and>
     (case t_source t of None \<Rightarrow> False
      | Some s \<Rightarrow> prefix ''screenshot'' (py_lower s) \<and> \<not> like_cc_statement s)"

text \<open>The row as its line leaves it, and whether it changed.\<close>

definition cc_enrich_row :: "db \<Rightarrow> cc_matched \<Rightarrow> txn \<Rightarrow> txn \<times> bool" where
  "cc_enrich_row d m t =
     (let (t1, converted) = take_statement_rupees m t;
          narration = py_strip (cl_narration (cr_line (cm_row m)));
          named = takes_narration t1 narration;
          t2 = (if named then t1\<lparr>t_counterparty := Some narration, t_counterparty_source := ''bank''\<rparr> else t1);
          holder = statement_card_holder d (t_account_id t) (cl_person (cr_line (cm_row m)));
          held = (holder \<noteq> None \<and> t_card_holder t2 \<noteq> holder);
          t3 = (if held then t2\<lparr>t_card_holder := holder\<rparr> else t2)
      in (t3, converted \<or> named \<or> held))"

definition cc_enrich_entry :: "env \<Rightarrow> cc_matched \<Rightarrow> db \<Rightarrow> cc_matched \<times> db" where
  "cc_enrich_entry e m d =
     (case get_txn (t_id (cm_txn m)) d of
        None \<Rightarrow> (m, d)
      | Some t \<Rightarrow>
          let (t', changed) = cc_enrich_row d m t; d' = write_txn (t_id t) (\<lambda>_. t') d
          in if changed then (m\<lparr>cm_enriched := True\<rparr>, requeue_after_enrichment e t' d') else (m, d'))"

fun cc_enrich_entries :: "env \<Rightarrow> cc_matched list \<Rightarrow> db \<Rightarrow> cc_matched list \<times> db" where
  "cc_enrich_entries e [] d = ([], d)"
| "cc_enrich_entries e (m # ms) d =
     (let (m', d') = cc_enrich_entry e m d; (ms', d'') = cc_enrich_entries e ms d' in (m' # ms', d''))"

definition cc_enrich_matched_transactions :: "env \<Rightarrow> cc_recon \<Rightarrow> db \<Rightarrow> cc_recon \<times> db" where
  "cc_enrich_matched_transactions e r d =
     (let d1 = d\<lparr>transactions := update_where (gains_cc_source r)
                   (\<lambda>t. t\<lparr>t_source := map_option (\<lambda>s. s @ ''+cc_statement'') (t_source t)\<rparr>) (transactions d)\<rparr>;
          (ms, d2) = cc_enrich_entries e (cn_matched r) d1
      in (r\<lparr>cn_matched := ms\<rparr>, d2))"

section \<open>Recorded copies\<close>

definition recorded_row :: "int \<Rightarrow> txn \<Rightarrow> bool" where
  "recorded_row account_id t \<longleftrightarrow>
     t_account_id t = Some account_id \<and> t_statement_upload_id t \<noteq> None \<and> t_email_type t = ''cc_statement'' \<and>
     t_transaction_date t \<noteq> None"

definition recorded_by_a_statement :: "int \<Rightarrow> db \<Rightarrow> int list" where
  "recorded_by_a_statement account_id d =
     map t_id (sort_key t_id (filter (recorded_row account_id) (transactions d)))"

type_synonym copy_key = "decimal \<times> date option \<times> string \<times> string"

definition copy_key :: "txn \<Rightarrow> copy_key" where
  "copy_key t = (t_amount t, t_transaction_date t, t_direction t, normalize_narration (t_counterparty t))"

definition line_key :: "date_parser \<Rightarrow> cc_row \<Rightarrow> copy_key option" where
  "line_key p r =
     map_option (\<lambda>c. (cq_amount c, Some (cq_date c), cr_direction r, normalize_narration (Some (cl_narration (cr_line r)))))
       (parse_cc_row p r)"

definition copies_of :: "date_parser \<Rightarrow> cc_row \<Rightarrow> int list \<Rightarrow> int list \<Rightarrow> db \<Rightarrow> txn list" where
  "copies_of p r recorded claimed d =
     List.map_filter (\<lambda>i. if i \<in> set claimed then None
                          else case get_txn i d of None \<Rightarrow> None
                               | Some t \<Rightarrow> if line_key p r = Some (copy_key t) then Some t else None) recorded"

fun index_of :: "'a \<Rightarrow> 'a list \<Rightarrow> nat" where
  "index_of x [] = 0"
| "index_of x (y # ys) = (if x = y then 0 else Suc (index_of x ys))"

definition take_copy :: "txn list \<Rightarrow> string option \<Rightarrow> string option \<Rightarrow> txn option" where
  "take_copy copies holder number_holder =
     (case sort_key (\<lambda>t. index_of (t_card_holder t) [number_holder, holder, None]) copies of
        [] \<Rightarrow> None | t # _ \<Rightarrow> Some t)"

section \<open>Importing missing lines\<close>

definition resolve_cc_card_mask :: "db \<Rightarrow> account option \<Rightarrow> string option \<Rightarrow> string option" where
  "resolve_cc_card_mask d acct raw =
     (case mask_last4 False raw of
        Some l4 \<Rightarrow> Some l4
      | None \<Rightarrow>
          (case acct of
             None \<Rightarrow> None
           | Some a \<Rightarrow>
               let card_last4s = List.map_filter (\<lambda>c. mask_last4 False (Some (c_card_mask c)))
                     (filter (\<lambda>c. c_account_id c = a_id a) (cards d));
                   partial = mask_digits raw
               in case (if partial = [] then None else find (suffix partial) card_last4s) of
                    Some l4 \<Rightarrow> Some l4
                  | None \<Rightarrow> mask_last4 False (a_account_number a)))"

definition cc_statement_row ::
    "env \<Rightarrow> int \<Rightarrow> statement_upload \<Rightarrow> parsed_cc \<Rightarrow> string option \<Rightarrow> string option \<Rightarrow> cc_row \<Rightarrow> decimal \<Rightarrow> date \<Rightarrow> txn" where
  "cc_statement_row e i u ps card_mask holder r amount day =
     \<lparr>t_id = i, t_email_id = None, t_account_id = Some (su_account_id u), t_card_id = None,
      t_statement_upload_id = Some (su_id u), t_bank_statement_upload_id = None, t_bank = pc_bank ps,
      t_email_type = ''cc_statement'', t_direction = cr_direction r, t_amount = amount,
      t_currency = Some ''INR'', t_transaction_date = Some day, t_transaction_time = None,
      t_identifies_by = ''counterparty'', t_counterparty_source = ''bank'', t_amount_source = ''bank'',
      t_time_is_received_time = False, t_counterparty = Some (cl_narration (cr_line r)),
      t_card_mask = card_mask, t_card_holder = holder, t_account_mask = None, t_reference_number = None,
      t_channel = Some ''cc_statement'', t_balance = None, t_raw_description = Some (cl_narration (cr_line r)),
      t_note = None, t_attachment_path = None, t_exclude_from_cashflow = Some False, t_voided = Some False,
      t_category = None, t_category_method = None, t_category_confidence = None, t_category_model = None,
      t_category_input_hash = None, t_category_vocab_version = None, t_categorized_at = None,
      t_review_status = None, t_review_reason = None, t_sms_message_id = None, t_source = None,
      t_notified_channel = None, t_enriched_at = None, t_created_at = Some (e_now e),
      t_last_notified_at = None, t_notify_attempts = Some 0\<rparr>"

text \<open>The rows that are claimed, the rows created so far, and the database.\<close>

record import_state =
  im_claimed :: "int list"
  im_new :: "int list"
  im_db :: db

definition import_new_line ::
    "date_parser \<Rightarrow> env \<Rightarrow> link_context \<Rightarrow> statement_upload \<Rightarrow> parsed_cc \<Rightarrow> account option \<Rightarrow> string option \<Rightarrow>
     cc_missing \<Rightarrow> import_state \<Rightarrow> (cc_missing \<times> import_state) option" where
  "import_new_line p e ctx u ps acct holder m st =
     (let r = cx_row m; d = im_db st in
      case (parse_cc_amount (cl_amount (cr_line r)), parse_cc_date p (cl_date (cr_line r))) of
        (None, _) \<Rightarrow> None
      | (Some _, None) \<Rightarrow> Some (m\<lparr>cx_error := Some Unparseable\<rparr>, st)
      | (Some amount, Some day) \<Rightarrow>
          (case import_row ctx
                  (cc_statement_row e (next_id (map t_id (transactions d))) u ps
                     (resolve_cc_card_mask d acct (cl_card_number (cr_line r))) holder r amount day) d of
             Inl _ \<Rightarrow> Some (m\<lparr>cx_error := Some Duplicate_row\<rparr>, st)
           | Inr (row, d') \<Rightarrow>
               Some (m\<lparr>cx_imported := Some (t_id row)\<rparr>,
                     st\<lparr>im_new := im_new st @ [t_id row], im_db := snd (apply_reference_self_transfer_rule e row d')\<rparr>)))"

definition cc_import_entry ::
    "date_parser \<Rightarrow> env \<Rightarrow> link_context \<Rightarrow> statement_upload \<Rightarrow> parsed_cc \<Rightarrow> account option \<Rightarrow> int list \<Rightarrow>
     cc_missing \<Rightarrow> import_state \<Rightarrow> (cc_missing \<times> import_state) option" where
  "cc_import_entry p e ctx u ps acct recorded m st =
     (if cx_imported m \<noteq> None then Some (m, st)
      else
        let d = im_db st; person = cl_person (cr_line (cx_row m));
            holder = statement_card_holder d (Some (su_account_id u)) person
        in case (if cx_ambiguous m
                 then take_copy (copies_of p (cx_row m) recorded (im_claimed st) d) holder (card_holder_name person)
                 else None) of
             Some copy \<Rightarrow>
               Some (m\<lparr>cx_imported := Some (t_id copy), cx_error := None\<rparr>,
                     st\<lparr>im_claimed := t_id copy # im_claimed st,
                        im_db := (if holder = None then d
                                  else write_txn (t_id copy) (\<lambda>t. t\<lparr>t_card_holder := holder\<rparr>) d)\<rparr>)
           | None \<Rightarrow> import_new_line p e ctx u ps acct holder m st)"

fun cc_import_entries ::
    "date_parser \<Rightarrow> env \<Rightarrow> link_context \<Rightarrow> statement_upload \<Rightarrow> parsed_cc \<Rightarrow> account option \<Rightarrow> int list \<Rightarrow>
     cc_missing list \<Rightarrow> import_state \<Rightarrow> (cc_missing list \<times> import_state) option" where
  "cc_import_entries p e ctx u ps acct recorded [] st = Some ([], st)"
| "cc_import_entries p e ctx u ps acct recorded (m # ms) st =
     (case cc_import_entry p e ctx u ps acct recorded m st of
        None \<Rightarrow> None
      | Some (m', st') \<Rightarrow>
          (case cc_import_entries p e ctx u ps acct recorded ms st' of
             None \<Rightarrow> None | Some (ms', st'') \<Rightarrow> Some (m' # ms', st'')))"

text \<open>The reconciliation with its entries marked, the created rows, and the database.\<close>

definition import_missing_cc_txns ::
    "date_parser \<Rightarrow> env \<Rightarrow> statement_upload \<Rightarrow> parsed_cc \<Rightarrow> account option \<Rightarrow> cc_recon \<Rightarrow> db \<Rightarrow>
     (cc_recon \<times> int list \<times> db) option" where
  "import_missing_cc_txns p e u ps acct r d =
     (case cc_import_entries p e (build_link_context (accounts d) (cards d)) u ps acct
             (recorded_by_a_statement (su_account_id u) d) (cn_missing r)
             \<lparr>im_claimed = map (\<lambda>m. t_id (cm_txn m)) (cn_matched r), im_new = [], im_db = d\<rparr> of
        None \<Rightarrow> None
      | Some (ms, st) \<Rightarrow> Some (r\<lparr>cn_missing := ms\<rparr>, im_new st, im_db st))"

section \<open>The retry of an upload\<close>

definition stored_cc_missing :: "cc_missing \<Rightarrow> recon_entry" where
  "stored_cc_missing m =
     \<lparr>re_db_txn_id = None, re_imported_txn_id = cx_imported m, re_candidate_ids = ev_candidates (cx_evidence m),
      re_candidate_ids_truncated = ev_truncated (cx_evidence m), re_imported = (cx_imported m \<noteq> None),
      re_date = cl_date (cr_line (cx_row m)), re_amount = cl_amount (cr_line (cx_row m)),
      re_direction = cr_direction (cx_row m)\<rparr>"

definition stored_cc_matched :: "cc_matched \<Rightarrow> recon_entry" where
  "stored_cc_matched m =
     \<lparr>re_db_txn_id = Some (t_id (cm_txn m)), re_imported_txn_id = None,
      re_candidate_ids = ev_candidates (cm_evidence m), re_candidate_ids_truncated = ev_truncated (cm_evidence m),
      re_imported = False, re_date = cl_date (cr_line (cm_row m)), re_amount = cl_amount (cr_line (cm_row m)),
      re_direction = cr_direction (cm_row m)\<rparr>"

definition cc_reconciliation_to_json :: "cc_recon \<Rightarrow> stored_recon" where
  "cc_reconciliation_to_json r =
     \<lparr>sr_matched = map stored_cc_matched (cn_matched r), sr_missing = map stored_cc_missing (cn_missing r)\<rparr>"

definition cc_skip_summary :: "cc_recon \<Rightarrow> upload_error option" where
  "cc_skip_summary r =
     (let duplicates = length (filter (\<lambda>m. cx_error m = Some Duplicate_row) (cn_missing r))
      in if duplicates \<noteq> 0 then Some (Lines_skipped duplicates 0) else None)"

definition cc_stmt_date_range :: "date_parser \<Rightarrow> parsed_cc \<Rightarrow> (date \<times> date) option" where
  "cc_stmt_date_range p ps =
     (let ds = List.map_filter (\<lambda>l. parse_cc_date p (cl_date l)) (pc_transactions ps @ pc_payments_refunds ps)
      in if ds = [] then None else Some (foldr min ds (hd ds), foldr max ds (hd ds)))"

definition cc_parsed_upload :: "parsed_cc \<Rightarrow> cc_recon \<Rightarrow> statement_upload \<Rightarrow> statement_upload" where
  "cc_parsed_upload ps r u =
     u\<lparr>su_status := ''parsed'', su_bank := pc_bank ps, su_card_number := pc_card_number ps,
       su_statement_name := pc_name ps, su_due_date := pc_due_date ps,
       su_total_amount_due := pc_total_amount_due ps,
       su_parsed_txn_count := length (cn_matched r) + length (cn_missing r),
       su_matched_count := length (cn_matched r), su_missing_count := length (cn_missing r),
       su_reconciliation_data := Some (cc_reconciliation_to_json r), su_error := None\<rparr>"

definition cc_not_imported :: "cc_recon \<Rightarrow> nat" where
  "cc_not_imported r = length (filter (\<lambda>m. cx_imported m = None) (cn_missing r))"

definition cc_imported_upload :: "cc_recon \<Rightarrow> nat \<Rightarrow> statement_upload \<Rightarrow> statement_upload" where
  "cc_imported_upload r imported u =
     u\<lparr>su_imported_count := imported, su_missing_count := cc_not_imported r,
       su_reconciliation_data := Some (cc_reconciliation_to_json r),
       su_status := (if cc_not_imported r = 0 then ''imported''
                     else if 0 < imported then ''partial_import'' else su_status u),
       su_error := cc_skip_summary r\<rparr>"

text \<open>The hook after a flush keeps the active statement of the account; the snapshot and the commit follow.\<close>

definition finish_cc_upload :: "date_parser \<Rightarrow> env \<Rightarrow> statement_upload \<Rightarrow> db \<Rightarrow> db" where
  "finish_cc_upload p e u d =
     snd (emit_cc_snapshot (e_now e) u (snd (set_active_statement p (su_account_id u) (write_upload u d))))"

text \<open>After the commit the bill starts to be tracked, or is re-derived when it is tracked already.\<close>

definition track_bill :: "date_parser \<Rightarrow> env \<Rightarrow> date \<Rightarrow> int \<Rightarrow> db \<Rightarrow> payment_error + db" where
  "track_bill p e today upload_id d =
     (case init_payment_tracking p (e_now e) today upload_id d of
        (True, d') \<Rightarrow> Inr d'
      | (False, d') \<Rightarrow>
          (case find (\<lambda>u. su_id u = upload_id) (statement_uploads d') of
             None \<Rightarrow> Inr d'
           | Some u \<Rightarrow>
               (case resync_tracked_cc_payment_state p (e_now e) u d' of
                  Inl err \<Rightarrow> Inl err | Inr (_, d'') \<Rightarrow> Inr d'')))"

text \<open>The answer, or \<open>None\<close> for an exception, and what is committed by then.\<close>

definition retry_cc_statement_upload ::
    "(string \<Rightarrow> string) \<Rightarrow> date_parser \<Rightarrow> env \<Rightarrow> date \<Rightarrow> int \<Rightarrow> string + parsed_cc \<Rightarrow> db \<Rightarrow> bool option \<times> db" where
  "retry_cc_statement_upload nm p e today upload_id pdf d =
     (case find (\<lambda>u. su_id u = upload_id) (statement_uploads d) of
        None \<Rightarrow> (Some False, d)
      | Some u \<Rightarrow>
          if su_source_kind u = ''email_summary'' \<or> su_file_path u = [] then (Some False, d)
          else case pdf of
            Inl message \<Rightarrow> (Some False, write_upload (u\<lparr>su_error := Some (Parse_failed message)\<rparr>) d)
          | Inr ps \<Rightarrow>
              let r = reconcile_statement nm p ps
                        (rows_near (cc_stmt_date_range p ps) (account_rows (su_account_id u) d))
                        (load_account_card_masks d (su_account_id u));
                  (r1, d1) = cc_enrich_matched_transactions e r d;
                  u1 = cc_parsed_upload ps r1 u
              in case find (\<lambda>a. a_id a = su_account_id u) (accounts d1) of
                   None \<Rightarrow> (Some False, d1)
                 | Some acct \<Rightarrow>
                     (case import_missing_cc_txns p e u1 ps (Some acct) r1 d1 of
                        None \<Rightarrow> (None, d1)
                      | Some (r2, new, d2) \<Rightarrow>
                          let d3 = finish_cc_upload p e (cc_imported_upload r2 (length new) u1) d2
                          in case track_bill p e today upload_id d3 of
                               Inl _ \<Rightarrow> (None, d3) | Inr d4 \<Rightarrow> (Some True, d4)))"

end
