(* ===== verification/Cc_Facts.thy ===== *)
theory Cc_Facts
  imports Cc_Import Bank_Facts
begin

text \<open>
  What the reconciliation and the import of a card statement guarantee. The greedy pass is a fold whose
  claims are sound and one-to-one; the resolution of a tie permutes the rows its members won; the
  foreign pairs take rows that nothing else took. So a match is one-to-one, and every line has exactly
  one outcome. The import then either stops on an amount that is no number, or treats every line.
\<close>

section \<open>Positions\<close>

abbreviation row_of :: "cc_parsed \<Rightarrow> nat" where
  "row_of c \<equiv> cr_idx (cq_row c)"

abbreviation claim_row :: "cc_parsed \<times> txn \<Rightarrow> nat" where
  "claim_row x \<equiv> row_of (fst x)"

abbreviation claim_id :: "cc_parsed \<times> txn \<Rightarrow> int" where
  "claim_id x \<equiv> t_id (snd x)"

abbreviation parsed_cc_rows :: "date_parser \<Rightarrow> parsed_cc \<Rightarrow> cc_parsed list" where
  "parsed_cc_rows p ps \<equiv> List.map_filter (parse_cc_row p) (statement_rows ps)"

lemma number_rows_idx [simp]: "map cr_idx (number_rows ls) = [0..<length ls]"
  by (simp add: number_rows_def comp_def case_prod_beta)

lemma number_rows_length [simp]: "length (number_rows ls) = length ls"
  by (simp add: number_rows_def)

lemma statement_rows_idx: "map cr_idx (statement_rows ps) = [0..<length (statement_rows ps)]"
  unfolding statement_rows_def by simp

lemma parse_cc_row_Some:
  "parse_cc_row p r = Some c \<longleftrightarrow>
   cq_row c = r \<and> parse_cc_amount (cl_amount (cr_line r)) = Some (cq_amount c) \<and>
   parse_cc_date p (cl_date (cr_line r)) = Some (cq_date c)"
  by (cases c) (auto simp: parse_cc_row_def split: option.splits)

lemma parsed_cc_rows_idx:
  "map row_of (List.map_filter (parse_cc_row p) rs) = map cr_idx (filter (\<lambda>r. parse_cc_row p r \<noteq> None) rs)"
proof (induction rs)
  case (Cons r rs)
  then show ?case
    by (cases "parse_cc_row p r") (auto simp: List.map_filter_simps dest: iffD1[OF parse_cc_row_Some])
qed (simp add: List.map_filter_simps)

lemma statement_rows_distinct: "distinct (map cr_idx (statement_rows ps))"
  by (simp add: statement_rows_idx)

lemma parsed_cc_distinct: "distinct (map row_of (parsed_cc_rows p ps))"
  unfolding parsed_cc_rows_idx using statement_rows_distinct by (simp add: distinct_map_filter)

lemma same_row_of: "distinct (map row_of cs) \<Longrightarrow> c \<in> set cs \<Longrightarrow> q \<in> set cs \<Longrightarrow> row_of c = row_of q \<Longrightarrow> c = q"
  by (simp add: distinct_map inj_on_def)

section \<open>The greedy pass\<close>

lemma cc_pool_at_iff:
  "t \<in> set (cc_pool_at rows day direction) \<longleftrightarrow>
   t \<in> set rows \<and> normalized_currency (t_currency t) = ''INR'' \<and> t_transaction_date t = Some day \<and> t_direction t = direction"
  by (auto simp: cc_pool_at_def cc_pool_def)

lemma settles_self: "settles_within_band a a"
  by (simp add: settles_within_band_def SETTLEMENT_BAND_def)

lemma exact_set_iff:
  "t \<in> set (exact_set rows c) \<longleftrightarrow>
   t \<in> set rows \<and> normalized_currency (t_currency t) = ''INR'' \<and> t_direction t = cr_direction (cq_row c) \<and>
   t_amount t = cq_amount c \<and> (\<exists>day. t_transaction_date t = Some day \<and> \<bar>day - cq_date c\<bar> \<le> 1)"
proof -
  have one: "\<bar>day - cq_date c\<bar> \<le> 1 \<longleftrightarrow> day = cq_date c \<or> day = cq_date c - 1 \<or> day = cq_date c + 1" for day by auto
  show ?thesis unfolding one
    by (auto simp: exact_set_def banded_def cc_pool_at_iff settles_self)
qed

definition cc_claims_ok :: "string list \<Rightarrow> txn list \<Rightarrow> cc_parsed list \<Rightarrow> cc_claims \<Rightarrow> bool" where
  "cc_claims_ok masks rows cs cl \<longleftrightarrow>
     distinct (map claim_row cl) \<and> distinct (map claim_id cl) \<and>
     list_all (\<lambda>(c, t). c \<in> set cs \<and> t \<in> set (exact_set rows c) \<and> cc_card_compatible (t_card_mask t) masks) cl"

lemma cc_pick_Some:
  assumes "cc_pick masks rows consumed c offset = Some t" "offset \<in> {0, -1, 1}"
  shows "t \<in> set (exact_set rows c) \<and> cc_card_compatible (t_card_mask t) masks \<and> t_id t \<notin> set consumed"
proof -
  have t: "t \<in> set (cc_pool_at rows (cq_date c + offset) (cr_direction (cq_row c)))" "t_amount t = cq_amount c"
    "t_id t \<notin> set consumed" "cc_card_compatible (t_card_mask t) masks"
    using find_SomeD[OF assms(1)[unfolded cc_pick_def]] by simp_all
  have "t \<in> set (exact_set rows c)"
    using t(1,2) assms(2) unfolding exact_set_iff cc_pool_at_iff by auto
  then show ?thesis using t by simp
qed

lemma cc_claim_ok:
  assumes "cc_claims_ok masks rows cs cl" "c \<in> set cs" "row_of c \<notin> set (map claim_row cl)"
  shows "cc_claims_ok masks rows cs (cc_claim masks rows c cl)"
proof (cases "first_pick (cc_pick masks rows (cc_consumed cl) c) [0, -1, 1]")
  case None
  then show ?thesis using assms(1) by (simp add: cc_claim_def)
next
  case (Some t)
  from first_pick_Some[OF Some] obtain offset where "offset \<in> {0, -1, 1}"
    "cc_pick masks rows (cc_consumed cl) c offset = Some t" by auto
  note t = cc_pick_Some[OF this(2,1)]
  have "t_id t \<notin> set (map claim_id cl)" using t by (simp add: cc_consumed_def case_prod_beta)
  then show ?thesis using assms t Some by (simp add: cc_claim_def cc_claims_ok_def)
qed

lemma cc_claim_rows: "set (map claim_row (cc_claim masks rows c cl)) \<subseteq> insert (row_of c) (set (map claim_row cl))"
  by (auto simp: cc_claim_def split: option.splits)

lemma fold_cc_claim_ok:
  assumes "cc_claims_ok masks rows cs cl" "set qs \<subseteq> set cs" "distinct (map row_of qs)"
    "set (map row_of qs) \<inter> set (map claim_row cl) = {}"
  shows "cc_claims_ok masks rows cs (fold (cc_claim masks rows) qs cl)"
  using assms
proof (induction qs arbitrary: cl)
  case (Cons c qs)
  have new: "row_of c \<notin> set (map row_of qs)" "row_of c \<notin> set (map claim_row cl)"
    "set (map claim_row cl) \<inter> set (map row_of qs) = {}" using Cons.prems(3,4) by auto
  have "set (map row_of qs) \<inter> set (map claim_row (cc_claim masks rows c cl)) = {}"
    using disjoint_from_insert[OF cc_claim_rows new(1,3)] by (simp add: Int_commute)
  then show ?case using Cons.IH[OF cc_claim_ok[OF Cons.prems(1) _ new(2)]] Cons.prems(2,3) by simp
qed simp

lemma cc_claims_of_ok:
  assumes "distinct (map row_of cs)"
  shows "cc_claims_ok masks rows cs (cc_claims_of masks rows cs)"
  unfolding cc_claims_of_def
  by (rule fold_cc_claim_ok) (use assms in \<open>simp_all add: cc_claims_ok_def\<close>)

section \<open>Ties\<close>

lemma mset_concat_partition:
  "mset (concat (filter P gs)) + mset (concat (filter (\<lambda>g. \<not> P g) gs)) = mset (concat gs)"
  by (induction gs) (auto simp: ac_simps)

lemma add_to_ties_mset: "mset (concat (add_to_ties rows x gs)) = mset (concat gs) + {#x#}"
proof -
  have "mset (concat (add_to_ties rows x gs)) =
      mset (concat (filter (list_ex (tied rows x)) gs)) +
      mset (concat (filter (\<lambda>g. \<not> list_ex (tied rows x) g) gs)) + {#x#}"
    by (simp add: add_to_ties_def)
  then show ?thesis by (simp only: mset_concat_partition)
qed

lemma ties_mset: "mset (concat (ties rows claims)) = mset claims"
proof -
  have "mset (concat (fold (add_to_ties rows) claims gs)) = mset (concat gs) + mset claims" for gs
    by (induction claims arbitrary: gs) (simp_all add: add_to_ties_mset)
  then show ?thesis by (simp add: ties_def)
qed

lemma mset_map_cong: "mset xs = mset ys \<Longrightarrow> mset (map f xs) = mset (map f ys)"
  by simp

lemma distinct_map_mset: "mset xs = mset ys \<Longrightarrow> distinct (map f xs) \<longleftrightarrow> distinct (map f ys)"
  by (metis mset_eq_imp_distinct_iff mset_map)

lemma set_map_mset: "mset xs = mset ys \<Longrightarrow> set (map f xs) = set (map f ys)"
  by (metis mset_eq_setD mset_map)

lemma four_checks:
  "(if a then None else if \<not> b then None else if x \<noteq> y then None else if e then None else Some p) = Some q \<Longrightarrow>
   b \<and> (q = p \<longrightarrow> x = y) \<and> q = p"
  by (auto split: if_splits)

text \<open>A resolved tie pairs its members, in their order, with the rows they won.\<close>

lemma resolve_tie_Some:
  assumes "resolve_tie rows cs g = Some pairs" "distinct (map claim_id g)"
  shows "map fst pairs = map fst g \<and> distinct (map claim_id pairs) \<and> set (map claim_id pairs) = set (map claim_id g) \<and>
    (\<forall>x \<in> set pairs. snd x \<in> set (names_of rows (fst x)))"
proof -
  let ?named = "map (\<lambda>(c, _). (c, names_of rows c)) g"
  have pairs: "pairs = map (\<lambda>(c, ts). (c, hd ts)) ?named"
    and single: "list_all (\<lambda>(_, ts). length ts = 1 \<and> t_id (hd ts) \<in> set (map (\<lambda>(_, t). t_id t) g)) ?named"
    and ids: "pairs = map (\<lambda>(c, ts). (c, hd ts)) ?named \<longrightarrow>
      set (map (\<lambda>(_, t). t_id t) (map (\<lambda>(c, ts). (c, hd ts)) ?named)) = set (map (\<lambda>(_, t). t_id t) g)"
    using four_checks[OF assms(1)[unfolded resolve_tie_def Let_def]] by blast+
  have ids': "set (map claim_id pairs) = set (map claim_id g)" using ids pairs by (simp add: case_prod_beta)
  have "length (map claim_id pairs) = card (set (map claim_id pairs))"
    using ids' distinct_card[OF assms(2)] by (simp add: pairs)
  then have "distinct (map claim_id pairs)" by (rule card_distinct[OF sym])
  moreover have "map fst pairs = map fst g" by (simp add: pairs case_prod_beta comp_def)
  moreover have "\<forall>x \<in> set pairs. snd x \<in> set (names_of rows (fst x))"
  proof
    fix x
    assume "x \<in> set pairs"
    then obtain c t where "(c, t) \<in> set g" "x = (c, hd (names_of rows c))" by (auto simp: pairs)
    moreover from this single have "length (names_of rows c) = 1" by (auto simp: list_all_iff)
    ultimately show "snd x \<in> set (names_of rows (fst x))" by (cases "names_of rows c") auto
  qed
  ultimately show ?thesis using ids' by blast
qed

definition tie_pairs :: "txn list \<Rightarrow> cc_parsed list \<Rightarrow> cc_claims \<Rightarrow> cc_claims" where
  "tie_pairs rows cs g = (case resolve_tie rows cs g of None \<Rightarrow> [] | Some pairs \<Rightarrow> pairs)"

lemma tie_pairs_ok:
  assumes "distinct (map claim_id g)"
  shows "(tie_pairs rows cs g = [] \<or> map fst (tie_pairs rows cs g) = map fst g) \<and>
    distinct (map claim_id (tie_pairs rows cs g)) \<and>
    set (map claim_id (tie_pairs rows cs g)) \<subseteq> set (map claim_id g) \<and>
    (\<forall>x \<in> set (tie_pairs rows cs g). snd x \<in> set (names_of rows (fst x)))"
proof (cases "resolve_tie rows cs g")
  case (Some pairs)
  from resolve_tie_Some[OF Some assms] show ?thesis unfolding tie_pairs_def Some option.case by blast
qed (simp add: tie_pairs_def)

text \<open>Pairing every group within what the group has keeps the whole distinct.\<close>

lemma distinct_groups:
  assumes "\<And>g. g \<in> set gs \<Longrightarrow> distinct (map f (F g)) \<and> set (map f (F g)) \<subseteq> set (map h g)"
    "distinct (map h (concat gs))"
  shows "distinct (map f (concat (map F gs))) \<and> set (map f (concat (map F gs))) \<subseteq> set (map h (concat gs))"
  using assms
proof (induction gs)
  case (Cons g gs)
  have IH: "distinct (map f (concat (map F gs)))" "set (map f (concat (map F gs))) \<subseteq> set (map h (concat gs))"
    using Cons by auto
  have g: "distinct (map f (F g))" "set (map f (F g)) \<subseteq> set (map h g)" using Cons.prems(1) by auto
  have "set (map h g) \<inter> set (map h (concat gs)) = {}" using Cons.prems(2) by auto
  then have disjoint: "set (map f (F g)) \<inter> set (map f (concat (map F gs))) = {}" using IH(2) g(2) by blast
  have eqs: "map f (concat (map F (g # gs))) = map f (F g) @ map f (concat (map F gs))"
    "map h (concat (g # gs)) = map h g @ map h (concat gs)" by simp_all
  show ?case using IH g disjoint unfolding eqs distinct_append set_append by blast
qed simp

lemma distinct_group: "distinct (map h (concat gs)) \<Longrightarrow> g \<in> set gs \<Longrightarrow> distinct (map h g)"
  by (induction gs) auto

lemma resolved_ok:
  assumes "distinct (map claim_id ws)" "distinct (map claim_row ws)" "resolved = resolve_contested rows cs ws"
  shows "distinct (map claim_id resolved) \<and> set (map claim_id resolved) \<subseteq> set (map claim_id ws) \<and>
    distinct (map claim_row resolved) \<and> set (map fst resolved) \<subseteq> set (map fst ws) \<and>
    (\<forall>x \<in> set resolved. snd x \<in> set (names_of rows (fst x)))"
proof -
  have R: "resolved = concat (map (tie_pairs rows cs) (ties rows ws))"
    by (simp add: assms(3) resolve_contested_def tie_pairs_def[abs_def])
  have m: "mset (concat (ties rows ws)) = mset ws" by (rule ties_mset)
  have ids: "distinct (map claim_id (concat (ties rows ws)))" using assms(1) distinct_map_mset[OF m, of claim_id] by blast
  have idx: "distinct (map claim_row (concat (ties rows ws)))" using assms(2) distinct_map_mset[OF m, of claim_row] by blast
  have g: "distinct (map claim_id g)" "distinct (map claim_row g)" if "g \<in> set (ties rows ws)" for g
    using distinct_group[OF ids that] distinct_group[OF idx that] by simp_all
  have pair_idx: "distinct (map claim_row (tie_pairs rows cs g)) \<and>
      set (map claim_row (tie_pairs rows cs g)) \<subseteq> set (map claim_row g)" if "g \<in> set (ties rows ws)" for g
  proof (cases "tie_pairs rows cs g = []")
    case False
    then have "map fst (tie_pairs rows cs g) = map fst g" using tie_pairs_ok[OF g(1)[OF that], of rows cs] by blast
    then have "map row_of (map fst (tie_pairs rows cs g)) = map row_of (map fst g)" by simp
    then have "map claim_row (tie_pairs rows cs g) = map claim_row g" by (simp add: comp_def)
    then show ?thesis using g(2)[OF that] by simp
  qed simp
  have "set (map fst resolved) \<subseteq> set (map fst ws)"
  proof
    fix c
    assume "c \<in> set (map fst resolved)"
    then obtain g where gg: "g \<in> set (ties rows ws)" "c \<in> set (map fst (tie_pairs rows cs g))" by (auto simp: R)
    then have "tie_pairs rows cs g \<noteq> []" by auto
    then have "map fst (tie_pairs rows cs g) = map fst g" using tie_pairs_ok[OF g(1)[OF gg(1)], of rows cs] by blast
    then have "c \<in> set (map fst g)" using gg(2) by simp
    then have "c \<in> set (map fst (concat (ties rows ws)))" using gg(1) unfolding set_map set_concat by blast
    then show "c \<in> set (map fst ws)" using set_map_mset[OF m, of fst] by blast
  qed
  moreover have "\<forall>x \<in> set resolved. snd x \<in> set (names_of rows (fst x))"
    using tie_pairs_ok[OF g(1), of _ rows cs] by (auto simp: R)
  moreover have "distinct (map claim_id resolved) \<and> set (map claim_id resolved) \<subseteq> set (map claim_id ws)"
    using distinct_groups[of "ties rows ws" claim_id "tie_pairs rows cs" claim_id, OF _ ids] tie_pairs_ok[OF g(1), of _ rows cs]
      set_map_mset[OF m, of claim_id] by (simp only: R)
  moreover have "distinct (map claim_row resolved)"
    using distinct_groups[of "ties rows ws" claim_row "tie_pairs rows cs" claim_row, OF pair_idx idx] by (simp only: R)
  ultimately show ?thesis by blast
qed

section \<open>The claims that stand\<close>

lemma distinct_map_filter_inj:
  assumes "distinct xs"
    "\<And>x x' y y'. x \<in> set xs \<Longrightarrow> x' \<in> set xs \<Longrightarrow> x \<noteq> x' \<Longrightarrow> f x = Some y \<Longrightarrow> f x' = Some y' \<Longrightarrow> h y \<noteq> h y'"
  shows "distinct (map h (List.map_filter f xs))"
  using assms
proof (induction xs)
  case (Cons x xs)
  have IH: "distinct (map h (List.map_filter f xs))"
    by (rule Cons.IH) (use Cons.prems(1) in simp, rule Cons.prems(2), simp_all)
  show ?case
  proof (cases "f x")
    case (Some y)
    have "h y \<noteq> h y'" if y': "y' \<in> set (List.map_filter f xs)" for y'
    proof -
      obtain x' where "x' \<in> set xs" "f x' = Some y'" using y' unfolding in_map_filter_iff by blast
      moreover from this have "x \<noteq> x'" using Cons.prems(1) by auto
      ultimately show ?thesis using Cons.prems(2)[of x x' y y'] Some by simp
    qed
    then show ?thesis using IH Some by (auto simp: List.map_filter_simps)
  qed (use IH in \<open>simp add: List.map_filter_simps\<close>)
qed (simp add: List.map_filter_simps)

lemma settled_claim_cases:
  assumes "settled_claim resolved disputed x = Some y"
  obtains (resolved) "y \<in> set resolved" "claim_row y = claim_row x"
    | (uncontested) "y = x" "\<not> disputed x" "claim_row x \<notin> set (map claim_row resolved)"
proof (cases "find (\<lambda>(q, _). row_of q = claim_row x) resolved")
  case None
  then have "claim_row x \<notin> set (map claim_row resolved)" by (auto simp: find_None_iff)
  then show thesis using uncontested assms None by (simp add: settled_claim_def split: if_splits)
next
  case (Some z)
  then have "y = z" using assms by (simp add: settled_claim_def)
  then show thesis using resolved find_SomeD[OF Some] by (simp add: case_prod_beta)
qed

lemma settled_claim_row: "settled_claim resolved disputed x = Some y \<Longrightarrow> claim_row y = claim_row x"
  by (erule settled_claim_cases) simp_all

lemma kept_distinct:
  assumes "distinct (map claim_row claims)" "distinct (map claim_id claims)"
    "resolved = resolve_contested rows cs (filter disputed claims)"
  shows "distinct (map claim_id (List.map_filter (settled_claim resolved disputed) claims))"
proof (rule distinct_map_filter_inj)
  show "distinct claims" using assms(1) by (simp add: distinct_map)
  let ?W = "filter disputed claims"
  have "distinct (map claim_id ?W)" "distinct (map claim_row ?W)" using assms(1,2) by (simp_all add: distinct_map_filter)
  note R = resolved_ok[OF this assms(3)]
  have claim: "x = x'" if "x \<in> set claims" "x' \<in> set claims" "claim_id x = claim_id x'" for x x'
    using inj_onD[of claim_id "set claims" x x'] assms(2) that by (simp add: distinct_map)
  have res: "y = y'" if "y \<in> set resolved" "y' \<in> set resolved" "claim_id y = claim_id y'" for y y'
    using inj_onD[of claim_id "set resolved" y y'] conjunct1[OF R] that by (simp add: distinct_map)
  have row: "x = x'" if "x \<in> set claims" "x' \<in> set claims" "claim_row x = claim_row x'" for x x'
    using inj_onD[of claim_row "set claims" x x'] assms(1) that by (simp add: distinct_map)
  have won: "\<exists>w \<in> set claims. disputed w \<and> claim_id w = claim_id y" if "y \<in> set resolved" for y
  proof -
    have "claim_id y \<in> set (map claim_id ?W)" using R that by (metis imageI list.set_map subsetD)
    then show ?thesis by auto
  qed
  fix x x' y y'
  assume x: "x \<in> set claims" "x' \<in> set claims" "x \<noteq> x'"
    "settled_claim resolved disputed x = Some y" "settled_claim resolved disputed x' = Some y'"
  show "claim_id y \<noteq> claim_id y'"
  proof
    assume same: "claim_id y = claim_id y'"
    from x(4) show False
    proof (cases rule: settled_claim_cases)
      case y: resolved
      from x(5) show False
      proof (cases rule: settled_claim_cases)
        case y': resolved
        have "y = y'" by (rule res[OF y(1) y'(1) same])
        then show False using row[OF x(1,2)] y(2) y'(2) x(3) by simp
      next
        case y': uncontested
        obtain w where "w \<in> set claims" "disputed w" "claim_id w = claim_id y" using won[OF y(1)] by blast
        then show False using claim[of w x'] same y'(1,2) x(2) by auto
      qed
    next
      case y: uncontested
      from x(5) show False
      proof (cases rule: settled_claim_cases)
        case y': resolved
        obtain w where "w \<in> set claims" "disputed w" "claim_id w = claim_id y'" using won[OF y'(1)] by blast
        then show False using claim[of w x] same y(1,2) x(1) by auto
      next
        case y': uncontested
        then show False using claim[OF x(1,2)] same y(1) x(3) by simp
      qed
    qed
  qed
qed

lemma kept_rows:
  "mset (map claim_row (List.map_filter (settled_claim resolved disputed) claims)) +
   mset (map claim_row (filter (\<lambda>x. settled_claim resolved disputed x = None) claims)) =
   mset (map claim_row claims)"
proof (induction claims)
  case (Cons x claims)
  then show ?case
    by (cases "settled_claim resolved disputed x") (auto simp: List.map_filter_simps dest: settled_claim_row)
qed (simp add: List.map_filter_simps)

lemma row_names_subset: "set (row_names l ts) \<subseteq> set ts"
  by (auto simp: row_names_def Let_def)

text \<open>Every claim that stands is one the line could win: an exact candidate on a compatible card.\<close>

lemma kept_sound:
  assumes ok: "cc_claims_ok masks rows cs claims" and db: "distinct (map t_id rows)" and y: "y \<in> set (List.map_filter
      (settled_claim (resolve_contested rows cs (filter disputed claims)) disputed) claims)"
  shows "fst y \<in> set cs \<and> snd y \<in> set (exact_set rows (fst y)) \<and> cc_card_compatible (t_card_mask (snd y)) masks"
proof -
  let ?W = "filter disputed claims"
  have claims: "fst x \<in> set cs \<and> snd x \<in> set (exact_set rows (fst x)) \<and> cc_card_compatible (t_card_mask (snd x)) masks"
    if "x \<in> set claims" for x using ok that by (auto simp: cc_claims_ok_def list_all_iff)
  have "distinct (map claim_id ?W)" "distinct (map claim_row ?W)"
    using ok by (simp_all add: distinct_map_filter cc_claims_ok_def)
  note R = resolved_ok[OF this refl, of rows cs]
  obtain x where x: "x \<in> set claims" "settled_claim (resolve_contested rows cs ?W) disputed x = Some y"
    using y unfolding in_map_filter_iff by blast
  from x(2) show ?thesis
  proof (cases rule: settled_claim_cases)
    case resolved
    have exact: "snd y \<in> set (exact_set rows (fst y))"
      using R resolved(1) row_names_subset unfolding names_of_def by blast
    have "fst y \<in> set (map fst ?W)" using R resolved(1) by (metis imageI list.set_map subsetD)
    then have "fst y \<in> set cs" using claims by auto
    moreover have "cc_card_compatible (t_card_mask (snd y)) masks"
    proof -
      have "claim_id y \<in> set (map claim_id ?W)" using R resolved(1) by (metis imageI list.set_map subsetD)
      then obtain w where w: "w \<in> set claims" "t_id (snd w) = t_id (snd y)" by auto
      have "snd w = snd y"
        using inj_onD[of t_id "set rows" "snd w" "snd y"] db w(2) exact claims[OF w(1)] by (simp add: distinct_map exact_set_iff)
      then show ?thesis using claims[OF w(1)] by simp
    qed
    ultimately show ?thesis using exact by blast
  next
    case uncontested
    then show ?thesis using claims[OF x(1)] by simp
  qed
qed

section \<open>Foreign pairs\<close>

lemma same_rows_sym: "same_rows ts us \<Longrightarrow> same_rows us ts"
  by (simp add: same_rows_def)

lemma same_rows_trans: "same_rows ts us \<Longrightarrow> same_rows us vs \<Longrightarrow> same_rows ts vs"
  by (simp add: same_rows_def)

lemma distinct_row_sets_subset: "set (distinct_row_sets tss) \<subseteq> set tss"
  by (induction tss) auto

lemma distinct_row_sets_apart: "sorted_wrt (\<lambda>ts us. \<not> same_rows ts us) (distinct_row_sets tss)"
  by (induction tss) (auto intro: sorted_wrt_filter)

lemma distinct_concat_apart:
  assumes "sorted_wrt Q gs" "\<And>g. g \<in> set gs \<Longrightarrow> distinct (map h (F g))"
    "\<And>g g'. g \<in> set gs \<Longrightarrow> g' \<in> set gs \<Longrightarrow> Q g g' \<Longrightarrow> set (map h (F g)) \<inter> set (map h (F g')) = {}"
  shows "distinct (map h (concat (map F gs)))"
  using assms
proof (induction gs)
  case (Cons g gs)
  have IH: "distinct (map h (concat (map F gs)))" by (rule Cons.IH) (use Cons.prems in auto)
  have "set (map h (F g)) \<inter> set (map h (F g')) = {}" if "g' \<in> set gs" for g'
    using Cons.prems(1,3) that by simp
  then have "set (map h (F g)) \<inter> set (map h (concat (map F gs))) = {}" unfolding set_map set_concat by blast
  moreover have "distinct (map h (F g))" using Cons.prems(2) by simp
  ultimately show ?case using IH by simp
qed simp

definition foreign_rows :: "txn list \<Rightarrow> cc_matched list \<Rightarrow> txn list" where
  "foreign_rows rows matched =
     filter (\<lambda>t. (normalized_currency (t_currency t) \<noteq> ''INR'' \<or> t_amount_source t = ''manual'') \<and>
                 t_id t \<notin> set (map (\<lambda>m. t_id (cm_txn m)) matched)) rows"

definition foreign_links :: "date_parser \<Rightarrow> cc_row list \<Rightarrow> txn list \<Rightarrow> string list \<Rightarrow> (cc_row \<times> txn list) list" where
  "foreign_links p rs foreign masks =
     filter (\<lambda>(r, ts). ts \<noteq> []) (map (\<lambda>r. (r, foreign_candidates p foreign masks r)) rs)"

definition lines_naming :: "(cc_row \<times> txn list) list \<Rightarrow> txn list \<Rightarrow> cc_row list" where
  "lines_naming pairable ts = map fst (filter (\<lambda>(r, us). same_rows ts us) pairable)"

lemma foreign_candidates_iff:
  "t \<in> set (foreign_candidates p foreign masks r) \<longleftrightarrow>
   (\<exists>c. parse_cc_row p r = Some c \<and> t \<in> set foreign \<and> t_direction t = cr_direction r \<and>
     (\<exists>day. t_transaction_date t = Some day \<and> \<bar>day - cq_date c\<bar> \<le> 1) \<and>
     cc_card_compatible (t_card_mask t) masks \<and> counterparty_singles_out (cl_narration (cr_line r)) t)"
  by (cases "parse_cc_row p r") (auto simp: foreign_candidates_def split: option.splits)

lemma foreign_candidates_distinct: "distinct (map t_id foreign) \<Longrightarrow> distinct (map t_id (foreign_candidates p foreign masks r))"
  by (auto simp: foreign_candidates_def distinct_map_filter split: option.splits)

lemma certain_groups_apart:
  assumes links: "links = foreign_links p rs foreign masks"
  and "set pairable \<subseteq> set links" "distinct (map cr_idx rs)" "distinct (map t_id foreign)"
    "\<not> same_rows ts us" "certain_group links (lines_naming pairable ts) ts" "certain_group links (lines_naming pairable us) us"
    "us \<noteq> []"
  shows "set (map cr_idx (lines_naming pairable ts)) \<inter> set (map cr_idx (lines_naming pairable us)) = {} \<and>
    set (map t_id ts) \<inter> set (map t_id us) = {}"
proof -
  have link: "vs = foreign_candidates p foreign masks r \<and> r \<in> set rs" if "(r, vs) \<in> set links" for r vs
    using that by (auto simp: links foreign_links_def)
  have line: "r \<in> set rs \<and> same_rows vs (foreign_candidates p foreign masks r)" if "r \<in> set (lines_naming pairable vs)" for r vs
    using that link assms(2) by (auto simp: lines_naming_def)
  have idx: "r = r'" if "r \<in> set rs" "r' \<in> set rs" "cr_idx r = cr_idx r'" for r r'
    using inj_onD[of cr_idx "set rs" r r'] assms(3) that by (simp add: distinct_map)
  have lines: False if "r \<in> set (lines_naming pairable ts)" "r' \<in> set (lines_naming pairable us)" "cr_idx r = cr_idx r'" for r r'
  proof -
    have "r = r'" using idx line[OF that(1)] line[OF that(2)] that(3) by blast
    then show False using line[OF that(1)] line[OF that(2)] assms(5) same_rows_sym same_rows_trans by metis
  qed
  have False if t: "i \<in> set (map t_id ts)" "i \<in> set (map t_id us)" for i
  proof -
    have "lines_naming pairable us \<noteq> []" using assms(7,8) by (auto simp: certain_group_def)
    then obtain r where r: "r \<in> set (lines_naming pairable us)" by (cases "lines_naming pairable us") auto
    then obtain ws where ws: "(r, ws) \<in> set pairable" "same_rows us ws" by (auto simp: lines_naming_def)
    have "i \<in> set (map t_id ws)" using t(2) ws(2) by (simp add: same_rows_def)
    moreover obtain t' where "t' \<in> set ts" "i = t_id t'" using t(1) unfolding set_map by blast
    ultimately have "list_ex (\<lambda>t. t_id t \<in> set (map t_id ws)) ts" unfolding list_ex_iff by blast
    then have "cr_idx r \<in> set (map cr_idx (lines_naming pairable ts))"
      using assms(6) ws(1) assms(2) by (auto simp: certain_group_def list_all_iff)
    then obtain r' where "r' \<in> set (lines_naming pairable ts)" "cr_idx r' = cr_idx r" by auto
    then show False using lines r by blast
  qed
  then show ?thesis using lines by auto
qed

lemma foreign_pairs_ok:
  assumes "distinct (map cr_idx rs)" "distinct (map t_id rows)" "pairs = foreign_pairs p rs rows masks matched missing"
  shows "distinct (map (\<lambda>x. cr_idx (fst x)) pairs) \<and> distinct (map (\<lambda>x. t_id (snd x)) pairs) \<and>
    (\<forall>(r, t) \<in> set pairs. r \<in> set rs \<and> cr_idx r \<in> set (map (\<lambda>m. cr_idx (cx_row m)) missing) \<and>
       t \<in> set (foreign_candidates p (foreign_rows rows matched) masks r))"
proof -
  define foreign where "foreign = foreign_rows rows matched"
  define links where "links = foreign_links p rs foreign masks"
  define free where "free = map (\<lambda>m. cr_idx (cx_row m)) (filter (\<lambda>m. \<not> cx_ambiguous m) missing)"
  define pairable where "pairable = filter (\<lambda>(r, ts). cr_idx r \<in> set free) links"
  define groups where "groups = distinct_row_sets (map snd pairable)"
  define G where "G = (\<lambda>ts. if certain_group links (lines_naming pairable ts) ts
                            then zip (lines_naming pairable ts) (sort_key t_id ts) else [])"
  have pairs: "pairs = concat (map G groups)"
    unfolding assms(3) foreign_pairs_def G_def groups_def pairable_def free_def links_def foreign_links_def foreign_def
      foreign_rows_def lines_naming_def Let_def by simp
  have foreign: "distinct (map t_id foreign)" using assms(2) by (simp add: foreign_def foreign_rows_def distinct_map_filter)
  have sub: "set pairable \<subseteq> set links" by (auto simp: pairable_def)
  have group: "\<exists>r. ts = foreign_candidates p foreign masks r \<and> ts \<noteq> []" if "ts \<in> set groups" for ts
  proof -
    have "ts \<in> set (map snd pairable)" using that distinct_row_sets_subset unfolding groups_def by blast
    then show ?thesis using sub by (auto simp: links_def foreign_links_def)
  qed
  have G_cases: "G ts = [] \<or> (certain_group links (lines_naming pairable ts) ts \<and>
      map fst (G ts) = lines_naming pairable ts \<and> map snd (G ts) = sort_key t_id ts)" for ts
    by (auto simp: G_def certain_group_def)
  have line_idx: "distinct (map cr_idx (lines_naming pairable ts))" for ts
  proof -
    have "map fst links = filter (\<lambda>r. foreign_candidates p foreign masks r \<noteq> []) rs"
      unfolding links_def foreign_links_def filter_map by (simp add: comp_def)
    then have "distinct (map cr_idx (map fst links))" using assms(1) by (simp only: distinct_map_filter)
    then have "distinct (map (\<lambda>x. cr_idx (fst x)) links)" by (simp add: comp_def)
    then have "distinct (map (\<lambda>x. cr_idx (fst x)) (filter (\<lambda>(r, us). same_rows ts us) pairable))"
      by (simp add: pairable_def distinct_map_filter)
    then show ?thesis by (simp add: lines_naming_def comp_def)
  qed
  have G_idx: "map (\<lambda>x. cr_idx (fst x)) (G ts) = [] \<or> map (\<lambda>x. cr_idx (fst x)) (G ts) = map cr_idx (lines_naming pairable ts)" for ts
    using G_cases[of ts] by (metis (no_types, lifting) list.map_comp comp_def list.simps(8) map_eq_conv)
  have G_ids: "map (\<lambda>x. t_id (snd x)) (G ts) = [] \<or> map (\<lambda>x. t_id (snd x)) (G ts) = map t_id (sort_key t_id ts)" for ts
    using G_cases[of ts] by (metis (no_types, lifting) list.map_comp comp_def list.simps(8) map_eq_conv)
  have G_id: "set (map (\<lambda>x. t_id (snd x)) (G ts)) \<subseteq> set (map t_id ts)" for ts
    using G_ids[of ts] by (metis empty_set empty_subsetI order_refl set_map set_sort)
  have G_id_distinct: "distinct (map (\<lambda>x. t_id (snd x)) (G ts))" if "ts \<in> set groups" for ts
  proof -
    have "distinct (map t_id ts)" using group[OF that] foreign_candidates_distinct[OF foreign] by blast
    then have "distinct (map t_id (sort_key t_id ts))"
      using distinct_map_mset[of "sort_key t_id ts" ts t_id] by simp
    then show ?thesis using G_ids[of ts] by (metis distinct.simps(1))
  qed
  have apart: "set (map (\<lambda>x. cr_idx (fst x)) (G ts)) \<inter> set (map (\<lambda>x. cr_idx (fst x)) (G us)) = {} \<and>
      set (map (\<lambda>x. t_id (snd x)) (G ts)) \<inter> set (map (\<lambda>x. t_id (snd x)) (G us)) = {}"
    if "ts \<in> set groups" "us \<in> set groups" "\<not> same_rows ts us" for ts us
  proof (cases "G ts = [] \<or> G us = []")
    case False
    then have "certain_group links (lines_naming pairable ts) ts" "certain_group links (lines_naming pairable us) us"
      using G_cases by blast+
    moreover have "us \<noteq> []" using group[OF that(2)] by blast
    ultimately have "set (map cr_idx (lines_naming pairable ts)) \<inter> set (map cr_idx (lines_naming pairable us)) = {} \<and>
        set (map t_id ts) \<inter> set (map t_id us) = {}"
      using certain_groups_apart[OF links_def sub assms(1) foreign that(3)] by blast
    moreover have "map (\<lambda>x. cr_idx (fst x)) (G ts) = map cr_idx (lines_naming pairable ts)"
      "map (\<lambda>x. cr_idx (fst x)) (G us) = map cr_idx (lines_naming pairable us)"
      using G_idx[of ts] G_idx[of us] False by auto
    ultimately show ?thesis using G_id[of ts] G_id[of us] by (metis (no_types, lifting) disjoint_iff subsetD)
  qed auto
  have sorted: "sorted_wrt (\<lambda>ts us. \<not> same_rows ts us) groups" unfolding groups_def by (rule distinct_row_sets_apart)
  have "distinct (map (\<lambda>x. cr_idx (fst x)) pairs)"
    unfolding pairs
  proof (rule distinct_concat_apart[OF sorted])
    show "distinct (map (\<lambda>x. cr_idx (fst x)) (G g))" for g
      using G_idx[of g] line_idx[of g] by (metis distinct.simps(1))
    show "set (map (\<lambda>x. cr_idx (fst x)) (G g)) \<inter> set (map (\<lambda>x. cr_idx (fst x)) (G g')) = {}"
      if "g \<in> set groups" "g' \<in> set groups" "\<not> same_rows g g'" for g g' using apart[OF that] by (rule conjunct1)
  qed
  moreover have "distinct (map (\<lambda>x. t_id (snd x)) pairs)"
    unfolding pairs
  proof (rule distinct_concat_apart[OF sorted G_id_distinct])
    show "set (map (\<lambda>x. t_id (snd x)) (G g)) \<inter> set (map (\<lambda>x. t_id (snd x)) (G g')) = {}"
      if "g \<in> set groups" "g' \<in> set groups" "\<not> same_rows g g'" for g g' using apart[OF that] by (rule conjunct2)
  qed
  moreover have "r \<in> set rs \<and> cr_idx r \<in> set (map (\<lambda>m. cr_idx (cx_row m)) missing) \<and>
      t \<in> set (foreign_candidates p foreign masks r)" if "(r, t) \<in> set pairs" for r t
  proof -
    obtain ts where ts: "ts \<in> set groups" "(r, t) \<in> set (G ts)" using \<open>(r, t) \<in> set pairs\<close> by (auto simp: pairs)
    then have "G ts \<noteq> []" by auto
    then have fs: "map fst (G ts) = lines_naming pairable ts" "map snd (G ts) = sort_key t_id ts" using G_cases[of ts] by simp_all
    have "r \<in> set (lines_naming pairable ts)" using ts(2) unfolding fs(1)[symmetric] by force
    then obtain us where us: "(r, us) \<in> set pairable" "same_rows ts us" by (auto simp: lines_naming_def)
    have link: "us = foreign_candidates p foreign masks r" "r \<in> set rs" "cr_idx r \<in> set free"
      using us(1) by (auto simp: pairable_def links_def foreign_links_def)
    have "t \<in> set (map snd (G ts))" using ts(2) by force
    then have tt: "t \<in> set ts" unfolding fs(2) by simp
    then have "t_id t \<in> set (map t_id us)" using us(2) by (simp add: same_rows_def) blast
    then obtain t' where t': "t' \<in> set us" "t_id t' = t_id t" by auto
    have "set ts \<subseteq> set foreign" "set us \<subseteq> set foreign" using group[OF ts(1)] link(1) by (auto simp: foreign_candidates_iff)
    then have "t' = t" using inj_onD[of t_id "set foreign" t' t] foreign t' tt by (auto simp: distinct_map)
    then show ?thesis using t'(1) link by (auto simp: free_def)
  qed
  ultimately show ?thesis unfolding foreign_def by blast
qed

section \<open>The whole reconciliation\<close>

abbreviation posted_cc :: "txn list \<Rightarrow> txn list" where
  "posted_cc D \<equiv> filter cc_posted D"

definition claims_for :: "date_parser \<Rightarrow> parsed_cc \<Rightarrow> txn list \<Rightarrow> string list \<Rightarrow> cc_claims" where
  "claims_for p ps D masks = cc_claims_of masks (posted_cc D) (parsed_cc_rows p ps)"

definition disputed_for :: "date_parser \<Rightarrow> parsed_cc \<Rightarrow> txn list \<Rightarrow> string list \<Rightarrow> cc_parsed \<times> txn \<Rightarrow> bool" where
  "disputed_for p ps D masks = cc_contested masks (posted_cc D) (parsed_cc_rows p ps)"

definition settled_for :: "date_parser \<Rightarrow> parsed_cc \<Rightarrow> txn list \<Rightarrow> string list \<Rightarrow> cc_parsed \<times> txn \<Rightarrow> (cc_parsed \<times> txn) option" where
  "settled_for p ps D masks =
     settled_claim (resolve_contested (posted_cc D) (parsed_cc_rows p ps)
       (filter (disputed_for p ps D masks) (claims_for p ps D masks))) (disputed_for p ps D masks)"

definition kept_for :: "date_parser \<Rightarrow> parsed_cc \<Rightarrow> txn list \<Rightarrow> string list \<Rightarrow> cc_claims" where
  "kept_for p ps D masks = List.map_filter (settled_for p ps D masks) (claims_for p ps D masks)"

definition base_matched :: "(string \<Rightarrow> string) \<Rightarrow> date_parser \<Rightarrow> parsed_cc \<Rightarrow> txn list \<Rightarrow> string list \<Rightarrow> cc_matched list" where
  "base_matched nm p ps D masks = map (cc_matched_entry nm (posted_cc D)) (kept_for p ps D masks)"

definition base_missing :: "(string \<Rightarrow> string) \<Rightarrow> date_parser \<Rightarrow> parsed_cc \<Rightarrow> txn list \<Rightarrow> string list \<Rightarrow> cc_missing list" where
  "base_missing nm p ps D masks =
     map (\<lambda>r. cc_missing_entry r False [] ''unparseable_statement_identity'')
       (filter (\<lambda>r. parse_cc_row p r = None) (statement_rows ps)) @
     List.map_filter (missed_entry nm (posted_cc D) (claims_for p ps D masks)) (parsed_cc_rows p ps) @
     map (demoted_entry nm (posted_cc D)) (filter (\<lambda>x. settled_for p ps D masks x = None) (claims_for p ps D masks))"

definition pairs_for :: "(string \<Rightarrow> string) \<Rightarrow> date_parser \<Rightarrow> parsed_cc \<Rightarrow> txn list \<Rightarrow> string list \<Rightarrow> (cc_row \<times> txn) list" where
  "pairs_for nm p ps D masks =
     foreign_pairs p (statement_rows ps) (posted_cc D) masks (base_matched nm p ps D masks) (base_missing nm p ps D masks)"

lemma reconcile_cc_parts:
  "cn_matched (reconcile_statement nm p ps D masks) =
     base_matched nm p ps D masks @ map (\<lambda>(x, t). foreign_match x t) (pairs_for nm p ps D masks)"
  "cn_missing (reconcile_statement nm p ps D masks) =
     sort_key (\<lambda>m. cr_idx (cx_row m))
       (filter (\<lambda>m. cr_idx (cx_row m) \<notin> set (map (\<lambda>x. cr_idx (fst x)) (pairs_for nm p ps D masks)))
         (base_missing nm p ps D masks))"
  by (simp_all add: reconcile_statement_def Let_def pair_foreign_alerts_def pairs_for_def base_matched_def
      base_missing_def kept_for_def settled_for_def claims_for_def disputed_for_def case_prod_beta)

lemma claims_for_ok: "cc_claims_ok masks (posted_cc D) (parsed_cc_rows p ps) (claims_for p ps D masks)"
  unfolding claims_for_def by (rule cc_claims_of_ok[OF parsed_cc_distinct])

lemma pairs_for_ok:
  assumes "distinct (map t_id D)"
  shows "distinct (map (\<lambda>x. cr_idx (fst x)) (pairs_for nm p ps D masks))"
    "distinct (map (\<lambda>x. t_id (snd x)) (pairs_for nm p ps D masks))"
    "(r, t) \<in> set (pairs_for nm p ps D masks) \<Longrightarrow> r \<in> set (statement_rows ps) \<and>
       cr_idx r \<in> set (map (\<lambda>m. cr_idx (cx_row m)) (base_missing nm p ps D masks)) \<and>
       t \<in> set (foreign_candidates p (foreign_rows (posted_cc D) (base_matched nm p ps D masks)) masks r)"
proof -
  have "distinct (map t_id (posted_cc D))" using assms by (simp add: distinct_map_filter)
  from foreign_pairs_ok[OF statement_rows_distinct this pairs_for_def]
  show "distinct (map (\<lambda>x. cr_idx (fst x)) (pairs_for nm p ps D masks))"
    "distinct (map (\<lambda>x. t_id (snd x)) (pairs_for nm p ps D masks))"
    "(r, t) \<in> set (pairs_for nm p ps D masks) \<Longrightarrow> r \<in> set (statement_rows ps) \<and>
       cr_idx r \<in> set (map (\<lambda>m. cr_idx (cx_row m)) (base_missing nm p ps D masks)) \<and>
       t \<in> set (foreign_candidates p (foreign_rows (posted_cc D) (base_matched nm p ps D masks)) masks r)"
    by blast+
qed

lemma base_matched_ids: "distinct (map (\<lambda>m. t_id (cm_txn m)) (base_matched nm p ps D masks))"
proof -
  have "distinct (map claim_id (kept_for p ps D masks))"
    unfolding kept_for_def settled_for_def
    by (rule kept_distinct[OF _ _ refl]) (use claims_for_ok[of masks D p ps] in \<open>simp_all add: cc_claims_ok_def\<close>)
  then show ?thesis by (simp add: base_matched_def cc_matched_entry_def case_prod_beta comp_def)
qed

text \<open>A line is missing or claimed, a claim stands or is demoted.\<close>

lemma missed_rows:
  assumes "distinct (map row_of cs)" "set (map claim_row claims) \<subseteq> set (map row_of cs)" "distinct (map claim_row claims)"
  shows "mset (map (\<lambda>m. cr_idx (cx_row m)) (List.map_filter (missed_entry nm rows claims) cs)) + mset (map claim_row claims) =
    mset (map row_of cs)"
proof -
  have "map (\<lambda>m. cr_idx (cx_row m)) (List.map_filter (missed_entry nm rows claims) qs) =
      filter (\<lambda>i. i \<notin> set (map claim_row claims)) (map row_of qs)" for qs
  proof (induction qs)
    case (Cons q qs)
    have "missed_entry nm rows claims q = None \<longleftrightarrow> row_of q \<in> set (map claim_row claims)"
      unfolding missed_entry_def Let_def list_ex_iff set_map image_iff case_prod_beta by (simp add: eq_commute)
    moreover have "cr_idx (cx_row x) = row_of q" if "missed_entry nm rows claims q = Some x" for x
      using that by (auto simp: missed_entry_def Let_def cc_missing_entry_def split: if_splits)
    ultimately show ?case
      using Cons by (cases "missed_entry nm rows claims q") (simp_all add: List.map_filter_simps)
  qed (simp add: List.map_filter_simps)
  note missed = this
  have claimed: "mset (filter (\<lambda>i. i \<in> set (map claim_row claims)) (map row_of cs)) = mset (map claim_row claims)"
    by (rule set_eq_iff_mset_eq_distinct[THEN iffD1]) (use assms in auto)
  have "mset (filter (\<lambda>i. i \<notin> S) xs) + mset (filter (\<lambda>i. i \<in> S) xs) = mset xs" for S and xs :: "nat list"
    by (induction xs) auto
  from this[of "set (map claim_row claims)" "map row_of cs"] show ?thesis unfolding missed claimed .
qed

lemma base_rows:
  "mset (map (\<lambda>m. cr_idx (cm_row m)) (base_matched nm p ps D masks)) +
   mset (map (\<lambda>m. cr_idx (cx_row m)) (base_missing nm p ps D masks)) = mset [0..<length (statement_rows ps)]"
proof -
  let ?claims = "claims_for p ps D masks" and ?cs = "parsed_cc_rows p ps"
  have ok: "set (map claim_row ?claims) \<subseteq> set (map row_of ?cs)" "distinct (map claim_row ?claims)"
    using claims_for_ok[of masks D p ps] by (auto simp: cc_claims_ok_def list_all_iff)
  have kept: "map (\<lambda>m. cr_idx (cm_row m)) (base_matched nm p ps D masks) = map claim_row (kept_for p ps D masks)"
    by (simp add: base_matched_def cc_matched_entry_def case_prod_beta comp_def)
  have unparsed: "map (\<lambda>m. cr_idx (cx_row m)) (map (\<lambda>r. cc_missing_entry r False [] reason) xs) = map cr_idx xs" for reason xs
    by (simp add: cc_missing_entry_def comp_def)
  have demoted: "map (\<lambda>m. cr_idx (cx_row m)) (map (demoted_entry nm (posted_cc D)) xs) = map claim_row xs" for xs
    by (simp add: demoted_entry_def cc_missing_entry_def comp_def)
  have split: "mset (map cr_idx (filter (\<lambda>r. \<not> P r) xs)) + mset (map cr_idx (filter P xs)) = mset (map cr_idx xs)" for P and xs :: "cc_row list"
    by (induction xs) auto
  have sum: "K + (U + (M + X)) = T" if "K + X = C" "M + C = L" "L + U = T" for K U M X C L T :: "nat multiset"
    unfolding that(3)[symmetric] that(2)[symmetric] that(1)[symmetric] by (simp only: ac_simps)
  have "mset (map claim_row (kept_for p ps D masks)) +
      mset (map claim_row (filter (\<lambda>x. settled_for p ps D masks x = None) ?claims)) = mset (map claim_row ?claims)"
    unfolding kept_for_def settled_for_def by (rule kept_rows)
  moreover note missed_rows[OF parsed_cc_distinct ok, of nm "posted_cc D"]
  moreover have "mset (map row_of ?cs) + mset (map cr_idx (filter (\<lambda>r. parse_cc_row p r = None) (statement_rows ps))) =
      mset [0..<length (statement_rows ps)]"
    unfolding parsed_cc_rows_idx statement_rows_idx[symmetric] using split[of "\<lambda>r. parse_cc_row p r = None" "statement_rows ps"] by simp
  ultimately show ?thesis
    unfolding kept base_missing_def map_append mset_append unparsed demoted by (rule sum)
qed

lemma base_matched_sound:
  assumes "distinct (map t_id D)" "m \<in> set (base_matched nm p ps D masks)"
  shows "\<not> cm_foreign m \<and> cm_txn m \<in> set (posted_cc D) \<and> cc_card_compatible (t_card_mask (cm_txn m)) masks \<and>
    (\<exists>c \<in> set (parsed_cc_rows p ps). cm_row m = cq_row c \<and> cm_txn m \<in> set (exact_set (posted_cc D) c))"
proof -
  obtain y where y: "y \<in> set (kept_for p ps D masks)" "m = cc_matched_entry nm (posted_cc D) y"
    using assms(2) by (auto simp: base_matched_def)
  have "distinct (map t_id (posted_cc D))" using assms(1) by (simp add: distinct_map_filter)
  from kept_sound[OF claims_for_ok this, of y, folded settled_for_def] y(1)
  have "fst y \<in> set (parsed_cc_rows p ps) \<and> snd y \<in> set (exact_set (posted_cc D) (fst y)) \<and>
      cc_card_compatible (t_card_mask (snd y)) masks"
    unfolding kept_for_def settled_for_def by blast
  then show ?thesis using y(2) by (auto simp: cc_matched_entry_def case_prod_beta exact_set_iff)
qed

lemma parsed_cc_row: "c \<in> set (parsed_cc_rows p ps) \<longleftrightarrow> cq_row c \<in> set (statement_rows ps) \<and> parse_cc_row p (cq_row c) = Some c"
  unfolding in_map_filter_iff by (auto simp: parse_cc_row_Some)

section \<open>The matches of a card statement\<close>

text \<open>What a match states of its line and its row: a posted row of the list on a card of the account, the
  direction of the line, at most a day apart; in the rupees of the line, or, for a foreign alert or a
  row with a hand-typed amount, at the merchant that the line names.\<close>

definition cc_match_ok :: "date_parser \<Rightarrow> parsed_cc \<Rightarrow> txn list \<Rightarrow> string list \<Rightarrow> cc_matched \<Rightarrow> bool" where
  "cc_match_ok p ps D masks m \<longleftrightarrow>
     (let t = cm_txn m; r = cm_row m in
      t \<in> set D \<and> cc_posted t \<and> r \<in> set (statement_rows ps) \<and> cc_card_compatible (t_card_mask t) masks \<and>
      t_direction t = cr_direction r \<and>
      (\<exists>c day. parse_cc_row p r = Some c \<and> t_transaction_date t = Some day \<and> \<bar>day - cq_date c\<bar> \<le> 1 \<and>
         (if cm_foreign m
          then (normalized_currency (t_currency t) \<noteq> ''INR'' \<or> t_amount_source t = ''manual'') \<and>
               counterparty_singles_out (cl_narration (cr_line r)) t
          else normalized_currency (t_currency t) = ''INR'' \<and> t_amount t = cq_amount c)))"

lemma foreign_rows_iff: "t \<in> set (foreign_rows rows matched) \<longleftrightarrow>
    t \<in> set rows \<and> (normalized_currency (t_currency t) \<noteq> ''INR'' \<or> t_amount_source t = ''manual'') \<and>
    t_id t \<notin> set (map (\<lambda>m. t_id (cm_txn m)) matched)"
  by (auto simp: foreign_rows_def)

lemma base_match_ok:
  assumes "distinct (map t_id D)" "m \<in> set (base_matched nm p ps D masks)"
  shows "cc_match_ok p ps D masks m"
proof -
  obtain c where m: "\<not> cm_foreign m" "cm_txn m \<in> set (posted_cc D)" "cc_card_compatible (t_card_mask (cm_txn m)) masks"
    "c \<in> set (parsed_cc_rows p ps)" "cm_row m = cq_row c" "cm_txn m \<in> set (exact_set (posted_cc D) c)"
    using base_matched_sound[OF assms] by blast
  then show ?thesis unfolding cc_match_ok_def exact_set_iff parsed_cc_row Let_def by (auto simp del: set_filter) simp_all
qed

lemma foreign_match_ok:
  assumes "distinct (map t_id D)" "(r, t) \<in> set (pairs_for nm p ps D masks)"
  shows "cc_match_ok p ps D masks (foreign_match r t)"
  using pairs_for_ok(3)[OF assms]
  unfolding cc_match_ok_def foreign_candidates_iff foreign_rows_iff Let_def foreign_match_def by auto

lemma disjoint_maps:
  assumes "\<And>y. y \<in> set ys \<Longrightarrow> g y \<notin> set (map f xs)"
  shows "set (map f xs) \<inter> set (map g ys) = {}"
proof (rule equals0I)
  fix z assume z: "z \<in> set (map f xs) \<inter> set (map g ys)"
  then obtain y where "y \<in> set ys" "z = g y" by auto
  then show False using assms[of y] z by simp
qed

text \<open>C11. A match of the card reconciliation is one-to-one, and each match joins a line to a posted row of
  the account that the line can be: the card, the direction and the date agree, and so do the rupees,
  or, for a foreign alert, the merchant.\<close>

theorem cc_matches_sound:
  assumes "distinct (map t_id D)"
  shows "distinct (map (\<lambda>m. t_id (cm_txn m)) (cn_matched (reconcile_statement nm p ps D masks))) \<and>
    list_all (cc_match_ok p ps D masks) (cn_matched (reconcile_statement nm p ps D masks))"
proof
  let ?base = "base_matched nm p ps D masks" and ?pairs = "pairs_for nm p ps D masks"
  have "t_id (snd x) \<notin> set (map (\<lambda>m. t_id (cm_txn m)) ?base)" if "x \<in> set ?pairs" for x
    using pairs_for_ok(3)[OF assms, of "fst x" "snd x"] that unfolding foreign_candidates_iff foreign_rows_iff prod.collapse by blast
  then have "set (map (\<lambda>m. t_id (cm_txn m)) ?base) \<inter> set (map (\<lambda>x. t_id (snd x)) ?pairs) = {}"
    by (rule disjoint_maps)
  then show "distinct (map (\<lambda>m. t_id (cm_txn m)) (cn_matched (reconcile_statement nm p ps D masks)))"
    using base_matched_ids[of nm p ps D masks] pairs_for_ok(2)[OF assms, of nm p ps masks]
    unfolding reconcile_cc_parts by (simp add: comp_def case_prod_beta foreign_match_def)
  show "list_all (cc_match_ok p ps D masks) (cn_matched (reconcile_statement nm p ps D masks))"
    unfolding reconcile_cc_parts list_all_iff using base_match_ok[OF assms] foreign_match_ok[OF assms] by auto
qed

lemma mset_remove_distinct:
  fixes zs :: "nat list"
  assumes "mset (map f xs) + mset (map g ys) = mset zs" "distinct zs" "distinct ws" "set ws \<subseteq> set (map g ys)"
  shows "mset (map f xs @ ws) + mset (map g (filter (\<lambda>y. g y \<notin> set ws) ys)) = mset zs"
proof -
  have "distinct (map f xs @ map g ys)" using assms(1,2) by (metis mset_append mset_eq_imp_distinct_iff)
  then have "distinct (map g ys)" by simp
  then have "mset ws = mset (filter (\<lambda>i. i \<in> set ws) (map g ys))"
    using assms(3,4) by (intro set_eq_iff_mset_eq_distinct[THEN iffD1]) auto
  moreover have "map g (filter (\<lambda>y. g y \<notin> set ws) ys) = filter (\<lambda>i. i \<notin> set ws) (map g ys)"
    by (simp add: filter_map comp_def)
  moreover have "mset (filter P us) + mset (filter (\<lambda>i. \<not> P i) us) = mset us" for P and us :: "nat list"
    by (induction us) auto
  note split = this[of "\<lambda>i. i \<in> set ws" "map g ys"]
  ultimately have "mset ws + mset (map g (filter (\<lambda>y. g y \<notin> set ws) ys)) = mset (map g ys)"
    by (simp only: split)
  then show ?thesis unfolding assms(1)[symmetric] mset_append by (simp only: add.assoc)
qed

text \<open>Every line of a card statement that is a card transaction has exactly one outcome: its position
  occurs once among the matched and the missing entries.\<close>

theorem cc_every_line_once:
  assumes "distinct (map t_id D)"
  shows "mset (map (\<lambda>m. cr_idx (cm_row m)) (cn_matched (reconcile_statement nm p ps D masks))) +
    mset (map (\<lambda>m. cr_idx (cx_row m)) (cn_missing (reconcile_statement nm p ps D masks))) =
    mset [0..<length (statement_rows ps)]"
proof -
  let ?ws = "map (\<lambda>x. cr_idx (fst x)) (pairs_for nm p ps D masks)"
  have "set ?ws \<subseteq> set (map (\<lambda>m. cr_idx (cx_row m)) (base_missing nm p ps D masks))"
    using pairs_for_ok(3)[OF assms] by auto
  note sum = mset_remove_distinct[OF base_rows distinct_upt pairs_for_ok(1)[OF assms] this]
  have pairs: "map (\<lambda>m. cr_idx (cm_row m)) (map (\<lambda>(x, t). foreign_match x t) xs) = map (\<lambda>x. cr_idx (fst x)) xs" for xs
    by (simp add: foreign_match_def case_prod_beta)
  have sorted: "mset (map f (sort_key k xs)) = mset (map f xs)" for f :: "cc_missing \<Rightarrow> nat" and k :: "cc_missing \<Rightarrow> nat" and xs
    by simp
  show ?thesis unfolding reconcile_cc_parts map_append pairs sorted by (rule sum)
qed

section \<open>The import of a card statement\<close>

text \<open>An amount that is no number leaves the import as an exception.\<close>

definition cc_bad_amount :: "cc_missing \<Rightarrow> bool" where
  "cc_bad_amount m \<longleftrightarrow>
     cx_imported m = None \<and> \<not> cx_ambiguous m \<and> parse_cc_amount (cl_amount (cr_line (cx_row m))) = None"

lemma import_entry_aborts: "cc_bad_amount m \<Longrightarrow> cc_import_entry p e ctx u ps acct recorded m st = None"
  by (simp add: cc_bad_amount_def cc_import_entry_def import_new_line_def Let_def)

lemma import_entries_abort:
  "list_ex cc_bad_amount ms \<Longrightarrow> cc_import_entries p e ctx u ps acct recorded ms st = None"
proof (induction ms arbitrary: st)
  case (Cons m ms)
  show ?case
  proof (cases "cc_bad_amount m")
    case True
    then show ?thesis by (simp add: import_entry_aborts)
  next
    case False
    then have "cc_import_entries p e ctx u ps acct recorded ms st' = None" for st' using Cons by simp
    then show ?thesis by (simp split: option.splits prod.splits)
  qed
qed simp

lemma unparsed_line_missing:
  assumes "distinct (map t_id D)" "r \<in> set (statement_rows ps)" "parse_cc_row p r = None"
  shows "cc_missing_entry r False [] ''unparseable_statement_identity'' \<in> set (cn_missing (reconcile_statement nm p ps D masks))"
proof -
  let ?m = "cc_missing_entry r False [] ''unparseable_statement_identity''"
  have "?m \<in> set (base_missing nm p ps D masks)" using assms(2,3) by (simp add: base_missing_def)
  moreover have "cr_idx r \<notin> set (map (\<lambda>x. cr_idx (fst x)) (pairs_for nm p ps D masks))"
  proof
    assume "cr_idx r \<in> set (map (\<lambda>x. cr_idx (fst x)) (pairs_for nm p ps D masks))"
    then obtain x where that: "x \<in> set (pairs_for nm p ps D masks)" and "cr_idx (fst x) = cr_idx r" by auto
    note this(2)
    moreover have "fst x \<in> set (statement_rows ps)" "parse_cc_row p (fst x) \<noteq> None"
      using pairs_for_ok(3)[OF assms(1), of "fst x" "snd x"] that unfolding foreign_candidates_iff prod.collapse by blast+
    ultimately show False
      using assms(2,3) inj_onD[of cr_idx "set (statement_rows ps)" "fst x" r] statement_rows_distinct[of ps] by (simp add: distinct_map)
  qed
  ultimately show ?thesis
    unfolding reconcile_cc_parts set_sort set_filter by (simp only: mem_Collect_eq) (simp add: cc_missing_entry_def)
qed

lemma enrich_keeps_missing: "cn_missing (fst (cc_enrich_matched_transactions e r d)) = cn_missing r"
  by (simp add: cc_enrich_matched_transactions_def Let_def case_prod_beta)

text \<open>C12. One line whose amount is no number aborts the whole import of a card statement: the
  reconciliation lists it as missing, and its import raises, so that no other line is recorded.\<close>

theorem cc_bad_amount_aborts:
  assumes "distinct (map t_id D)" "r \<in> set (statement_rows ps)" "parse_cc_amount (cl_amount (cr_line r)) = None"
  shows "import_missing_cc_txns p e u ps acct
    (fst (cc_enrich_matched_transactions e (reconcile_statement nm p ps D masks) d)) d' = None"
proof -
  have "parse_cc_row p r = None" using assms(3) by (simp add: parse_cc_row_def)
  from unparsed_line_missing[OF assms(1,2) this, of nm masks]
  moreover have "cc_bad_amount (cc_missing_entry r False [] ''unparseable_statement_identity'')"
    using assms(3) by (simp add: cc_bad_amount_def cc_missing_entry_def)
  ultimately have "list_ex cc_bad_amount (cn_missing (reconcile_statement nm p ps D masks))"
    unfolding list_ex_iff by blast
  then show ?thesis by (simp add: import_missing_cc_txns_def enrich_keeps_missing import_entries_abort)
qed

text \<open>What the import leaves alone: everything but the category, and the holder of a recorded copy.\<close>

definition drop_holder :: "txn \<Rightarrow> txn" where
  "drop_holder t = (drop_category t)\<lparr>t_card_holder := None\<rparr>"

lemma drop_holder_category: "drop_category s = drop_category t \<Longrightarrow> drop_holder s = drop_holder t"
  by (simp add: drop_holder_def)

lemma map_drop_holder: "map drop_category xs = map drop_category ys \<Longrightarrow> map drop_holder xs = map drop_holder ys"
  unfolding drop_holder_def by (metis (no_types, lifting) list.map_comp comp_def map_eq_conv)

definition cc_new_row :: "date_parser \<Rightarrow> env \<Rightarrow> statement_upload \<Rightarrow> parsed_cc \<Rightarrow> cc_missing \<Rightarrow> txn \<Rightarrow> bool" where
  "cc_new_row p e u ps m row \<longleftrightarrow>
     (\<exists>i mask holder amount day. parse_cc_amount (cl_amount (cr_line (cx_row m))) = Some amount \<and>
        parse_cc_date p (cl_date (cr_line (cx_row m))) = Some day \<and>
        row = cc_statement_row e i u ps mask holder (cx_row m) amount day)"

lemma drop_holder_keys:
  assumes "map drop_holder rows = map drop_holder rows'"
  shows "map ref_key rows = map ref_key rows'" "map t_id rows = map t_id rows'"
proof -
  have f: "ref_key (drop_holder t) = ref_key t" "t_id (drop_holder t) = t_id t" for t
    by (simp_all add: drop_holder_def drop_category_def ref_key_def)
  have "map h rows = map h rows'" if "\<And>t. h (drop_holder t) = h t" for h :: "txn \<Rightarrow> 'b"
  proof -
    have "map h rows = map h (map drop_holder rows)" "map h rows' = map h (map drop_holder rows')"
      using that by simp_all
    then show ?thesis using assms by simp
  qed
  note same = this
  show "map ref_key rows = map ref_key rows'" "map t_id rows = map t_id rows'" by (rule same, rule f)+
qed

text \<open>What one line does to the table: nothing but the holder of a copy, or one new row.\<close>

lemma cc_import_entry_cases:
  assumes "cc_import_entry p e ctx u ps acct recorded m st = Some (m', st')"
  obtains
    (stored) "map drop_holder (transactions (im_db st')) = map drop_holder (transactions (im_db st))" "im_new st' = im_new st"
  | (created) row d where "cc_new_row p e u ps m row" "t_id row = next_id (map t_id (transactions (im_db st)))"
      "transactions d = transactions (im_db st) @ [row]" "uq_transactions_ref (transactions d)"
      "im_new st' = im_new st @ [t_id row]" "im_db st' = snd (apply_reference_self_transfer_rule e row d)"
proof -
  let ?new = "\<lambda>holder. import_new_line p e ctx u ps acct holder m st"
  have new: thesis if n: "?new holder = Some (m', st')" for holder
  proof (cases "parse_cc_date p (cl_date (cr_line (cx_row m)))")
    case None
    then have "st' = st" using n by (auto simp: import_new_line_def Let_def split: option.splits)
    then show thesis by (intro stored) simp_all
  next
    case (Some day)
    from n obtain amount where amount: "parse_cc_amount (cl_amount (cr_line (cx_row m))) = Some amount"
      by (auto simp: import_new_line_def Let_def split: option.splits)
    let ?row = "cc_statement_row e (next_id (map t_id (transactions (im_db st)))) u ps
      (resolve_cc_card_mask (im_db st) acct (cl_card_number (cr_line (cx_row m)))) holder (cx_row m) amount day"
    show thesis
    proof (cases "import_row ctx ?row (im_db st)")
      case (Inl x)
      then have "st' = st" using n Some amount by (simp add: import_new_line_def Let_def)
      then show thesis by (intro stored) simp_all
    next
      case (Inr rd)
      obtain row' d' where rd: "rd = (row', d')" by (cases rd)
      have "t_id ?row \<notin> t_id ` set (transactions (im_db st))" "t_account_id ?row \<noteq> None"
        using next_id_fresh[of "map t_id (transactions (im_db st))"] by (simp_all add: cc_statement_row_def)
      note r = import_row_Inr[OF Inr[unfolded rd] this]
      have st': "st' = st\<lparr>im_new := im_new st @ [t_id ?row], im_db := snd (apply_reference_self_transfer_rule e ?row d')\<rparr>"
        using n Some amount Inr rd r by (simp add: import_new_line_def Let_def)
      have row: "cc_new_row p e u ps m ?row" "t_id ?row = next_id (map t_id (transactions (im_db st)))"
        using Some amount by (auto simp: cc_new_row_def) (simp add: cc_statement_row_def)
      have "im_new st' = im_new st @ [t_id ?row]" "im_db st' = snd (apply_reference_self_transfer_rule e ?row d')"
        by (simp_all add: st')
      then show thesis using created[OF row conjunct1[OF conjunct2[OF r]] conjunct2[OF conjunct2[OF r]]] by blast
    qed
  qed
  define holder where "holder = statement_card_holder (im_db st) (Some (su_account_id u)) (cl_person (cr_line (cx_row m)))"
  define copy where "copy = (if cx_ambiguous m
    then take_copy (copies_of p (cx_row m) recorded (im_claimed st) (im_db st)) holder
           (card_holder_name (cl_person (cr_line (cx_row m)))) else None)"
  have entry: "cc_import_entry p e ctx u ps acct recorded m st =
      (if cx_imported m \<noteq> None then Some (m, st)
       else case copy of
         Some t \<Rightarrow> Some (m\<lparr>cx_imported := Some (t_id t), cx_error := None\<rparr>,
           st\<lparr>im_claimed := t_id t # im_claimed st,
              im_db := (if holder = None then im_db st
                        else write_txn (t_id t) (\<lambda>t. t\<lparr>t_card_holder := holder\<rparr>) (im_db st))\<rparr>)
       | None \<Rightarrow> ?new holder)"
    unfolding cc_import_entry_def Let_def copy_def holder_def by (rule refl)
  have frame: "map drop_holder (update_where P (\<lambda>t. t\<lparr>t_card_holder := h\<rparr>) rows) = map drop_holder rows" for P h rows
    by (simp add: map_update_where drop_holder_def drop_category_def)
  show thesis
  proof (cases "cx_imported m = None \<and> copy = None")
    case True
    then show thesis using new assms entry by simp
  next
    case False
    then show thesis using assms unfolding entry
      by (intro stored) (auto simp: frame split: if_splits option.splits)
  qed
qed

lemma cc_import_entries_rows:
  assumes "cc_import_entries p e ctx u ps acct recorded ms st = Some (ms', st')"
  shows "\<exists>rows. map drop_holder (transactions (im_db st')) = map drop_holder (transactions (im_db st) @ rows) \<and>
    im_new st' = im_new st @ map t_id rows \<and> list_all (\<lambda>row. list_ex (\<lambda>m. cc_new_row p e u ps m row) ms) rows \<and>
    (db_ok (im_db st) \<longrightarrow> db_ok (im_db st'))"
  using assms
proof (induction ms arbitrary: st ms')
  case Nil
  then show ?case by (auto intro: exI[of _ "[]"])
next
  case (Cons m ms)
  obtain m1 st1 ms1 where s: "cc_import_entry p e ctx u ps acct recorded m st = Some (m1, st1)"
    "cc_import_entries p e ctx u ps acct recorded ms st1 = Some (ms1, st')"
    using Cons.prems by (auto split: option.splits prod.splits)
  obtain rows where rows: "map drop_holder (transactions (im_db st')) = map drop_holder (transactions (im_db st1) @ rows)"
    "im_new st' = im_new st1 @ map t_id rows" "list_all (\<lambda>row. list_ex (\<lambda>m. cc_new_row p e u ps m row) ms) rows"
    "db_ok (im_db st1) \<longrightarrow> db_ok (im_db st')" using Cons.IH[OF s(2)] by blast
  have more: "list_all (\<lambda>row. list_ex (\<lambda>m. cc_new_row p e u ps m row) (m # ms)) rows"
    using rows(3) by (auto simp: list_all_iff)
  from s(1) show ?case
  proof (cases rule: cc_import_entry_cases)
    case stored
    have "db_ok (im_db st1) = db_ok (im_db st)" by (rule db_ok_same_keys[OF drop_holder_keys[OF stored(1)]])
    then show ?thesis using rows stored more by (intro exI[of _ rows]) simp
  next
    case (created row d)
    have "map drop_holder (transactions (im_db st1)) = map drop_holder (transactions d)"
      unfolding created(6) by (rule map_drop_holder[OF rule_drop_category])
    then have one: "map drop_holder (transactions (im_db st1)) = map drop_holder (transactions (im_db st) @ [row])"
      unfolding created(3) .
    have "t_id row \<notin> t_id ` set (transactions (im_db st))"
      using next_id_fresh[of "map t_id (transactions (im_db st))"] created(2) by simp
    then have "db_ok (im_db st) \<longrightarrow> db_ok d" using created(3,4) by (simp add: db_ok_def)
    moreover have "db_ok (im_db st1) = db_ok d"
      unfolding created(6) by (rule db_ok_drop_category[OF rule_drop_category])
    ultimately show ?thesis using rows one more created(1,5) by (intro exI[of _ "row # rows"]) simp
  qed
qed


section \<open>Samples\<close>

definition card_line :: cc_line where
  "card_line =
     \<lparr>cl_date = ''d'', cl_amount = ''100'', cl_narration = ''SWIGGY'', cl_card_number = None, cl_person = None,
      cl_credit_reasons = None\<rparr>"

definition card_statement :: "cc_line list \<Rightarrow> parsed_cc" where
  "card_statement ls =
     \<lparr>pc_bank = ''hdfc'', pc_card_number = None, pc_name = None, pc_due_date = None, pc_total_amount_due = None,
      pc_transactions = ls, pc_payments_refunds = []\<rparr>"

definition card_alerts :: db where
  "card_alerts = empty_db\<lparr>transactions := [blank_txn\<lparr>t_id := 4, t_account_id := Some 1, t_transaction_date := Some 10,
     t_counterparty := Some ''SWIGGY''\<rparr>, blank_txn\<lparr>t_id := 5, t_account_id := Some 1, t_transaction_date := Some 10,
     t_currency := Some ''USD'', t_amount := 3, t_counterparty := Some ''NETFLIX''\<rparr>], accounts := [blank_account]\<rparr>"

definition two_lines :: parsed_cc where
  "two_lines = card_statement [card_line, card_line\<lparr>cl_amount := ''250'', cl_narration := ''NETFLIX''\<rparr>, card_line\<lparr>cl_amount := ''70''\<rparr>]"

definition two_lines_recon :: cc_recon where
  "two_lines_recon = reconcile_statement py_lower sample_dates two_lines (transactions card_alerts) []"

lemma two_lines_value:
  "case two_lines_recon of r \<Rightarrow>
     map (\<lambda>m. (t_id (cm_txn m), cm_foreign m)) (cn_matched r) = [(4, False), (5, True)] \<and>
     map (\<lambda>m. cr_idx (cx_row m)) (cn_missing r) = [2]"
  by code_simp

lemma card_alerts_distinct: "distinct (map t_id (transactions card_alerts))"
  by (simp add: card_alerts_def)

theorem cc_matches_sound_witness:
  "distinct (map (\<lambda>m. t_id (cm_txn m)) (cn_matched two_lines_recon)) \<and>
   list_all (cc_match_ok sample_dates two_lines (transactions card_alerts) []) (cn_matched two_lines_recon) \<and>
   length (cn_matched two_lines_recon) = 2"
proof -
  have "length (map (\<lambda>m. (t_id (cm_txn m), cm_foreign m)) (cn_matched two_lines_recon)) = 2"
    using two_lines_value by simp
  then show ?thesis
    using cc_matches_sound[OF card_alerts_distinct, of py_lower sample_dates two_lines "[]"]
    unfolding two_lines_recon_def by simp
qed

theorem cc_every_line_once_witness:
  "mset (map (\<lambda>m. cr_idx (cm_row m)) (cn_matched two_lines_recon)) + {#2#} = mset [0..<length (statement_rows two_lines)]"
proof -
  have "map (\<lambda>m. cr_idx (cx_row m)) (cn_missing two_lines_recon) = [2]" using two_lines_value by simp
  then show ?thesis
    using cc_every_line_once[OF card_alerts_distinct, of py_lower sample_dates two_lines "[]"]
    unfolding two_lines_recon_def by simp
qed

definition bad_line :: parsed_cc where
  "bad_line = card_statement [card_line\<lparr>cl_amount := ''250''\<rparr>, card_line\<lparr>cl_amount := ''n/a''\<rparr>]"

theorem cc_bad_amount_aborts_witness:
  "import_missing_cc_txns sample_dates sample_env blank_upload bad_line None
    (fst (cc_enrich_matched_transactions sample_env
      (reconcile_statement py_lower sample_dates bad_line (transactions card_alerts) []) card_alerts)) card_alerts = None"
proof -
  have r: "\<lparr>cr_idx = 1, cr_list = ''transactions'', cr_direction = ''debit'', cr_line = card_line\<lparr>cl_amount := ''n/a''\<rparr>\<rparr>
      \<in> set (statement_rows bad_line)"
    by (simp add: statement_rows_def number_rows_def bad_line_def card_statement_def)
  have "parse_cc_amount ''n/a'' = None" by code_simp
  then have "parse_cc_amount (cl_amount (cr_line \<lparr>cr_idx = 1, cr_list = ''transactions'', cr_direction = ''debit'',
      cr_line = card_line\<lparr>cl_amount := ''n/a''\<rparr>\<rparr>)) = None" by simp
  from cc_bad_amount_aborts[OF card_alerts_distinct r this] show ?thesis .
qed

definition two_lines_import :: "(cc_recon \<times> int list \<times> db) option" where
  "two_lines_import =
     import_missing_cc_txns sample_dates sample_env blank_upload two_lines (Some blank_account) two_lines_recon card_alerts"

lemma two_lines_import_value:
  "case two_lines_import of None \<Rightarrow> False | Some (r, new, d) \<Rightarrow> new = [6] \<and> map t_id (transactions d) = [4, 5, 6]"
  by code_simp


end
