(* ===== verification/Statement_Previews.thy ===== *)
theory Statement_Previews
  imports Cc_Import "HOL-Library.Char_ord" "HOL-Library.List_Lexorder"
begin

text \<open>
  \<^verbatim>\<open>services/statement_previews.py\<close>: today's parse of a stored statement, reconciled with the rows of its
  account without a write. What the PDF of an upload gives, the file included, is the argument \<open>pdf\<close>:
  an error or a parsed statement. A reconciliation entry always has a direction. The answer of the API,
  beside the entries and the ids, is left out.
\<close>

section \<open>Stored statements\<close>

datatype statement_kind = Cc | Bank

type_synonym statement_ref = "statement_kind \<times> int"

datatype parsed_document = Card_document parsed_cc | Bank_document parsed_statement

datatype preview_error =
  Summary_has_no_pdf | Pdf_unavailable | Pdf_not_parsed | No_date_range | Invalid_date_range |
  Too_many_references | Reconciler_failed

record stored_statement =
  st_ref :: statement_ref
  st_account_id :: int
  st_parsed :: parsed_document

type_synonym pdf_reader = "statement_ref \<Rightarrow> preview_error + parsed_document"

definition statement_of :: "txn \<Rightarrow> statement_ref option" where
  "statement_of t =
     (if t_email_type t = ''bank_statement'' \<and> t_bank_statement_upload_id t \<noteq> None
      then Some (Bank, the (t_bank_statement_upload_id t))
      else if t_email_type t = ''cc_statement'' \<and> t_statement_upload_id t \<noteq> None
      then Some (Cc, the (t_statement_upload_id t))
      else None)"

text \<open>The account of an upload and the lines its stored parse found.\<close>

definition upload_of :: "statement_ref \<Rightarrow> db \<Rightarrow> (int \<times> nat) option" where
  "upload_of ref d =
     (case ref of
        (Cc, i) \<Rightarrow> map_option (\<lambda>u. (su_account_id u, su_parsed_txn_count u)) (find (\<lambda>u. su_id u = i) (statement_uploads d))
      | (Bank, i) \<Rightarrow> map_option (\<lambda>u. (bu_account_id u, bu_parsed_txn_count u)) (find (\<lambda>u. bu_id u = i) (bank_uploads d)))"

definition is_email_summary :: "statement_ref \<Rightarrow> db \<Rightarrow> bool" where
  "is_email_summary ref d \<longleftrightarrow>
     fst ref = Cc \<and> list_ex (\<lambda>u. su_id u = snd ref \<and> su_source_kind u = ''email_summary'') (statement_uploads d)"

definition parse_stored_statement :: "pdf_reader \<Rightarrow> statement_ref \<Rightarrow> db \<Rightarrow> preview_error + stored_statement option" where
  "parse_stored_statement pdf ref d =
     (case upload_of ref d of
        None \<Rightarrow> Inr None
      | Some (account_id, _) \<Rightarrow>
          if is_email_summary ref d then Inl Summary_has_no_pdf
          else case pdf ref of
            Inl err \<Rightarrow> Inl err
          | Inr parsed \<Rightarrow> Inr (Some \<lparr>st_ref = ref, st_account_id = account_id, st_parsed = parsed\<rparr>))"

section \<open>Entries of a reconciliation\<close>

record line_evidence =
  le_date :: string
  le_amount :: string
  le_direction :: string
  le_reference :: "string option"
  le_matched :: "int option"
  le_ambiguous :: bool
  le_candidates :: "int list"
  le_truncated :: bool

definition bank_entries :: "recon \<Rightarrow> line_evidence list" where
  "bank_entries r =
     map (\<lambda>m. \<lparr>le_date = sl_date (me_line m), le_amount = sl_amount (me_line m), le_direction = sl_direction (me_line m),
               le_reference = sl_reference (me_line m), le_matched = Some (t_id (me_txn m)), le_ambiguous = False,
               le_candidates = ev_candidates (me_evidence m), le_truncated = ev_truncated (me_evidence m)\<rparr>) (rn_matched r) @
     map (\<lambda>m. \<lparr>le_date = sl_date (mi_line m), le_amount = sl_amount (mi_line m), le_direction = sl_direction (mi_line m),
               le_reference = sl_reference (mi_line m), le_matched = None, le_ambiguous = mi_ambiguous m,
               le_candidates = ev_candidates (mi_evidence m), le_truncated = ev_truncated (mi_evidence m)\<rparr>) (rn_missing r)"

definition cc_entries :: "cc_recon \<Rightarrow> line_evidence list" where
  "cc_entries r =
     map (\<lambda>m. let l = cr_line (cm_row m) in
            \<lparr>le_date = cl_date l, le_amount = cl_amount l, le_direction = cr_direction (cm_row m),
             le_reference = None, le_matched = Some (t_id (cm_txn m)), le_ambiguous = False,
             le_candidates = ev_candidates (cm_evidence m), le_truncated = ev_truncated (cm_evidence m)\<rparr>) (cn_matched r) @
     map (\<lambda>m. let l = cr_line (cx_row m) in
            \<lparr>le_date = cl_date l, le_amount = cl_amount l, le_direction = cr_direction (cx_row m),
             le_reference = None, le_matched = None, le_ambiguous = cx_ambiguous m,
             le_candidates = ev_candidates (cx_evidence m), le_truncated = ev_truncated (cx_evidence m)\<rparr>) (cn_missing r)"

definition ROW_LIMIT :: nat where
  "ROW_LIMIT = 100"

text \<open>An entry of the preview is cut to the limits of its texts.\<close>

definition reconciliation_entry :: "line_evidence \<Rightarrow> line_evidence" where
  "reconciliation_entry l =
     l\<lparr>le_date := take 32 (le_date l), le_amount := take 64 (le_amount l), le_direction := take 16 (le_direction l),
       le_reference := map_option (take 256) (le_reference l)\<rparr>"

record preview =
  pv_matched_count :: nat
  pv_missing_count :: nat
  pv_ambiguous_count :: nat
  pv_missing :: "line_evidence list"
  pv_ambiguous :: "line_evidence list"

definition reconciliation_lists :: "line_evidence list \<Rightarrow> preview" where
  "reconciliation_lists es =
     (let missing = filter (\<lambda>l. le_matched l = None \<and> \<not> le_ambiguous l) es;
          ambiguous = filter (\<lambda>l. le_matched l = None \<and> le_ambiguous l) es
      in \<lparr>pv_matched_count = length (filter (\<lambda>l. le_matched l \<noteq> None) es), pv_missing_count = length missing,
          pv_ambiguous_count = length ambiguous,
          pv_missing = map reconciliation_entry (take ROW_LIMIT missing),
          pv_ambiguous = map reconciliation_entry (take ROW_LIMIT ambiguous)\<rparr>)"

section \<open>What a line could be\<close>

record candidate_index =
  ci_identities :: "(string \<times> decimal \<times> date) list"
  ci_uncertain :: "string list"

definition add_identity :: "date_parser \<Rightarrow> string \<times> string \<times> string \<Rightarrow> candidate_index \<Rightarrow> candidate_index" where
  "add_identity p x ix =
     (case x of (direction, amount, day) \<Rightarrow>
        (case (parse_bank_amount amount, parse_bank_date p day) of
           (Some a, Some when) \<Rightarrow> ix\<lparr>ci_identities := (direction, a, when) # ci_identities ix\<rparr>
         | _ \<Rightarrow> ix\<lparr>ci_uncertain := direction # ci_uncertain ix\<rparr>))"

definition statement_candidate_index :: "date_parser \<Rightarrow> (string \<times> string \<times> string) list \<Rightarrow> candidate_index" where
  "statement_candidate_index p xs = fold (add_identity p) xs \<lparr>ci_identities = [], ci_uncertain = []\<rparr>"

definition could_be_statement_candidate :: "txn \<Rightarrow> candidate_index \<Rightarrow> bool" where
  "could_be_statement_candidate t ix \<longleftrightarrow>
     (case t_transaction_date t of
        None \<Rightarrow> True
      | Some day \<Rightarrow>
          t_direction t \<in> set (ci_uncertain ix) \<or>
          list_ex (\<lambda>offset. (t_direction t, t_amount t, day + offset) \<in> set (ci_identities ix)) [-1, 0, 1])"

definition line_identity :: "line_evidence \<Rightarrow> string \<times> string \<times> string" where
  "line_identity l = (le_direction l, le_amount l, le_date l)"

definition entry_identity :: "recon_entry \<Rightarrow> string \<times> string \<times> string" where
  "entry_identity x = (re_direction x, re_amount x, re_date x)"

section \<open>The rows a line can reach\<close>

definition REFERENCE_LIMIT :: nat where
  "REFERENCE_LIMIT = 5000"

definition REFERENCE_CHUNK_SIZE :: nat where
  "REFERENCE_CHUNK_SIZE = 500"

function chunks :: "nat \<Rightarrow> 'a list \<Rightarrow> 'a list list" where
  "chunks n xs = (if n = 0 \<or> xs = [] then [] else take n xs # chunks n (drop n xs))"
  by pat_completeness auto
termination by (relation "measure (\<lambda>(n, xs). length xs)") auto

declare chunks.simps [simp del]

definition statement_references :: "parsed_document \<Rightarrow> bool \<Rightarrow> string list" where
  "statement_references doc as_reparse =
     (case doc of
        Card_document _ \<Rightarrow> []
      | Bank_document ps \<Rightarrow>
          if as_reparse then []
          else sort (remdups (map (\<lambda>l. or_empty (sl_reference l)) (filter (\<lambda>l. truthy (sl_reference l)) (ps_lines ps)))))"

definition reference_rows :: "string list \<Rightarrow> txn list \<Rightarrow> txn list" where
  "reference_rows refs rows =
     concat (map (\<lambda>chunk. filter (\<lambda>t. case t_reference_number t of None \<Rightarrow> False | Some r \<Rightarrow> r \<in> set chunk) rows)
       (chunks REFERENCE_CHUNK_SIZE refs))"

definition candidate_closure :: "date \<times> date \<Rightarrow> string list \<Rightarrow> txn list \<Rightarrow> txn list" where
  "candidate_closure interval refs rows =
     (let near = rows_near (Some interval) rows
      in near @ filter (\<lambda>t. t_id t \<notin> set (map t_id near)) (reference_rows refs rows))"

definition document_range :: "date_parser \<Rightarrow> parsed_document \<Rightarrow> (date \<times> date) option" where
  "document_range p doc =
     (case doc of Card_document ps \<Rightarrow> cc_stmt_date_range p ps | Bank_document ps \<Rightarrow> bank_stmt_date_range p ps)"

definition reconcile_document ::
    "(string \<Rightarrow> string) \<Rightarrow> date_parser \<Rightarrow> parsed_document \<Rightarrow> txn list \<Rightarrow> string list \<Rightarrow> line_evidence list option" where
  "reconcile_document nm p doc rows masks =
     (case doc of
        Card_document ps \<Rightarrow> Some (cc_entries (reconcile_statement nm p ps rows masks))
      | Bank_document ps \<Rightarrow> map_option bank_entries (reconcile_bank_statement p ps rows))"

section \<open>The reconciliation of today's parse\<close>

record stored_reconciliation =
  sc_preview :: preview
  sc_extra_ids :: "int list"
  sc_candidate_ids :: "int list option"
  sc_matched_ids :: "int list"

definition classify_rows :: "date_parser \<Rightarrow> date \<times> date \<Rightarrow> txn list \<Rightarrow> line_evidence list \<Rightarrow> stored_reconciliation" where
  "classify_rows p interval rows es =
     (let matched = List.map_filter le_matched es;
          ix = statement_candidate_index p (map line_identity es)
      in \<lparr>sc_preview = reconciliation_lists es,
          sc_extra_ids = sort (map t_id (filter (\<lambda>t. t_id t \<notin> set matched \<and>
             (case t_transaction_date t of None \<Rightarrow> False | Some day \<Rightarrow> fst interval \<le> day \<and> day \<le> snd interval) \<and>
             \<not> could_be_statement_candidate t ix) rows)),
          sc_candidate_ids = (if list_ex le_truncated es then None else Some (matched @ concat (map le_candidates es))),
          sc_matched_ids = matched\<rparr>)"

definition reconcile_parsed_statement ::
    "(string \<Rightarrow> string) \<Rightarrow> date_parser \<Rightarrow> bool \<Rightarrow> stored_statement \<Rightarrow> db \<Rightarrow> preview_error + stored_reconciliation" where
  "reconcile_parsed_statement nm p as_reparse s d =
     (case document_range p (st_parsed s) of
        None \<Rightarrow> Inl No_date_range
      | Some (lo, hi) \<Rightarrow>
          if hi < lo then Inl Invalid_date_range
          else
            let refs = statement_references (st_parsed s) as_reparse in
            if REFERENCE_LIMIT < length refs then Inl Too_many_references
            else
              let rows = candidate_closure (lo, hi) refs (account_rows (st_account_id s) d) in
              case reconcile_document nm p (st_parsed s) rows (load_account_card_masks d (st_account_id s)) of
                None \<Rightarrow> Inl Reconciler_failed
              | Some es \<Rightarrow> Inr (classify_rows p (lo, hi) rows es))"

definition reconcile_stored_statement ::
    "(string \<Rightarrow> string) \<Rightarrow> date_parser \<Rightarrow> pdf_reader \<Rightarrow> statement_ref \<Rightarrow> db \<Rightarrow>
     preview_error + stored_reconciliation option" where
  "reconcile_stored_statement nm p pdf ref d =
     (case parse_stored_statement pdf ref d of
        Inl err \<Rightarrow> Inl err
      | Inr None \<Rightarrow> Inr None
      | Inr (Some s) \<Rightarrow>
          (case reconcile_parsed_statement nm p False s d of Inl err \<Rightarrow> Inl err | Inr r \<Rightarrow> Inr (Some r)))"

datatype shortfall = No_lines_found | Lines_lost nat nat

definition parse_shortfall :: "statement_ref \<Rightarrow> preview \<Rightarrow> nat \<Rightarrow> db \<Rightarrow> shortfall option" where
  "parse_shortfall ref v dropped d =
     (let expected = (case upload_of ref d of None \<Rightarrow> 0 | Some (_, n) \<Rightarrow> n);
          found = pv_matched_count v + pv_missing_count v + pv_ambiguous_count v
      in if found = 0 then Some No_lines_found
         else if found + dropped < expected then Some (Lines_lost found expected) else None)"

end
