(* ===== verification/Row_References.thy ===== *)
theory Row_References
  imports Receivables Bank_Import
begin

text \<open>
  What happens to the rows that name a transaction when the transaction goes away:
  \<open>move_references\<close> of \<^verbatim>\<open>services/duplicate_merge.py\<close> and \<open>move_transaction_references\<close> of
  \<^verbatim>\<open>services/assistant/message_context.py\<close>. \<open>new\<close> is the row that keeps the data, or \<open>None\<close> for a plain
  delete. The counts of changed rows are left out.
\<close>

section \<open>Telegram\<close>

definition named_rows :: "chained_write \<Rightarrow> int list" where
  "named_rows w =
     (case w of
        Apply_changes i \<Rightarrow> [i]
      | Link_receivable_write i \<Rightarrow> [i]
      | Void_write i \<Rightarrow> [i]
      | Merge_write keep dup \<Rightarrow> [keep, dup]
      | Create_receivable_write charges \<Rightarrow> charges
      | Other_write \<Rightarrow> [])"

definition confirmed_rows :: "confirmation \<Rightarrow> int list" where
  "confirmed_rows c =
     (case c of
        Merchant_rule_confirmation i \<Rightarrow> [i]
      | Change_confirmation i \<Rightarrow> [i]
      | Write_confirmation w \<Rightarrow> named_rows w
      | Changes_confirmation requests candidates \<Rightarrow> requests @ candidates
      | Screenshot_confirmation duplicate_of not_duplicates \<Rightarrow> option_list duplicate_of @ not_duplicates
      | Other_confirmation \<Rightarrow> [])"

definition chain_rows :: "(int option \<times> chained_write list) option \<Rightarrow> int list" where
  "chain_rows chain =
     (case chain of None \<Rightarrow> [] | Some (target, calls) \<Rightarrow> option_list target @ concat (map named_rows calls))"

text \<open>A pending confirmation that does not parse is cleared too.\<close>

definition must_clear :: "int \<Rightarrow> pending \<Rightarrow> bool" where
  "must_clear old p =
     (case p of
        Unparseable_pending \<Rightarrow> True
      | Pending action chain \<Rightarrow> old \<in> set (confirmed_rows action @ chain_rows chain))"

definition clear_pending :: "int \<Rightarrow> conversation \<Rightarrow> conversation" where
  "clear_pending old c =
     (case cv_pending c of None \<Rightarrow> c | Some p \<Rightarrow> if must_clear old p then c\<lparr>cv_pending := None\<rparr> else c)"

text \<open>\<open>UPDATE ... SET transaction_id = new WHERE transaction_id = old\<close>, on the value of the column.\<close>

definition repoint_id :: "int \<Rightarrow> int option \<Rightarrow> int option \<Rightarrow> int option" where
  "repoint_id old new v = (if v = Some old then new else v)"

definition move_transaction_references :: "int \<Rightarrow> int option \<Rightarrow> ledger \<Rightarrow> ledger" where
  "move_transaction_references old new L =
     (let d = lg_db L in
      L\<lparr>lg_db := d\<lparr>
          deliveries := map (\<lambda>r. r\<lparr>od_transaction_id := repoint_id old new (od_transaction_id r)\<rparr>) (deliveries d),
          interactions := update_where (\<lambda>r. ai_status r \<in> {''claimed'', ''processing''})
            (\<lambda>r. r\<lparr>ai_transaction_id := repoint_id old new (ai_transaction_id r)\<rparr>) (interactions d),
          conversations := map (\<lambda>c. (clear_pending old c)\<lparr>cv_transaction_id := repoint_id old new (cv_transaction_id c)\<rparr>)
            (conversations d)\<rparr>,
        contexts := map (\<lambda>c. c\<lparr>mc_transaction_id := repoint_id old new (mc_transaction_id c)\<rparr>) (contexts L)\<rparr>)"

section \<open>Stored reconciliations\<close>

definition names_row :: "int \<Rightarrow> recon_entry \<Rightarrow> bool" where
  "names_row old x \<longleftrightarrow> re_db_txn_id x = Some old \<or> re_imported_txn_id x = Some old"

definition repoint_candidates :: "int \<Rightarrow> int option \<Rightarrow> int list \<Rightarrow> int list" where
  "repoint_candidates old new ids =
     (if old \<in> set ids
      then rev (remdups (rev (List.map_filter (\<lambda>i. if i = old then new else Some i) ids))) else ids)"

definition repoint_entry :: "int \<Rightarrow> int option \<Rightarrow> recon_entry \<Rightarrow> recon_entry" where
  "repoint_entry old new x =
     x\<lparr>re_db_txn_id := repoint_id old new (re_db_txn_id x), re_imported_txn_id := repoint_id old new (re_imported_txn_id x),
       re_candidate_ids := repoint_candidates old new (re_candidate_ids x)\<rparr>"

definition repoint_group :: "int \<Rightarrow> int option \<Rightarrow> recon_entry list \<Rightarrow> recon_entry list" where
  "repoint_group old new xs = map (repoint_entry old new) (filter (\<lambda>x. new \<noteq> None \<or> \<not> names_row old x) xs)"

definition repoint_reconciliation :: "int \<Rightarrow> int option \<Rightarrow> stored_recon \<Rightarrow> stored_recon" where
  "repoint_reconciliation old new r =
     r\<lparr>sr_matched := repoint_group old new (sr_matched r), sr_missing := repoint_group old new (sr_missing r)\<rparr>"

section \<open>Every table\<close>

definition move_referring_rows :: "int \<Rightarrow> int option \<Rightarrow> db \<Rightarrow> db" where
  "move_referring_rows old new d =
     d\<lparr>review_decisions := (case new of None \<Rightarrow> review_decisions d
         | Some keeper \<Rightarrow> update_where (\<lambda>r. rd_transaction_id r = old) (\<lambda>r. r\<lparr>rd_transaction_id := keeper\<rparr>) (review_decisions d)),
       interactions := map (\<lambda>r. r\<lparr>ai_transaction_id := repoint_id old new (ai_transaction_id r)\<rparr>) (interactions d),
       sms_messages := map (\<lambda>r. r\<lparr>sms_transaction_id := repoint_id old new (sms_transaction_id r)\<rparr>) (sms_messages d),
       audit_actions := map (\<lambda>r. r\<lparr>aa_transaction_id := repoint_id old new (aa_transaction_id r),
           aa_target_id := (if new \<noteq> None \<and> aa_target_type r = ''transaction'' \<and> aa_target_id r = old
                            then the new else aa_target_id r)\<rparr>) (audit_actions d)\<rparr>"

definition move_reconciliations :: "int \<Rightarrow> int option \<Rightarrow> db \<Rightarrow> db" where
  "move_reconciliations old new d =
     d\<lparr>statement_uploads := map (\<lambda>u. u\<lparr>su_reconciliation_data :=
           map_option (repoint_reconciliation old new) (su_reconciliation_data u)\<rparr>) (statement_uploads d),
       bank_uploads := map (\<lambda>u. u\<lparr>bu_reconciliation_data :=
           map_option (repoint_reconciliation old new) (bu_reconciliation_data u)\<rparr>) (bank_uploads d)\<rparr>"

definition move_references :: "env \<Rightarrow> int \<Rightarrow> int option \<Rightarrow> ledger \<Rightarrow> ledger" where
  "move_references e old new L =
     (let L1 = L\<lparr>lg_db := supersede_active_decisions e old None (lg_db L)\<rparr>;
          L2 = move_transaction_references old new L1;
          L3 = snd (move_receivable_links (e_now e) old new L2)
      in L3\<lparr>lg_db := move_reconciliations old new (move_referring_rows old new (lg_db L3))\<rparr>)"

end
