(* ===== verification/Duplicate_Merge.thy ===== *)
theory Duplicate_Merge
  imports Statement_Previews Row_References Cc_Payments
begin

text \<open>
  \<^verbatim>\<open>services/duplicate_merge.py\<close>: an explicit merge of a duplicate row into the row that stays. A batch
  applies all of its pairs or none; an override lifts one refusal of a pair and must be backed by today's
  parse of the pair's statement. Refusals and conflicts are the cases of datatypes instead of texts; the
  report leaves out the two readings of the keeper and the counts of moved rows. What other sessions
  commit between the parse and the write lock is the argument \<open>race\<close>.
\<close>

section \<open>Checks\<close>

datatype override = Override_dates | Override_references | Override_currency

datatype reparse_refusal =
  Needs_statement_row | Cannot_check preview_error | Statement_not_found | Not_checked | Pair_changed |
  Fewer_lines shortfall | No_line_for_keeper | Too_many_lines | Leaves_row_unmatched

datatype refusal =
  Not_found_row | Self_merge | In_another_pair | Not_same_account | Direction_differs | Currency_differs |
  Amount_differs | Foreign_needs_statement | No_date | Dates_apart | Balances_differ | References_distinct |
  Counts_as_payment | Both_own_sms | Both_own_email | Statement_references_differ | In_paid_cycle |
  Voided_row | Both_have_attachment | Reparse reparse_refusal

text \<open>\<open>_DATE_WINDOW\<close>, in days.\<close>

definition DATE_WINDOW :: int where
  "DATE_WINDOW = 1"

definition OVERRIDABLE :: "refusal \<Rightarrow> override option" where
  "OVERRIDABLE r =
     (case r of
        Dates_apart \<Rightarrow> Some Override_dates
      | References_distinct \<Rightarrow> Some Override_references
      | Currency_differs \<Rightarrow> Some Override_currency
      | _ \<Rightarrow> None)"

definition normalized_ref :: "string option \<Rightarrow> string" where
  "normalized_ref ref = dropWhile (\<lambda>c. c = CHR ''0'') (py_strip (or_empty ref))"

definition refs_prove_distinct :: "string option \<Rightarrow> string option \<Rightarrow> bool" where
  "refs_prove_distinct x y \<longleftrightarrow>
     (let a = normalized_ref x; b = normalized_ref y in
      a \<noteq> [] \<and> b \<noteq> [] \<and> a \<noteq> b \<and> \<not> shortened_reference_match (Some a) (Some b))"

definition is_cc_payment :: "txn \<Rightarrow> bool" where
  "is_cc_payment t \<longleftrightarrow> t_direction t = ''credit'' \<and> is_cc_payment_received_email (t_email_type t)"

definition from_statement :: "txn \<Rightarrow> bool" where
  "from_statement t \<longleftrightarrow> t_statement_upload_id t \<noteq> None \<or> t_bank_statement_upload_id t \<noteq> None"

definition surviving_reference :: "txn \<Rightarrow> txn \<Rightarrow> string option" where
  "surviving_reference keep dup =
     (let ref = t_reference_number dup in
      if \<not> truthy ref \<or> from_statement keep then t_reference_number keep
      else if from_statement dup \<or>
              length (normalized_ref (t_reference_number keep)) < length (normalized_ref ref)
      then ref else t_reference_number keep)"

definition owns_other :: "txn \<Rightarrow> txn \<Rightarrow> channel \<Rightarrow> bool" where
  "owns_other keep dup ch \<longleftrightarrow> slot_of ch keep \<noteq> None \<and> slot_of ch dup \<noteq> None \<and> slot_of ch keep \<noteq> slot_of ch dup"

definition same_currency :: "txn \<Rightarrow> txn \<Rightarrow> bool" where
  "same_currency keep dup \<longleftrightarrow> normalized_currency (t_currency keep) = normalized_currency (t_currency dup)"

definition days_apart :: "txn \<Rightarrow> txn \<Rightarrow> int option" where
  "days_apart keep dup =
     (case (t_transaction_date keep, t_transaction_date dup) of
        (Some a, Some b) \<Rightarrow> Some \<bar>a - b\<bar> | _ \<Rightarrow> None)"

definition balances_differ :: "txn \<Rightarrow> txn \<Rightarrow> bool" where
  "balances_differ keep dup \<longleftrightarrow>
     quantize_balance (t_balance keep) \<noteq> None \<and> quantize_balance (t_balance dup) \<noteq> None \<and>
     quantize_balance (t_balance keep) \<noteq> quantize_balance (t_balance dup)"

definition pair_refusals :: "txn \<Rightarrow> txn \<Rightarrow> (bool \<times> refusal) list" where
  "pair_refusals keep dup =
     [(t_account_id keep = None \<or> t_account_id keep \<noteq> t_account_id dup, Not_same_account),
      (t_direction keep \<noteq> t_direction dup, Direction_differs),
      (\<not> same_currency keep dup, Currency_differs),
      (same_currency keep dup \<and> t_amount keep \<noteq> t_amount dup, Amount_differs),
      (\<not> same_currency keep dup \<and> \<not> (normalized_currency (t_currency keep) = ''INR'' \<and> statement_of keep \<noteq> None),
       Foreign_needs_statement),
      (days_apart keep dup = None, No_date),
      (case days_apart keep dup of None \<Rightarrow> False | Some n \<Rightarrow> DATE_WINDOW < n, Dates_apart),
      (balances_differ keep dup, Balances_differ),
      (refs_prove_distinct (t_reference_number keep) (t_reference_number dup), References_distinct),
      (is_cc_payment dup \<and> \<not> is_cc_payment keep, Counts_as_payment),
      (owns_other keep dup Sms, Both_own_sms),
      (owns_other keep dup Email, Both_own_email),
      (from_statement keep \<and> from_statement dup \<and> t_reference_number keep \<noteq> None \<and>
       t_reference_number dup \<noteq> None \<and> t_reference_number keep \<noteq> t_reference_number dup,
       Statement_references_differ)]"

text \<open>The refusals that stand and the overrides that lifted the others.\<close>

definition refusal_reasons :: "txn \<Rightarrow> txn \<Rightarrow> override list \<Rightarrow> refusal list \<times> override list" where
  "refusal_reasons keep dup overrides =
     (let failed = map snd (filter fst (pair_refusals keep dup));
          lifted = (\<lambda>r. case OVERRIDABLE r of None \<Rightarrow> False | Some o' \<Rightarrow> o' \<in> set overrides)
      in (filter (\<lambda>r. \<not> lifted r) failed, List.map_filter OVERRIDABLE (filter lifted failed)))"

record merge_request =
  mq_keep :: int
  mq_duplicate :: int
  mq_override :: "override list"

definition pair_checks ::
    "merge_request \<Rightarrow> txn option \<Rightarrow> txn option \<Rightarrow> int list \<Rightarrow> int list \<Rightarrow> refusal list \<times> override list" where
  "pair_checks pair keep dup duplicate_ids keep_ids =
     (case (keep, dup) of
        (Some k, Some t) \<Rightarrow>
          if t_id k = t_id t then ([Self_merge], [])
          else if 1 < count_list duplicate_ids (t_id t) \<or> t_id t \<in> set keep_ids then ([In_another_pair], [])
          else refusal_reasons k t (mq_override pair)
      | _ \<Rightarrow> ([Not_found_row], []))"

section \<open>The merged row\<close>

datatype merge_failure = Paid_cycle | Merge_raised

datatype conflict =
  Other_cycle int | Category_conflict | Note_conflict | Exclude_conflict | Voided_conflict | Cycle_without_total int

text \<open>The card cycle to recompute, or a conflict that says why not.\<close>

definition merge_cycle ::
    "date_parser \<Rightarrow> datetime \<Rightarrow> txn \<Rightarrow> txn \<Rightarrow> db \<Rightarrow> merge_failure + statement_upload option \<times> conflict list" where
  "merge_cycle p now keep dup d =
     (if \<not> is_cc_payment dup then Inr (None, [])
      else case (t_account_id keep, t_transaction_date dup) of
        (Some account_id, Some day) \<Rightarrow>
          (case latest_active_cycle account_id True d of
             None \<Rightarrow> Inr (None, [])
           | Some u \<Rightarrow>
               (case cc_cycle_window p now u d of
                  Inl _ \<Rightarrow> Inl Merge_raised
                | Inr w \<Rightarrow>
                    if day < w_start w \<or> (case w_end w of None \<Rightarrow> False | Some end_day \<Rightarrow> end_day \<le> day)
                    then Inr (None, [Other_cycle (su_id u)])
                    else if su_payment_status u = Some ''paid'' then Inl Paid_cycle
                    else Inr (Some u, [])))
      | _ \<Rightarrow> Inl Merge_raised)"

definition fill :: "'a option \<Rightarrow> 'a option \<Rightarrow> 'a option" where
  "fill own other = (case own of None \<Rightarrow> other | Some x \<Rightarrow> Some x)"

definition with_links :: "txn \<Rightarrow> txn \<Rightarrow> txn" where
  "with_links dup keep =
     keep\<lparr>t_email_id := fill (t_email_id keep) (t_email_id dup),
          t_card_id := fill (t_card_id keep) (t_card_id dup),
          t_statement_upload_id := fill (t_statement_upload_id keep) (t_statement_upload_id dup),
          t_bank_statement_upload_id := fill (t_bank_statement_upload_id keep) (t_bank_statement_upload_id dup),
          t_attachment_path := fill (t_attachment_path keep) (t_attachment_path dup)\<rparr>"

definition with_reference :: "override list \<Rightarrow> txn \<Rightarrow> txn \<Rightarrow> txn" where
  "with_reference applied dup keep =
     (if applied = [] then keep\<lparr>t_reference_number := surviving_reference keep dup\<rparr> else keep)"

text \<open>The columns of the duplicate as the event that enriches the keeper. With an override the reference
  is the keeper's own.\<close>

definition merge_data :: "override list \<Rightarrow> txn \<Rightarrow> txn \<Rightarrow> txn_data" where
  "merge_data applied keep dup =
     \<lparr>d_bank = t_bank dup, d_email_type = t_email_type dup, d_direction = t_direction dup, d_amount = t_amount dup,
      d_currency = t_currency dup, d_transaction_date = t_transaction_date dup,
      d_transaction_time = t_transaction_time dup, d_counterparty = t_counterparty dup,
      d_card_mask = t_card_mask dup, d_card_holder = t_card_holder dup, d_account_mask = t_account_mask dup,
      d_reference_number = (if applied = [] then t_reference_number dup else t_reference_number keep),
      d_channel = (if t_channel dup = Some ''bank_statement'' then None else t_channel dup),
      d_balance = t_balance dup, d_raw_description = t_raw_description dup,
      d_time_is_received_time = t_time_is_received_time dup, d_identifies_by = t_identifies_by dup,
      d_counterparty_source = Some (t_counterparty_source dup)\<rparr>"

text \<open>\<open>dict.fromkeys\<close> keeps the first of equal parts.\<close>

definition first_of_each :: "'a list \<Rightarrow> 'a list" where
  "first_of_each xs = rev (remdups (rev xs))"

fun join_plus :: "string list \<Rightarrow> string" where
  "join_plus [] = []"
| "join_plus [s] = s"
| "join_plus (s # ss) = s @ ''+'' @ join_plus ss"

text \<open>\<open>keep\<close> has its links.\<close>

definition merge_source :: "txn \<Rightarrow> txn \<Rightarrow> string option" where
  "merge_source keep dup =
     (let parts = concat (map (\<lambda>s. if truthy s then split_on CHR ''+'' (or_empty s) else []) [t_source keep, t_source dup]) @
            (if t_email_id keep \<noteq> None then [''email''] else []);
          links = (if t_bank_statement_upload_id keep \<noteq> None then [''bank_statement''] else []) @
            (if t_statement_upload_id keep \<noteq> None then [''cc_statement''] else [])
      in if ''screenshot'' \<in> set parts then Some (join_plus (first_of_each (''screenshot'' # parts @ links)))
         else if set parts = {''sms'', ''email''} then Some ''sms+email''
         else if truthy (t_source keep) then t_source keep else t_source dup)"

definition copy_category :: "txn \<Rightarrow> txn \<Rightarrow> txn" where
  "copy_category dup keep =
     keep\<lparr>t_category := t_category dup, t_category_method := t_category_method dup,
          t_category_confidence := t_category_confidence dup, t_category_model := t_category_model dup,
          t_category_input_hash := t_category_input_hash dup, t_category_vocab_version := t_category_vocab_version dup,
          t_categorized_at := t_categorized_at dup, t_review_status := t_review_status dup,
          t_review_reason := t_review_reason dup\<rparr>"

text \<open>The keeper takes the manual category of the duplicate.\<close>

definition takes_category :: "txn \<Rightarrow> txn \<Rightarrow> bool" where
  "takes_category dup keep \<longleftrightarrow> t_category_method dup = Some ''manual'' \<and> t_category_method keep \<noteq> Some ''manual''"

definition fold_manual_fields :: "txn \<Rightarrow> txn \<Rightarrow> conflict list \<times> txn" where
  "fold_manual_fields dup keep =
     ((if t_category_method dup = Some ''manual'' \<and> t_category_method keep = Some ''manual'' \<and>
          t_category keep \<noteq> t_category dup then [Category_conflict] else []) @
      (if truthy (t_note keep) \<and> truthy (t_note dup) \<and> t_note dup \<noteq> t_note keep then [Note_conflict] else []) @
      (if t_exclude_from_cashflow keep \<noteq> t_exclude_from_cashflow dup then [Exclude_conflict] else []) @
      (if t_voided keep \<noteq> t_voided dup then [Voided_conflict] else []),
      let keep' = (if takes_category dup keep then copy_category dup keep else keep)
      in keep'\<lparr>t_note := (if truthy (t_note keep) then t_note keep else t_note dup)\<rparr>)"

section \<open>Merging a pair\<close>

record payment_change =
  pg_upload :: int
  pg_paid_before :: "decimal option"
  pg_paid_after :: "decimal option"
  pg_status_before :: "string option"
  pg_status_after :: "string option"

record merge_report =
  mr_keep :: int
  mr_duplicate :: int
  mr_conflicts :: "conflict list"
  mr_cc_state :: "payment_change option"
  mr_overrides :: "override list"

definition on_db :: "(db \<Rightarrow> db) \<Rightarrow> ledger \<Rightarrow> ledger" where
  "on_db f L = L\<lparr>lg_db := f (lg_db L)\<rparr>"

definition delete_row :: "int \<Rightarrow> db \<Rightarrow> db" where
  "delete_row i d = d\<lparr>transactions := filter (\<lambda>t. t_id t \<noteq> i) (transactions d)\<rparr>"

text \<open>The fold of the duplicate into the keeper, after the duplicate is gone.\<close>

definition fold_row :: "env \<Rightarrow> txn \<Rightarrow> txn \<Rightarrow> override list \<Rightarrow> db \<Rightarrow> merge_failure + conflict list \<times> db" where
  "fold_row e keep dup applied d =
     (let k1 = with_links dup (with_reference applied dup keep);
          (conflicts, k2) = fold_manual_fields dup k1
      in case flush (write_txn (t_id keep) (\<lambda>_. k2) d) of
           Inl _ \<Rightarrow> Inl Merge_raised
         | Inr d1 \<Rightarrow>
             let d2 = (if takes_category dup k1 then supersede_active_decisions e (t_id keep) None d1 else d1)
             in case apply_transaction_enrichment e k2 (merge_data applied k1 dup) Sms (t_sms_message_id dup) None Standard d2 of
                  Inl _ \<Rightarrow> Inl Merge_raised
                | Inr (_, d3) \<Rightarrow>
                    Inr (conflicts, write_txn (t_id keep) (\<lambda>t. t\<lparr>t_source := merge_source k1 dup\<rparr>) d3))"

text \<open>The recomputation of the cycle: a conflict, or the change of its payment state.\<close>

definition recompute_cycle ::
    "date_parser \<Rightarrow> datetime \<Rightarrow> statement_upload option \<Rightarrow> db \<Rightarrow>
     merge_failure + conflict list \<times> payment_change option \<times> db" where
  "recompute_cycle p now cycle d =
     (case cycle of
        None \<Rightarrow> Inr ([], None, d)
      | Some before \<Rightarrow>
          (case find (\<lambda>u. su_id u = su_id before) (statement_uploads d) of
             None \<Rightarrow> Inl Merge_raised
           | Some u \<Rightarrow>
               (case resync_tracked_cc_payment_state p now u d of
                  Inl _ \<Rightarrow> Inl Merge_raised
                | Inr (False, d') \<Rightarrow> Inr ([Cycle_without_total (su_id u)], None, d')
                | Inr (True, d') \<Rightarrow>
                    let u' = the (find (\<lambda>v. su_id v = su_id before) (statement_uploads d'))
                    in Inr ([], Some \<lparr>pg_upload = su_id u, pg_paid_before = su_payment_paid_amount before,
                         pg_paid_after = su_payment_paid_amount u', pg_status_before = su_payment_status before,
                         pg_status_after = su_payment_status u'\<rparr>, d'))))"

definition audit_override :: "override list \<Rightarrow> int \<Rightarrow> int \<Rightarrow> db \<Rightarrow> db" where
  "audit_override applied keep_id duplicate_id d =
     (if applied = [] then d
      else d\<lparr>audit_actions := audit_actions d @
        [\<lparr>aa_id = next_id (map aa_id (audit_actions d)), aa_transaction_id = Some keep_id,
          aa_action_type = ''merge_transaction'', aa_target_type = ''transaction'', aa_target_id = duplicate_id\<rparr>]\<rparr>)"

definition merge_pair ::
    "date_parser \<Rightarrow> env \<Rightarrow> txn \<Rightarrow> txn \<Rightarrow> override list \<Rightarrow> ledger \<Rightarrow> merge_failure + merge_report \<times> ledger" where
  "merge_pair p e keep dup applied L =
     (case merge_cycle p (e_now e) keep dup (lg_db L) of
        Inl f \<Rightarrow> Inl f
      | Inr (cycle, cycle_conflicts) \<Rightarrow>
          let L1 = on_db (delete_row (t_id dup)) (move_references e (t_id dup) (Some (t_id keep)) L)
          in case fold_row e keep dup applied (lg_db L1) of
               Inl f \<Rightarrow> Inl f
             | Inr (conflicts, d2) \<Rightarrow>
                 (case recompute_cycle p (e_now e) cycle d2 of
                    Inl f \<Rightarrow> Inl f
                  | Inr (state_conflicts, state, d3) \<Rightarrow>
                      Inr (\<lparr>mr_keep = t_id keep, mr_duplicate = t_id dup,
                            mr_conflicts = cycle_conflicts @ conflicts @ state_conflicts, mr_cc_state = state,
                            mr_overrides = applied\<rparr>,
                           on_db (\<lambda>_. audit_override applied (t_id keep) (t_id dup) d3) L1)))"

text \<open>The merge of one pair with no override, in the transaction of the caller.\<close>

definition merge_pair_no_commit ::
    "date_parser \<Rightarrow> env \<Rightarrow> int \<Rightarrow> int \<Rightarrow> ledger \<Rightarrow> (refusal list + merge_report \<times> ledger) option" where
  "merge_pair_no_commit p e keep_id duplicate_id L =
     (let keep = get_txn keep_id (lg_db L); dup = get_txn duplicate_id (lg_db L);
          reasons = fst (pair_checks \<lparr>mq_keep = keep_id, mq_duplicate = duplicate_id, mq_override = []\<rparr>
            keep dup [duplicate_id] [keep_id])
      in case (keep, dup) of
           (Some k, Some t) \<Rightarrow>
             if reasons \<noteq> [] then Some (Inl reasons)
             else if t_voided k = Some True \<or> t_voided t = Some True then Some (Inl [Voided_row])
             else if truthy (t_attachment_path k) \<and> truthy (t_attachment_path t) then Some (Inl [Both_have_attachment])
             else (case merge_pair p e k t [] L of
                     Inl Paid_cycle \<Rightarrow> Some (Inl [In_paid_cycle])
                   | Inl Merge_raised \<Rightarrow> None
                   | Inr r \<Rightarrow> Some (Inr r))
         | _ \<Rightarrow> Some (Inl reasons))"

section \<open>Merging a batch\<close>

definition checked_statement :: "txn \<Rightarrow> txn \<Rightarrow> statement_ref option" where
  "checked_statement keep dup =
     (if statement_of dup \<noteq> None \<or> from_statement dup then statement_of dup else statement_of keep)"

type_synonym parse_outcome = "reparse_refusal + stored_statement"

definition parse_pair :: "pdf_reader \<Rightarrow> merge_request \<Rightarrow> db \<Rightarrow> parse_outcome option" where
  "parse_pair pdf pair d =
     (if mq_override pair = [] then None
      else case (get_txn (mq_keep pair) d, get_txn (mq_duplicate pair) d) of
        (Some keep, Some dup) \<Rightarrow>
          Some (case checked_statement keep dup of
            None \<Rightarrow> Inl Needs_statement_row
          | Some ref \<Rightarrow>
              (case parse_stored_statement pdf ref d of
                 Inl err \<Rightarrow> Inl (Cannot_check err)
               | Inr None \<Rightarrow> Inl Statement_not_found
               | Inr (Some s) \<Rightarrow> Inr s))
      | _ \<Rightarrow> None)"

text \<open>By duplicate id; a later pair replaces the outcome of an earlier one.\<close>

definition parse_statements :: "pdf_reader \<Rightarrow> merge_request list \<Rightarrow> db \<Rightarrow> (int \<times> parse_outcome) list" where
  "parse_statements pdf pairs d =
     rev (List.map_filter (\<lambda>pair. map_option (Pair (mq_duplicate pair)) (parse_pair pdf pair d)) pairs)"

text \<open>Why a reparse of the pair's statement would import a row again. \<open>dup\<close> is the deleted row as it was.\<close>

definition find_reparse_refusal ::
    "(string \<Rightarrow> string) \<Rightarrow> date_parser \<Rightarrow> txn \<Rightarrow> txn \<Rightarrow> parse_outcome \<Rightarrow> db \<Rightarrow> reparse_refusal option" where
  "find_reparse_refusal nm p keep dup stored d =
     (case stored of
        Inl err \<Rightarrow> Some err
      | Inr s \<Rightarrow>
          if checked_statement keep dup \<noteq> Some (st_ref s) then Some Pair_changed
          else case reconcile_parsed_statement nm p True s d of
            Inl err \<Rightarrow> Some (Cannot_check err)
          | Inr r \<Rightarrow>
              let v = sc_preview r; unresolved = pv_missing v @ pv_ambiguous v;
                  ix = statement_candidate_index p (map line_identity unresolved);
                  refs = filter (\<lambda>x. x \<noteq> []) (map normalized_ref [t_reference_number keep, t_reference_number dup])
              in case parse_shortfall (st_ref s) v 0 d of
                   Some short \<Rightarrow> Some (Fewer_lines short)
                 | None \<Rightarrow>
                     if t_id keep \<notin> set (sc_matched_ids r) then Some No_line_for_keeper
                     else if ROW_LIMIT < pv_missing_count v \<or> ROW_LIMIT < pv_ambiguous_count v then Some Too_many_lines
                     else if unresolved \<noteq> [] \<and>
                             (could_be_statement_candidate keep ix \<or> could_be_statement_candidate dup ix \<or>
                              list_ex (\<lambda>l. normalized_ref (le_reference l) \<in> set refs) unresolved)
                     then Some Leaves_row_unmatched
                     else None)"

record proof_due =
  pd_keep :: int
  pd_duplicate :: txn
  pd_parse :: parse_outcome

record batch_state =
  bs_reports :: "merge_report list"
  bs_refusals :: "(int \<times> int \<times> refusal list) list"
  bs_proofs :: "proof_due list"
  bs_ledger :: ledger

definition refuse :: "merge_request \<Rightarrow> refusal list \<Rightarrow> batch_state \<Rightarrow> batch_state" where
  "refuse pair reasons st =
     st\<lparr>bs_refusals := bs_refusals st @ [(mq_keep pair, mq_duplicate pair, reasons)]\<rparr>"

definition parse_outcome_of :: "(int \<times> parse_outcome) list \<Rightarrow> int \<Rightarrow> parse_outcome" where
  "parse_outcome_of parses i = (case map_of parses i of None \<Rightarrow> Inl Not_checked | Some x \<Rightarrow> x)"

definition merge_request_step ::
    "date_parser \<Rightarrow> env \<Rightarrow> (int \<times> parse_outcome) list \<Rightarrow> int list \<Rightarrow> int list \<Rightarrow> merge_request \<Rightarrow>
     batch_state \<Rightarrow> batch_state option" where
  "merge_request_step p e parses duplicate_ids keep_ids pair st =
     (let d = lg_db (bs_ledger st); keep = get_txn (mq_keep pair) d; dup = get_txn (mq_duplicate pair) d;
          (reasons, applied) = pair_checks pair keep dup duplicate_ids keep_ids
      in if reasons \<noteq> [] then Some (refuse pair reasons st)
         else case (keep, dup) of
           (Some k, Some t) \<Rightarrow>
             (case merge_pair p e k t applied (bs_ledger st) of
                Inl Paid_cycle \<Rightarrow> Some (refuse pair [In_paid_cycle] st)
              | Inl Merge_raised \<Rightarrow> None
              | Inr (report, L') \<Rightarrow>
                  Some (st\<lparr>bs_reports := bs_reports st @ [report],
                           bs_proofs := bs_proofs st @ (if applied = [] then []
                             else [\<lparr>pd_keep = t_id k, pd_duplicate = t, pd_parse = parse_outcome_of parses (t_id t)\<rparr>]),
                           bs_ledger := L'\<rparr>))
         | _ \<Rightarrow> None)"

fun merge_requests ::
    "date_parser \<Rightarrow> env \<Rightarrow> (int \<times> parse_outcome) list \<Rightarrow> int list \<Rightarrow> int list \<Rightarrow> merge_request list \<Rightarrow>
     batch_state \<Rightarrow> batch_state option" where
  "merge_requests p e parses duplicate_ids keep_ids [] st = Some st"
| "merge_requests p e parses duplicate_ids keep_ids (pair # pairs) st =
     (case merge_request_step p e parses duplicate_ids keep_ids pair st of
        None \<Rightarrow> None
      | Some st' \<Rightarrow> merge_requests p e parses duplicate_ids keep_ids pairs st')"

definition failed_proofs :: "(string \<Rightarrow> string) \<Rightarrow> date_parser \<Rightarrow> batch_state \<Rightarrow> (int \<times> int \<times> refusal list) list" where
  "failed_proofs nm p st =
     List.map_filter (\<lambda>x.
       let d = lg_db (bs_ledger st) in
       case get_txn (pd_keep x) d of
         None \<Rightarrow> Some (pd_keep x, t_id (pd_duplicate x), [Reparse Pair_changed])
       | Some keep \<Rightarrow>
           map_option (\<lambda>r. (pd_keep x, t_id (pd_duplicate x), [Reparse r]))
             (find_reparse_refusal nm p keep (pd_duplicate x) (pd_parse x) d)) (bs_proofs st)"

datatype batch_answer =
  Batch_raised | Batch_refused "(int \<times> int \<times> refusal list) list" | Batch_merged bool "merge_report list"

definition merge_duplicates ::
    "(string \<Rightarrow> string) \<Rightarrow> date_parser \<Rightarrow> env \<Rightarrow> pdf_reader \<Rightarrow> (ledger \<Rightarrow> ledger) \<Rightarrow> merge_request list \<Rightarrow> bool \<Rightarrow>
     ledger \<Rightarrow> batch_answer \<times> ledger" where
  "merge_duplicates nm p e pdf race pairs dry_run L =
     (let parses = parse_statements pdf pairs (lg_db L); L0 = race L in
      case merge_requests p e parses (map mq_duplicate pairs) (map mq_keep pairs) pairs
             \<lparr>bs_reports = [], bs_refusals = [], bs_proofs = [], bs_ledger = L0\<rparr> of
        None \<Rightarrow> (Batch_raised, L0)
      | Some st \<Rightarrow>
          let refusals = bs_refusals st @ failed_proofs nm p st
          in if refusals \<noteq> [] then (Batch_refused refusals, L0)
             else if dry_run then (Batch_merged True (bs_reports st), L0)
             else (Batch_merged False (bs_reports st), bs_ledger st))"

end
