(* ===== verification/Phantom_Delete.thy ===== *)
theory Phantom_Delete
  imports Duplicate_Merge
begin

text \<open>
  \<^verbatim>\<open>services/phantom_delete.py\<close>: the guarded delete of a statement row that today's parse of its statement
  no longer holds. The statements are parsed before the write lock; what other sessions commit in
  between is the argument \<open>race\<close>.
\<close>

datatype check_error = Preview_error preview_error | Missing_statement | Short_parse shortfall | Too_many_candidates | Unchecked

datatype phantom_refusal =
  Row_gone | Not_an_import | Row_changed | Owns_source | Has_attachment_or_note |
  Named_by statement_ref | Check_failed check_error | Still_held

text \<open>What today's parse of one statement proves: the rows it no longer holds, or an error.\<close>

type_synonym statement_check = "check_error + int list"

definition unheld_by ::
    "(string \<Rightarrow> string) \<Rightarrow> date_parser \<Rightarrow> pdf_reader \<Rightarrow> statement_ref \<Rightarrow> nat \<Rightarrow> db \<Rightarrow> statement_check" where
  "unheld_by nm p pdf ref requested d =
     (case reconcile_stored_statement nm p pdf ref d of
        Inl err \<Rightarrow> Inl (Preview_error err)
      | Inr None \<Rightarrow> Inl Missing_statement
      | Inr (Some r) \<Rightarrow>
          (case parse_shortfall ref (sc_preview r) requested d of
             Some short \<Rightarrow> Inl (Short_parse short)
           | None \<Rightarrow>
               (case sc_candidate_ids r of
                  None \<Rightarrow> Inl Too_many_candidates
                | Some candidates \<Rightarrow> Inr (filter (\<lambda>i. i \<notin> set candidates) (sc_extra_ids r)))))"

record phantom_checks =
  pc_statements :: "(statement_ref \<times> statement_check) list"
  pc_rows :: "txn list"

definition check_statements ::
    "(string \<Rightarrow> string) \<Rightarrow> date_parser \<Rightarrow> pdf_reader \<Rightarrow> int list \<Rightarrow> db \<Rightarrow> phantom_checks" where
  "check_statements nm p pdf ids d =
     (let rows = filter (\<lambda>t. t_id t \<in> set ids) (transactions d);
          refs = List.map_filter statement_of rows
      in \<lparr>pc_statements = map (\<lambda>ref. (ref, unheld_by nm p pdf ref (count_list refs ref) d)) (remdups refs),
          pc_rows = rows\<rparr>)"

text \<open>A stored entry could claim the row; a truncated candidate list could name any row.\<close>

definition entry_names :: "recon_entry \<Rightarrow> int \<Rightarrow> bool" where
  "entry_names x i \<longleftrightarrow>
     re_candidate_ids_truncated x \<or> re_db_txn_id x = Some i \<or> re_imported_txn_id x = Some i \<or> i \<in> set (re_candidate_ids x)"

definition could_claim :: "date_parser \<Rightarrow> stored_recon \<Rightarrow> txn \<Rightarrow> bool" where
  "could_claim p r t \<longleftrightarrow>
     (let unresolved = filter (\<lambda>x. \<not> re_imported x) (sr_missing r) in
      list_ex (\<lambda>x. entry_names x (t_id t)) (sr_matched r @ sr_missing r) \<or>
      unresolved \<noteq> [] \<and>
        could_be_statement_candidate t (statement_candidate_index p (map entry_identity unresolved)))"

definition stored_recons :: "int option \<Rightarrow> db \<Rightarrow> (statement_ref \<times> stored_recon) list" where
  "stored_recons account_id d =
     List.map_filter (\<lambda>u. if Some (bu_account_id u) = account_id
         then map_option (Pair (Bank, bu_id u)) (bu_reconciliation_data u) else None) (bank_uploads d) @
     List.map_filter (\<lambda>u. if Some (su_account_id u) = account_id
         then map_option (Pair (Cc, su_id u)) (su_reconciliation_data u) else None) (statement_uploads d)"

definition named_elsewhere :: "date_parser \<Rightarrow> txn \<Rightarrow> statement_ref \<Rightarrow> db \<Rightarrow> statement_ref list" where
  "named_elsewhere p t own d =
     map fst (filter (\<lambda>(ref, r). ref \<noteq> own \<and> could_claim p r t) (stored_recons (t_account_id t) d))"

definition phantom_reasons :: "date_parser \<Rightarrow> txn \<Rightarrow> phantom_checks \<Rightarrow> db \<Rightarrow> phantom_refusal list" where
  "phantom_reasons p t checks d =
     (case statement_of t of
        None \<Rightarrow> [Not_an_import]
      | Some ref \<Rightarrow>
          if find (\<lambda>r. t_id r = t_id t) (pc_rows checks) \<noteq> Some t then [Row_changed]
          else
            (if t_sms_message_id t \<noteq> None \<or> t_email_id t \<noteq> None \<or>
                list_ex (\<lambda>m. sms_transaction_id m = Some (t_id t)) (sms_messages d) then [Owns_source] else []) @
            (if truthy (t_attachment_path t) \<or> truthy (t_note t) then [Has_attachment_or_note] else []) @
            map Named_by (named_elsewhere p t ref d) @
            (case (case map_of (pc_statements checks) ref of None \<Rightarrow> Inl Unchecked | Some c \<Rightarrow> c) of
               Inl err \<Rightarrow> [Check_failed err]
             | Inr unheld \<Rightarrow> if t_id t \<in> set unheld then [] else [Still_held]))"

definition audit_delete :: "int \<Rightarrow> db \<Rightarrow> db" where
  "audit_delete i d =
     d\<lparr>audit_actions := audit_actions d @
       [\<lparr>aa_id = next_id (map aa_id (audit_actions d)), aa_transaction_id = None,
         aa_action_type = ''delete_transaction'', aa_target_type = ''transaction'', aa_target_id = i\<rparr>]\<rparr>"

definition delete_phantom :: "env \<Rightarrow> txn \<Rightarrow> ledger \<Rightarrow> ledger" where
  "delete_phantom e t L =
     on_db (\<lambda>d. delete_row (t_id t) (audit_delete (t_id t) d)) (move_references e (t_id t) None L)"

record phantom_state =
  ph_deleted :: "txn list"
  ph_refusals :: "(int \<times> phantom_refusal list) list"
  ph_ledger :: ledger

definition phantom_step :: "date_parser \<Rightarrow> env \<Rightarrow> phantom_checks \<Rightarrow> int \<Rightarrow> phantom_state \<Rightarrow> phantom_state" where
  "phantom_step p e checks i st =
     (case get_txn i (lg_db (ph_ledger st)) of
        None \<Rightarrow> st\<lparr>ph_refusals := ph_refusals st @ [(i, [Row_gone])]\<rparr>
      | Some t \<Rightarrow>
          let reasons = phantom_reasons p t checks (lg_db (ph_ledger st))
          in if reasons \<noteq> [] then st\<lparr>ph_refusals := ph_refusals st @ [(i, reasons)]\<rparr>
             else st\<lparr>ph_deleted := ph_deleted st @ [t], ph_ledger := delete_phantom e t (ph_ledger st)\<rparr>)"

datatype phantom_answer = Phantoms_refused "(int \<times> phantom_refusal list) list" | Phantoms_deleted bool "txn list"

definition delete_phantoms ::
    "(string \<Rightarrow> string) \<Rightarrow> date_parser \<Rightarrow> env \<Rightarrow> pdf_reader \<Rightarrow> (ledger \<Rightarrow> ledger) \<Rightarrow> int list \<Rightarrow> bool \<Rightarrow>
     ledger \<Rightarrow> phantom_answer \<times> ledger" where
  "delete_phantoms nm p e pdf race ids dry_run L =
     (let checks = check_statements nm p pdf ids (lg_db L); L0 = race L;
          st = fold (phantom_step p e checks) ids \<lparr>ph_deleted = [], ph_refusals = [], ph_ledger = L0\<rparr>
      in if ph_refusals st \<noteq> [] then (Phantoms_refused (ph_refusals st), L0)
         else (Phantoms_deleted dry_run (ph_deleted st), if dry_run then L0 else ph_ledger st))"

end
