(* ===== verification/Duplicate_Facts.thy ===== *)
theory Duplicate_Facts
  imports Phantom_Delete Merge_Facts Ledger_Facts
begin

text \<open>
  What the merge of duplicates and the delete of phantoms guarantee: nothing names a row that is gone, the
  other rows keep their money, the constraints of the tables hold, and what goes away passed its checks.
  The ids that the tables name are collected in one list; every operation is then a lemma about that list.
\<close>

section \<open>What names a row\<close>

definition pending_rows :: "conversation \<Rightarrow> int list" where
  "pending_rows c =
     (case cv_pending c of
        Some (Pending action chain) \<Rightarrow> confirmed_rows action @ chain_rows chain
      | _ \<Rightarrow> [])"

definition entry_rows :: "recon_entry \<Rightarrow> int list" where
  "entry_rows x = option_list (re_db_txn_id x) @ option_list (re_imported_txn_id x) @ re_candidate_ids x"

definition recon_rows :: "stored_recon option \<Rightarrow> int list" where
  "recon_rows r = (case r of None \<Rightarrow> [] | Some s \<Rightarrow> concat (map entry_rows (sr_matched s @ sr_missing s)))"

definition named_ids :: "int option list \<Rightarrow> int list" where
  "named_ids xs = List.map_filter (\<lambda>x. x) xs"

definition db_mentions :: "db \<Rightarrow> int list" where
  "db_mentions d =
     named_ids (map od_transaction_id (deliveries d) @ map ai_transaction_id (interactions d) @
       map cv_transaction_id (conversations d) @ map sms_transaction_id (sms_messages d) @
       map aa_transaction_id (audit_actions d)) @
     concat (map pending_rows (conversations d)) @
     concat (map recon_rows (map su_reconciliation_data (statement_uploads d) @ map bu_reconciliation_data (bank_uploads d)))"

text \<open>Every live reference; a review decision and the target of an audit record are history.\<close>

definition mentions :: "ledger \<Rightarrow> int list" where
  "mentions L =
     db_mentions (lg_db L) @ named_ids (map mc_transaction_id (contexts L)) @
     map ln_transaction (links L) @ map mp_transaction (prompts L)"

definition history :: "db \<Rightarrow> int list" where
  "history d =
     map rd_transaction_id (review_decisions d) @
     map aa_target_id (filter (\<lambda>a. aa_target_type a = ''transaction'' \<and> aa_action_type a \<noteq> ''merge_transaction'') (audit_actions d))"

lemma in_named_ids: "i \<in> set (named_ids xs) \<longleftrightarrow> Some i \<in> set xs"
  by (auto simp: named_ids_def in_map_filter_iff)

section \<open>Frames\<close>

text \<open>The columns that the follow-ups of a row do not write.\<close>

definition ref_columns :: "db \<Rightarrow> int option list \<times> int option list \<times> conversation list \<times> sms_message list \<times>
    audit_action list \<times> statement_upload list \<times> bank_upload list \<times> int list" where
  "ref_columns d =
     (map od_transaction_id (deliveries d), map ai_transaction_id (interactions d), conversations d, sms_messages d,
      audit_actions d, statement_uploads d, bank_uploads d, map rd_transaction_id (review_decisions d))"

lemma ref_columns_refresh [simp]: "ref_columns (refresh_interaction_delivery_status e i d) = ref_columns d"
  by (simp add: ref_columns_def refresh_interaction_delivery_status_def Let_def map_update_where)

lemma ref_columns_fold_refresh [simp]: "ref_columns (fold (refresh_interaction_delivery_status e) is d) = ref_columns d"
  by (induction "is" arbitrary: d) simp_all

lemma ref_columns_supersede [simp]: "ref_columns (supersede_active_decisions e tid p d) = ref_columns d"
  by (simp add: supersede_active_decisions_def Let_def)
     (simp add: ref_columns_def map_update_where cancel_delivery_def)

lemma ref_columns_transactions [simp]: "ref_columns (d\<lparr>transactions := ts\<rparr>) = ref_columns d"
  by (simp add: ref_columns_def)

lemma ref_columns_write_txn [simp]: "ref_columns (write_txn i f d) = ref_columns d"
  by (simp add: write_txn_def)

lemma ref_columns_mark_leg [simp]: "ref_columns (mark_leg e i d) = ref_columns d"
  by (simp add: mark_leg_def)

lemma ref_columns_fold_mark [simp]: "ref_columns (fold (mark_leg e) is d) = ref_columns d"
  by (induction "is" arbitrary: d) simp_all

lemma ref_columns_followups [simp]: "ref_columns (enrichment_followups e t d) = ref_columns d"
  by (simp add: enrichment_followups_def apply_reference_self_transfer_rule_def requeue_after_enrichment_def Let_def split_def)

lemma ref_columns_enrichment:
  assumes "apply_transaction_enrichment e t data ch sms em kind d = Inr (diff, d')"
  shows "ref_columns d' = ref_columns d"
proof -
  obtain d1 d2 where d: "claim_transaction_source_slot t ch (if ch = Sms then sms else em) d = Inr d1"
    "ref_columns d2 = ref_columns d1" "ref_columns d' = ref_columns d2"
    using assms by (auto simp: apply_transaction_enrichment_def Let_def flush_changes_def flush_def split: sum.splits if_splits)
  have "ref_columns d1 = ref_columns d" using claim_result[OF d(1)] by auto
  then show ?thesis using d(2,3) by simp
qed

lemma db_mentions_columns:
  "ref_columns d' = ref_columns d \<Longrightarrow> db_mentions d' = db_mentions d \<and> history d' = history d"
  by (simp add: ref_columns_def db_mentions_def history_def)

lemma flush_columns: "flush d = Inr d' \<Longrightarrow> ref_columns d' = ref_columns d"
  by (auto dest: flush_ok)

lemma ref_columns_fold_row:
  assumes "fold_row e keep dup applied d = Inr (cs, d')"
  shows "ref_columns d' = ref_columns d"
proof -
  define k1 where "k1 = with_links dup (with_reference applied dup keep)"
  obtain d1 diff d3 where run: "flush (write_txn (t_id keep) (\<lambda>_. snd (fold_manual_fields dup k1)) d) = Inr d1"
    "apply_transaction_enrichment e (snd (fold_manual_fields dup k1)) (merge_data applied k1 dup) Sms (t_sms_message_id dup) None
       Standard (if takes_category dup k1 then supersede_active_decisions e (t_id keep) None d1 else d1) = Inr (diff, d3)"
    "ref_columns d' = ref_columns d3"
    using assms by (auto simp: fold_row_def Let_def k1_def split_def split: sum.splits)
  have "ref_columns d3 = ref_columns d1" using ref_columns_enrichment[OF run(2)] by (simp split: if_splits)
  then show ?thesis using flush_columns[OF run(1)] run(3) by simp
qed

section \<open>Moving the references\<close>

lemma repoint_gone: "new \<noteq> Some old \<Longrightarrow> repoint_id old new v \<noteq> Some old"
  by (simp add: repoint_id_def)

lemma repoint_new: "repoint_id old new v = Some i \<Longrightarrow> v = Some i \<or> new = Some i"
  by (auto simp: repoint_id_def split: if_splits)

lemma named_repoint:
  assumes "new \<noteq> Some old"
  shows "set (named_ids (map (repoint_id old new) xs)) \<subseteq> set (named_ids xs) - {old} \<union> set_option new"
proof
  fix i
  assume "i \<in> set (named_ids (map (repoint_id old new) xs))"
  then obtain v where v: "v \<in> set xs" "repoint_id old new v = Some i" by (auto simp: in_named_ids)
  then have "i \<noteq> old" using repoint_gone[OF assms, of v] by auto
  then show "i \<in> set (named_ids xs) - {old} \<union> set_option new"
    using v repoint_new[OF v(2)] by (auto simp: in_named_ids)
qed

lemma cleared_rows:
  "set (pending_rows ((clear_pending old c)\<lparr>cv_transaction_id := v\<rparr>)) \<subseteq> set (pending_rows c) - {old}"
  by (auto simp: clear_pending_def pending_rows_def must_clear_def split: option.splits pending.splits)

lemma candidates_repoint:
  assumes "new \<noteq> Some old"
  shows "set (repoint_candidates old new ids) \<subseteq> set ids - {old} \<union> set_option new"
  using assms by (auto simp: repoint_candidates_def in_map_filter_iff split: if_splits)

lemma entry_rows_repoint:
  assumes "new \<noteq> Some old"
  shows "set (entry_rows (repoint_entry old new x)) \<subseteq> set (entry_rows x) - {old} \<union> set_option new"
proof
  fix i
  assume "i \<in> set (entry_rows (repoint_entry old new x))"
  then consider "repoint_id old new (re_db_txn_id x) = Some i" | "repoint_id old new (re_imported_txn_id x) = Some i"
    | "i \<in> set (repoint_candidates old new (re_candidate_ids x))"
    by (auto simp: entry_rows_def repoint_entry_def)
  then show "i \<in> set (entry_rows x) - {old} \<union> set_option new"
  proof cases
    case 1
    then show ?thesis using repoint_gone[OF assms] repoint_new[OF 1] by (auto simp: entry_rows_def)
  next
    case 2
    then show ?thesis using repoint_gone[OF assms] repoint_new[OF 2] by (auto simp: entry_rows_def)
  next
    case 3
    then show ?thesis using candidates_repoint[OF assms, of "re_candidate_ids x"] by (auto simp: entry_rows_def)
  qed
qed

lemma recon_rows_repoint:
  assumes "new \<noteq> Some old"
  shows "set (recon_rows (map_option (repoint_reconciliation old new) r)) \<subseteq> set (recon_rows r) - {old} \<union> set_option new"
proof (cases r)
  case (Some s)
  have "set (entry_rows y) \<subseteq> set (recon_rows r) - {old} \<union> set_option new"
    if y: "y \<in> set (repoint_group old new (sr_matched s) @ repoint_group old new (sr_missing s))" for y
  proof -
    obtain x where x: "x \<in> set (sr_matched s @ sr_missing s)" "y = repoint_entry old new x"
      using y unfolding repoint_group_def set_append set_map set_filter by blast
    then show ?thesis using entry_rows_repoint[OF assms, of x] Some by (auto simp: recon_rows_def)
  qed
  then show ?thesis using Some by (simp add: recon_rows_def repoint_reconciliation_def) blast
qed (simp add: recon_rows_def)

text \<open>The tables after \<open>move_references\<close>, as functions of the tables before.\<close>

lemma drop_prompt_db:
  "ref_columns (lg_db (drop_prompt old L)) = ref_columns (lg_db L)" "contexts (drop_prompt old L) = contexts L"
  "prompts (drop_prompt old L) = filter (\<lambda>p. mp_transaction p \<noteq> old) (prompts L)"
  by (simp_all add: drop_prompt_def Let_def ref_columns_def map_update_where)

lemma move_links_frame:
  "ref_columns (lg_db (snd (move_receivable_links now old new L))) = ref_columns (lg_db L)"
  "contexts (snd (move_receivable_links now old new L)) = contexts L"
  "prompts (snd (move_receivable_links now old new L)) = filter (\<lambda>p. mp_transaction p \<noteq> old) (prompts L)"
  by (simp_all add: move_rest drop_prompt_db) (simp add: move_receivable_links_def Let_def drop_prompt_db split: option.splits)

lemma moved_link_rows:
  assumes "new \<noteq> Some old"
  shows "set (map ln_transaction (links (snd (move_receivable_links now old new L)))) \<subseteq>
    set (map ln_transaction (links L)) - {old} \<union> set_option new"
  using assms by (cases new) (auto simp: move_receivable_links_def Let_def update_where_def split: if_splits)

definition moved_db :: "env \<Rightarrow> int \<Rightarrow> int option \<Rightarrow> ledger \<Rightarrow> db" where
  "moved_db e old new L =
     lg_db (snd (move_receivable_links (e_now e) old new
       (move_transaction_references old new (L\<lparr>lg_db := supersede_active_decisions e old None (lg_db L)\<rparr>))))"

lemma moved_db_columns:
  "ref_columns (moved_db e old new L) =
   (let d = lg_db L in
    (map (repoint_id old new) (map od_transaction_id (deliveries d)),
     map ai_transaction_id (update_where (\<lambda>r. ai_status r \<in> {''claimed'', ''processing''})
       (\<lambda>r. r\<lparr>ai_transaction_id := repoint_id old new (ai_transaction_id r)\<rparr>)
       (interactions (supersede_active_decisions e old None d))),
     map (\<lambda>c. (clear_pending old c)\<lparr>cv_transaction_id := repoint_id old new (cv_transaction_id c)\<rparr>) (conversations d),
     sms_messages d, audit_actions d, statement_uploads d, bank_uploads d, map rd_transaction_id (review_decisions d)))"
proof -
  let ?s = "supersede_active_decisions e old None (lg_db L)"
  have s: "map od_transaction_id (deliveries ?s) = map od_transaction_id (deliveries (lg_db L))"
    "conversations ?s = conversations (lg_db L)" "sms_messages ?s = sms_messages (lg_db L)"
    "audit_actions ?s = audit_actions (lg_db L)" "statement_uploads ?s = statement_uploads (lg_db L)"
    "bank_uploads ?s = bank_uploads (lg_db L)"
    "map rd_transaction_id (review_decisions ?s) = map rd_transaction_id (review_decisions (lg_db L))"
    using ref_columns_supersede[of e old None "lg_db L"] by (simp_all add: ref_columns_def)
  have od: "map od_transaction_id (map (\<lambda>r. r\<lparr>od_transaction_id := repoint_id old new (od_transaction_id r)\<rparr>) (deliveries ?s)) =
      map (repoint_id old new) (map od_transaction_id (deliveries (lg_db L)))"
    unfolding s(1)[symmetric] by simp
  show ?thesis
    unfolding moved_db_def move_links_frame(1) unfolding ref_columns_def Let_def
    using od s by (simp add: move_transaction_references_def Let_def)
qed

lemma interactions_repoint:
  assumes "new \<noteq> Some old"
  shows "set (named_ids (map (repoint_id old new) (map ai_transaction_id (update_where P
      (\<lambda>r. r\<lparr>ai_transaction_id := repoint_id old new (ai_transaction_id r)\<rparr>) rs)))) \<subseteq>
    set (named_ids (map ai_transaction_id rs)) - {old} \<union> set_option new"
proof -
  have "set (named_ids (map ai_transaction_id (update_where P
      (\<lambda>r. r\<lparr>ai_transaction_id := repoint_id old new (ai_transaction_id r)\<rparr>) rs))) \<subseteq>
      set (named_ids (map ai_transaction_id rs)) \<union> set_option new"
  proof
    fix i
    assume "i \<in> set (named_ids (map ai_transaction_id (update_where P
      (\<lambda>r. r\<lparr>ai_transaction_id := repoint_id old new (ai_transaction_id r)\<rparr>) rs)))"
    then obtain r where r: "r \<in> set rs" "ai_transaction_id r = Some i \<or> repoint_id old new (ai_transaction_id r) = Some i"
      by (auto simp: in_named_ids update_where_def split: if_splits)
    then have "ai_transaction_id r = Some i \<or> new = Some i" using repoint_new by metis
    then show "i \<in> set (named_ids (map ai_transaction_id rs)) \<union> set_option new" using r(1) by (force simp: in_named_ids)
  qed
  then show ?thesis using named_repoint[OF assms] by blast
qed

text \<open>After the move nothing names the old row, and only the new row is named in its place.\<close>

lemma move_references_parts:
  "lg_db (move_references e old new L) = move_reconciliations old new (move_referring_rows old new (moved_db e old new L))"
  "contexts (move_references e old new L) =
     map (\<lambda>c. c\<lparr>mc_transaction_id := repoint_id old new (mc_transaction_id c)\<rparr>) (contexts L)"
  "prompts (move_references e old new L) = filter (\<lambda>p. mp_transaction p \<noteq> old) (prompts L)"
  "links (move_references e old new L) = links (snd (move_receivable_links (e_now e) old new
     (move_transaction_references old new (L\<lparr>lg_db := supersede_active_decisions e old None (lg_db L)\<rparr>))))"
  by (simp_all add: move_references_def Let_def moved_db_def move_links_frame)
     (simp_all add: move_transaction_references_def Let_def)

lemma db_mentions_moved:
  assumes "new \<noteq> Some old"
  shows "set (db_mentions (lg_db (move_references e old new L))) \<subseteq> set (db_mentions (lg_db L)) - {old} \<union> set_option new"
proof -
  let ?d = "lg_db L" and ?m = "moved_db e old new L" and ?d' = "lg_db (move_references e old new L)"
  note c = moved_db_columns[of e old new L, unfolded ref_columns_def Let_def prod.inject]
  have s: "map ai_transaction_id (interactions (supersede_active_decisions e old None ?d)) = map ai_transaction_id (interactions ?d)"
    using ref_columns_supersede[of e old None ?d] by (simp add: ref_columns_def)
  have od: "map od_transaction_id (deliveries ?d') = map (repoint_id old new) (map od_transaction_id (deliveries ?d))"
    using c by (simp add: move_references_parts move_reconciliations_def move_referring_rows_def)
  have ai: "set (named_ids (map ai_transaction_id (interactions ?d'))) \<subseteq>
      set (named_ids (map ai_transaction_id (interactions ?d))) - {old} \<union> set_option new"
  proof -
    have "map ai_transaction_id (interactions ?d') = map (repoint_id old new) (map ai_transaction_id (interactions ?m))"
      by (simp add: move_references_parts move_reconciliations_def move_referring_rows_def comp_def)
    moreover have "map ai_transaction_id (interactions ?m) =
        map ai_transaction_id (update_where (\<lambda>r. ai_status r \<in> {''claimed'', ''processing''})
          (\<lambda>r. r\<lparr>ai_transaction_id := repoint_id old new (ai_transaction_id r)\<rparr>)
          (interactions (supersede_active_decisions e old None ?d)))" using c by blast
    ultimately show ?thesis using interactions_repoint[OF assms] by (simp only: s[symmetric])
  qed
  have cv: "conversations ?d' = map (\<lambda>c. (clear_pending old c)\<lparr>cv_transaction_id := repoint_id old new (cv_transaction_id c)\<rparr>) (conversations ?d)"
    using c by (simp add: move_references_parts move_reconciliations_def move_referring_rows_def)
  have cvt: "map cv_transaction_id (conversations ?d') = map (repoint_id old new) (map cv_transaction_id (conversations ?d))"
    by (simp add: cv comp_def)
  have pend: "set (concat (map pending_rows (conversations ?d'))) \<subseteq> set (concat (map pending_rows (conversations ?d))) - {old}"
    using cleared_rows unfolding cv by fastforce
  have sms: "map sms_transaction_id (sms_messages ?d') = map (repoint_id old new) (map sms_transaction_id (sms_messages ?d))"
    using c by (simp add: move_references_parts move_reconciliations_def move_referring_rows_def comp_def)
  have aa: "map aa_transaction_id (audit_actions ?d') = map (repoint_id old new) (map aa_transaction_id (audit_actions ?d))"
    using c by (simp add: move_references_parts move_reconciliations_def move_referring_rows_def comp_def)
  have su: "map su_reconciliation_data (statement_uploads ?d') =
      map (map_option (repoint_reconciliation old new)) (map su_reconciliation_data (statement_uploads ?d))"
    using c by (simp add: move_references_parts move_reconciliations_def move_referring_rows_def comp_def)
  have bu: "map bu_reconciliation_data (bank_uploads ?d') =
      map (map_option (repoint_reconciliation old new)) (map bu_reconciliation_data (bank_uploads ?d))"
    using c by (simp add: move_references_parts move_reconciliations_def move_referring_rows_def comp_def)
  have recons: "set (concat (map recon_rows (map (map_option (repoint_reconciliation old new)) rs))) \<subseteq>
      set (concat (map recon_rows rs)) - {old} \<union> set_option new" for rs
  proof
    fix i
    assume "i \<in> set (concat (map recon_rows (map (map_option (repoint_reconciliation old new)) rs)))"
    then obtain r where "r \<in> set rs" "i \<in> set (recon_rows (map_option (repoint_reconciliation old new) r))" by auto
    then show "i \<in> set (concat (map recon_rows rs)) - {old} \<union> set_option new"
      using recon_rows_repoint[OF assms, of r] by auto
  qed
  have split: "named_ids (xs @ ys) = named_ids xs @ named_ids ys" for xs ys
    by (simp add: named_ids_def List.map_filter_def)
  show ?thesis
    unfolding db_mentions_def split set_append od cvt sms aa su bu map_append concat_append
    using named_repoint[OF assms, of "map od_transaction_id (deliveries ?d)"] ai
      named_repoint[OF assms, of "map cv_transaction_id (conversations ?d)"]
      named_repoint[OF assms, of "map sms_transaction_id (sms_messages ?d)"]
      named_repoint[OF assms, of "map aa_transaction_id (audit_actions ?d)"] pend
      recons[of "map su_reconciliation_data (statement_uploads ?d)"] recons[of "map bu_reconciliation_data (bank_uploads ?d)"]
    by blast
qed

lemma mentions_moved:
  assumes "new \<noteq> Some old"
  shows "set (mentions (move_references e old new L)) \<subseteq> set (mentions L) - {old} \<union> set_option new"
proof -
  have links: "set (map ln_transaction (links (move_references e old new L))) \<subseteq>
      set (map ln_transaction (links L)) - {old} \<union> set_option new"
    unfolding move_references_parts(4) using moved_link_rows[OF assms, of "e_now e"
        "move_transaction_references old new (L\<lparr>lg_db := supersede_active_decisions e old None (lg_db L)\<rparr>)"]
    by (simp add: move_transaction_references_def Let_def)
  have ctx: "map mc_transaction_id (contexts (move_references e old new L)) =
      map (repoint_id old new) (map mc_transaction_id (contexts L))"
    by (simp add: move_references_parts comp_def)
  have prm: "set (map mp_transaction (prompts (move_references e old new L))) \<subseteq> set (map mp_transaction (prompts L)) - {old}"
    by (auto simp: move_references_parts)
  show ?thesis
    unfolding mentions_def set_append ctx
    using db_mentions_moved[OF assms, of e L] named_repoint[OF assms, of "map mc_transaction_id (contexts L)"] links prm by blast
qed

lemma history_moved:
  assumes "keeper \<noteq> old"
  shows "set (history (lg_db (move_references e old (Some keeper) L))) \<subseteq> set (history (lg_db L)) - {old} \<union> {keeper}"
proof -
  let ?d = "lg_db L" and ?m = "moved_db e old (Some keeper) L" and ?d' = "lg_db (move_references e old (Some keeper) L)"
  note c = moved_db_columns[of e old "Some keeper" L, unfolded ref_columns_def Let_def prod.inject]
  have rd: "set (map rd_transaction_id (review_decisions ?d')) \<subseteq> set (map rd_transaction_id (review_decisions ?m)) - {old} \<union> {keeper}"
    using assms by (auto simp: move_references_parts move_reconciliations_def move_referring_rows_def update_where_def split: if_splits)
  have aa: "audit_actions ?d' = map (\<lambda>r. r\<lparr>aa_transaction_id := repoint_id old (Some keeper) (aa_transaction_id r),
      aa_target_id := (if aa_target_type r = ''transaction'' \<and> aa_target_id r = old then keeper else aa_target_id r)\<rparr>) (audit_actions ?d)"
    using c by (simp add: move_references_parts move_reconciliations_def move_referring_rows_def)
  show ?thesis
    unfolding history_def set_append using rd c assms by (auto simp: aa split: if_splits)
qed

lemma move_references_rows:
  "transactions (lg_db (move_references e old new L)) = transactions (lg_db L)"
  "map su_id (statement_uploads (lg_db (move_references e old new L))) = map su_id (statement_uploads (lg_db L))"
proof -
  have "transactions (moved_db e old new L) = transactions (lg_db L)"
    by (simp add: moved_db_def move_rest move_transaction_references_def Let_def)
  then show "transactions (lg_db (move_references e old new L)) = transactions (lg_db L)"
    by (simp add: move_references_parts move_reconciliations_def move_referring_rows_def)
  show "map su_id (statement_uploads (lg_db (move_references e old new L))) = map su_id (statement_uploads (lg_db L))"
    using moved_db_columns[of e old new L]
    by (simp add: move_references_parts move_reconciliations_def move_referring_rows_def ref_columns_def Let_def comp_def)
qed

section \<open>The merge of a pair\<close>

lemma on_db_frame [simp]:
  "lg_db (on_db f L) = f (lg_db L)" "links (on_db f L) = links L" "receivables (on_db f L) = receivables L"
  "prompts (on_db f L) = prompts L" "contexts (on_db f L) = contexts L" "identifiers (on_db f L) = identifiers L"
  by (simp_all add: on_db_def)

lemma mentions_on_db:
  "set (db_mentions (f (lg_db L))) \<subseteq> set (db_mentions (lg_db L)) \<union> A \<Longrightarrow> set (mentions (on_db f L)) \<subseteq> set (mentions L) \<union> A"
  by (auto simp: mentions_def)

text \<open>A recomputed upload keeps its stored reconciliation.\<close>

lemma snapshot_db: "snd (emit_cc_snapshot now u d) = d\<lparr>snapshots := snapshots (snd (emit_cc_snapshot now u d))\<rparr>"
  by (simp add: emit_cc_snapshot_def Let_def split: option.splits)

lemma paid_state_keeps: "su_reconciliation_data (paid_state now z due r u) = su_reconciliation_data u" "su_id (paid_state now z due r u) = su_id u"
  by (simp_all add: paid_state_def)

lemma resync_db:
  assumes "resync_tracked_cc_payment_state p now u d = Inr (b, d')"
  obtains "d' = d" | u' s where "d' = (write_upload u' d)\<lparr>snapshots := s\<rparr>"
    "su_reconciliation_data u' = su_reconciliation_data u" "su_id u' = su_id u"
proof -
  have "d' = d \<or> (\<exists>u' s. d' = (write_upload u' d)\<lparr>snapshots := s\<rparr> \<and>
      su_reconciliation_data u' = su_reconciliation_data u \<and> su_id u' = su_id u)"
  proof (cases "\<not> status_in ACTIVE_STATUSES (su_payment_status u) \<or> \<not> su_is_active u \<or> parse_total_due u = None")
    case True
    then show ?thesis using assms by (simp add: resync_tracked_cc_payment_state_def)
  next
    case False
    then obtain paid u' where r: "recompute_cc_payment_state p now True u d = Inr (paid, u', d')"
      using assms by (auto simp: resync_tracked_cc_payment_state_def split: sum.splits)
    then obtain due rec where "u' = paid_state now True due rec u" "d' = snd (emit_cc_snapshot now u' (write_upload u' d))"
      by (auto simp: recompute_cc_payment_state_def Let_def split: if_splits sum.splits option.splits)
    then show ?thesis using snapshot_db[of now u' "write_upload u' d"] paid_state_keeps by metis
  qed
  then show thesis using that by blast
qed

lemma write_upload_recons:
  assumes "u \<in> set (statement_uploads d)" "su_reconciliation_data u' = su_reconciliation_data u"
  shows "set (map su_reconciliation_data (statement_uploads (write_upload u' d))) \<subseteq>
    set (map su_reconciliation_data (statement_uploads d))"
  using assms by (auto simp: write_upload_def update_where_def)

lemma concat_mono: "set xs \<subseteq> set ys \<Longrightarrow> set (concat (map f xs)) \<subseteq> set (concat (map f ys))"
  by auto

lemma write_upload_mentions:
  assumes "u \<in> set (statement_uploads d)" "su_reconciliation_data u' = su_reconciliation_data u"
  shows "set (db_mentions ((write_upload u' d)\<lparr>snapshots := s\<rparr>)) \<subseteq> set (db_mentions d)"
proof -
  have "set (concat (map recon_rows (map su_reconciliation_data (statement_uploads (write_upload u' d))))) \<subseteq>
      set (concat (map recon_rows (map su_reconciliation_data (statement_uploads d))))"
    by (rule concat_mono) (rule write_upload_recons[OF assms])
  moreover have "deliveries (write_upload u' d) = deliveries d" "interactions (write_upload u' d) = interactions d"
    "conversations (write_upload u' d) = conversations d" "sms_messages (write_upload u' d) = sms_messages d"
    "audit_actions (write_upload u' d) = audit_actions d" "bank_uploads (write_upload u' d) = bank_uploads d"
    by (simp_all add: write_upload_def)
  ultimately show ?thesis by (simp add: db_mentions_def) blast
qed

lemma recompute_cycle_keeps:
  assumes "recompute_cycle p now cycle d = Inr (cs, pg, d')"
  shows "set (db_mentions d') \<subseteq> set (db_mentions d)" "history d' = history d" "transactions d' = transactions d"
proof -
  consider "d' = d" | u u' s where "u \<in> set (statement_uploads d)" "d' = (write_upload u' d)\<lparr>snapshots := s\<rparr>"
    "su_reconciliation_data u' = su_reconciliation_data u"
  proof (cases cycle)
    case None
    then show thesis using assms that(1) by (simp add: recompute_cycle_def)
  next
    case (Some before)
    then obtain u b where u: "find (\<lambda>u. su_id u = su_id before) (statement_uploads d) = Some u"
      "resync_tracked_cc_payment_state p now u d = Inr (b, d')"
      using assms by (auto simp: recompute_cycle_def Let_def split: option.splits sum.splits bool.splits)
    from u(2) show thesis
      by (rule resync_db) (use that find_SomeD[OF u(1)] in blast)+
  qed
  note cases = this
  from cases show "set (db_mentions d') \<subseteq> set (db_mentions d)"
    by cases (simp, simp only: write_upload_mentions)
  from cases show "history d' = history d" by cases (simp_all add: history_def write_upload_def)
  from cases show "transactions d' = transactions d" by cases (simp_all add: write_upload_def)
qed

lemma audit_override_keeps:
  "set (db_mentions (audit_override applied keep dup d)) \<subseteq> set (db_mentions d) \<union> {keep}"
  "history (audit_override applied keep dup d) = history d"
  "transactions (audit_override applied keep dup d) = transactions d"
  by (auto simp: audit_override_def db_mentions_def in_named_ids history_def)

lemma delete_row_keeps [simp]:
  "db_mentions (delete_row i d) = db_mentions d" "history (delete_row i d) = history d"
  by (simp_all add: delete_row_def db_mentions_def history_def)

lemma merge_pair_parts:
  assumes "merge_pair p e keep dup applied L = Inr (report, L')"
  obtains d2 d3 cs cs' pg cycle where
    "fold_row e keep dup applied (delete_row (t_id dup) (lg_db (move_references e (t_id dup) (Some (t_id keep)) L))) = Inr (cs, d2)"
    "recompute_cycle p (e_now e) cycle d2 = Inr (cs', pg, d3)"
    "L' = on_db (\<lambda>_. audit_override applied (t_id keep) (t_id dup) d3)
       (move_references e (t_id dup) (Some (t_id keep)) L)"
    "mr_keep report = t_id keep" "mr_duplicate report = t_id dup"
  using assms by (auto simp: merge_pair_def Let_def on_db_def split: sum.splits prod.splits)

lemma merge_pair_mentions:
  assumes "merge_pair p e keep dup applied L = Inr (report, L')" "t_id keep \<noteq> t_id dup"
  shows "set (mentions L') \<subseteq> set (mentions L) - {t_id dup} \<union> {t_id keep}"
    "set (history (lg_db L')) \<subseteq> set (history (lg_db L)) - {t_id dup} \<union> {t_id keep}"
proof -
  let ?M = "move_references e (t_id dup) (Some (t_id keep)) L"
  obtain d2 d3 cs cs' pg cycle where run: "fold_row e keep dup applied (delete_row (t_id dup) (lg_db ?M)) = Inr (cs, d2)"
    "recompute_cycle p (e_now e) cycle d2 = Inr (cs', pg, d3)"
    "L' = on_db (\<lambda>_. audit_override applied (t_id keep) (t_id dup) d3) ?M"
    using merge_pair_parts[OF assms(1)] by metis
  have d2: "db_mentions d2 = db_mentions (lg_db ?M)" "history d2 = history (lg_db ?M)"
    using db_mentions_columns[OF ref_columns_fold_row[OF run(1)]] by simp_all
  note d3 = recompute_cycle_keeps[OF run(2)]
  have "set (db_mentions (audit_override applied (t_id keep) (t_id dup) d3)) \<subseteq> set (db_mentions (lg_db ?M)) \<union> {t_id keep}"
    by (rule order_trans[OF audit_override_keeps(1)]) (rule Un_mono[OF d3(1)[unfolded d2(1)] order_refl])
  then have "set (mentions L') \<subseteq> set (mentions ?M) \<union> {t_id keep}" unfolding run(3) by (rule mentions_on_db)
  then show "set (mentions L') \<subseteq> set (mentions L) - {t_id dup} \<union> {t_id keep}"
    using mentions_moved[of "Some (t_id keep)" "t_id dup" e L] assms(2) by auto
  have "history (lg_db L') = history (lg_db ?M)" by (simp add: run(3) audit_override_keeps d3 d2)
  then show "set (history (lg_db L')) \<subseteq> set (history (lg_db L)) - {t_id dup} \<union> {t_id keep}"
    using history_moved[OF assms(2), of e L] by simp
qed

text \<open>The other rows keep their money, and the constraints of the tables hold.\<close>

lemma folded_money: "money_facts (snd (fold_manual_fields dup (with_links dup (with_reference applied dup keep)))) = money_facts keep"
  by (simp add: fold_manual_fields_def Let_def copy_category_def with_links_def with_reference_def money_facts_def)

lemma money_write:
  assumes "distinct (map t_id rows)" "r \<in> set rows" "money_facts u = money_facts r"
  shows "map money_facts (update_where (\<lambda>t. t_id t = t_id r) (\<lambda>_. u) rows) = map money_facts rows"
proof -
  have "money_facts u = money_facts t" if "t \<in> set rows" "t_id t = t_id r" for t
    using assms that by (metis distinct_map inj_onD)
  then show ?thesis by (simp add: update_where_def)
qed

lemma money_ids: "map money_facts xs = map money_facts ys \<Longrightarrow> map t_id xs = map t_id ys"
  by (drule arg_cong[of _ _ "map fst"]) (simp add: money_facts_def comp_def)

lemma fold_row_rows:
  assumes "fold_row e keep dup applied d = Inr (cs, d')" "keep \<in> set (transactions d)" "distinct (map t_id (transactions d))"
  shows "map money_facts (transactions d') = map money_facts (transactions d)" "db_ok d'"
proof -
  define k1 where "k1 = with_links dup (with_reference applied dup keep)"
  define k2 where "k2 = snd (fold_manual_fields dup k1)"
  obtain d1 diff d3 where run: "flush (write_txn (t_id keep) (\<lambda>_. k2) d) = Inr d1"
    "apply_transaction_enrichment e k2 (merge_data applied k1 dup) Sms (t_sms_message_id dup) None
       Standard (if takes_category dup k1 then supersede_active_decisions e (t_id keep) None d1 else d1) = Inr (diff, d3)"
    "d' = write_txn (t_id keep) (\<lambda>t. t\<lparr>t_source := merge_source k1 dup\<rparr>) d3"
    using assms(1) by (auto simp: fold_row_def Let_def k1_def k2_def split_def split: sum.splits)
  have d1: "d1 = write_txn (t_id keep) (\<lambda>_. k2) d" "uq_transactions_ref (transactions d1)" using flush_ok[OF run(1)] by simp_all
  have m1: "map money_facts (transactions d1) = map money_facts (transactions d)"
    using money_write[OF assms(3,2), of k2] folded_money by (simp add: d1(1) write_txn_def k2_def k1_def)
  have "db_ok d1" using d1(2) money_ids[OF m1] assms(3) by (simp add: db_ok_def)
  then have ok1: "db_ok (if takes_category dup k1 then supersede_active_decisions e (t_id keep) None d1 else d1)"
    by (simp add: db_ok_def)
  have m3: "map money_facts (transactions d3) = map money_facts (transactions d1)"
    using rows_kept_money[OF enrichment_kept(1)[OF run(2)]] by (simp split: if_splits)
  have "money_facts (t\<lparr>t_source := x\<rparr>) = money_facts t" "ref_key (t\<lparr>t_source := x\<rparr>) = ref_key t"
    "t_id (t\<lparr>t_source := x\<rparr>) = t_id t" for t x by (simp_all add: money_facts_def ref_key_def)
  then have m': "map money_facts (transactions d') = map money_facts (transactions d3)"
    and r': "map ref_key (transactions d') = map ref_key (transactions d3)" "map t_id (transactions d') = map t_id (transactions d3)"
    by (simp_all add: run(3) write_txn_def map_update_where)
  show "map money_facts (transactions d') = map money_facts (transactions d)" using m' m3 m1 by simp
  show "db_ok d'" using db_ok_same_keys[OF r'] enrichment_kept(2)[OF run(2) ok1] by simp
qed

definition directions :: "db \<Rightarrow> (int \<times> string) list" where
  "directions d = map (\<lambda>t. (t_id t, t_direction t)) (transactions d)"

lemma get_direction: "map_option t_direction (get_txn i d) = map_of (directions d) i"
proof -
  have "map_option t_direction (find (\<lambda>t. t_id t = i) ts) = map_of (map (\<lambda>t. (t_id t, t_direction t)) ts) i" for ts
    by (induction ts) auto
  then show ?thesis by (simp add: get_txn_def directions_def)
qed

lemma link_ok_direction: "link_ok d ks l =
    list_ex (\<lambda>(i, k). i = ln_receivable l \<and> map_of (directions d) (ln_transaction l) = Some (role_direction k (ln_role l))) ks"
  unfolding link_ok_def get_direction[symmetric] by (cases "get_txn (ln_transaction l) d") simp_all

lemma ledger_ok_cong:
  assumes "links L' = links L" "receivables L' = receivables L" "identifiers L' = identifiers L" "prompts L' = prompts L"
    "directions (lg_db L') = directions (lg_db L)"
  shows "ledger_ok L' = ledger_ok L"
  using assms by (simp add: ledger_ok_def list_all_iff link_ok_direction)

lemma money_directions: "map money_facts (transactions d') = map money_facts (transactions d) \<Longrightarrow> directions d' = directions d"
  by (drule arg_cong[of _ _ "map (\<lambda>x. (fst x, fst (snd (snd x))))"]) (simp add: directions_def money_facts_def comp_def)

lemma db_ok_delete: "db_ok d \<Longrightarrow> db_ok (delete_row i d)"
  by (auto simp: db_ok_def delete_row_def uq_transactions_ref_def some_values_def distinct_map inj_on_def)

lemma merge_pair_rows:
  assumes "merge_pair p e keep dup applied L = Inr (report, L')" "t_id keep \<noteq> t_id dup"
    "get_txn (t_id keep) (lg_db L) = Some keep" "get_txn (t_id dup) (lg_db L) = Some dup"
    "t_direction keep = t_direction dup" "db_ok (lg_db L)" "ledger_ok L"
  shows "map money_facts (transactions (lg_db L')) =
      map money_facts (filter (\<lambda>t. t_id t \<noteq> t_id dup) (transactions (lg_db L)))"
    "db_ok (lg_db L')" "ledger_ok L'"
proof -
  let ?M = "move_references e (t_id dup) (Some (t_id keep)) L"
  let ?D = "delete_row (t_id dup) (lg_db ?M)"
  obtain d2 d3 cs cs' pg cycle where run: "fold_row e keep dup applied ?D = Inr (cs, d2)"
    "recompute_cycle p (e_now e) cycle d2 = Inr (cs', pg, d3)"
    "L' = on_db (\<lambda>_. audit_override applied (t_id keep) (t_id dup) d3) ?M"
    using merge_pair_parts[OF assms(1)] by metis
  have rows: "transactions ?D = filter (\<lambda>t. t_id t \<noteq> t_id dup) (transactions (lg_db L))"
    by (simp add: delete_row_def move_references_rows)
  have "keep \<in> set (transactions (lg_db L))" using assms(3) get_txn_Some by blast
  then have keep: "keep \<in> set (transactions ?D)" unfolding rows using assms(2) by simp
  have "distinct (map t_id (transactions ?D))" unfolding rows using assms(6) by (simp add: db_ok_def distinct_map_filter)
  note f = fold_row_rows[OF run(1) keep this]
  have t: "transactions (lg_db L') = transactions d2"
    by (simp add: run(3) audit_override_keeps recompute_cycle_keeps(3)[OF run(2)])
  show m: "map money_facts (transactions (lg_db L')) =
      map money_facts (filter (\<lambda>t. t_id t \<noteq> t_id dup) (transactions (lg_db L)))"
    unfolding t f(1) rows ..
  show "db_ok (lg_db L')" using f(2) t by (simp add: db_ok_def)
  let ?T = "move_transaction_references (t_id dup) (Some (t_id keep))
    (L\<lparr>lg_db := supersede_active_decisions e (t_id dup) None (lg_db L)\<rparr>)"
  let ?R = "delete_txn (t_id dup) (snd (move_receivable_links (e_now e) (t_id dup) (Some (t_id keep)) ?T))"
  have T: "links ?T = links L" "receivables ?T = receivables L" "identifiers ?T = identifiers L" "prompts ?T = prompts L"
    "transactions (lg_db ?T) = transactions (lg_db L)"
    by (simp_all add: move_transaction_references_def Let_def)
  have "ledger_ok ?T" using ledger_ok_cong[OF T(1-4)] T(5) assms(7) by (simp add: directions_def)
  then have "ledger_ok ?R"
    using merge_ok[of ?T "t_id dup" "t_id keep" dup keep "e_now e"] assms(2-5) T(5) by (simp add: get_txn_def)
  moreover have "ledger_ok L' = ledger_ok ?R"
  proof (rule ledger_ok_cong)
    have "directions (lg_db L') = directions ?D" by (rule money_directions) (simp only: m rows)
    also have "\<dots> = directions (lg_db ?R)"
      by (simp add: directions_def rows delete_txn_def move_rest T(5))
    finally show "directions (lg_db L') = directions (lg_db ?R)" .
  qed (simp_all add: run(3) move_references_def Let_def)
  ultimately show "ledger_ok L'" by simp
qed

end
