(* ===== verification/Duplicate_Batch.thy ===== *)
theory Duplicate_Batch
  imports Duplicate_Facts Bank_Facts
begin

text \<open>
  Batches of merges and of deletes: what holds after a whole batch, by induction over its requests with
  the facts of one pair from \<open>Duplicate_Facts\<close>.
\<close>

section \<open>One request of a merge batch\<close>

lemma refusal_kept:
  assumes "x \<in> set (pair_refusals k t)" "fst x" "OVERRIDABLE (snd x) = None"
  shows "fst (refusal_reasons k t os) \<noteq> []"
proof -
  have "snd x \<in> set (map snd (filter fst (pair_refusals k t)))" using assms(1,2) by auto
  then have "snd x \<in> set (fst (refusal_reasons k t os))" using assms(3) by (simp add: refusal_reasons_def Let_def)
  then show ?thesis by (metis empty_iff empty_set)
qed

lemma not_refused:
  assumes "refusal_reasons k t os = ([], applied)"
  shows "t_account_id k \<noteq> None" "t_account_id k = t_account_id t" "t_direction k = t_direction t"
    "same_currency k t \<Longrightarrow> t_amount k = t_amount t" "\<not> balances_differ k t"
    "\<not> owns_other k t Sms" "\<not> owns_other k t Email" "is_cc_payment t \<Longrightarrow> is_cc_payment k"
    "days_apart k t \<noteq> None"
proof -
  have ok: "\<not> fst x" if "x \<in> set (pair_refusals k t)" "OVERRIDABLE (snd x) = None" for x
    using refusal_kept[OF that(1) _ that(2), of os] assms by auto
  show "t_account_id k \<noteq> None" "t_account_id k = t_account_id t"
    using ok[of "(t_account_id k = None \<or> t_account_id k \<noteq> t_account_id t, Not_same_account)"]
    by (cases "t_account_id k"; simp add: pair_refusals_def OVERRIDABLE_def)+
  show "t_direction k = t_direction t"
    using ok[of "(t_direction k \<noteq> t_direction t, Direction_differs)"] by (simp add: pair_refusals_def OVERRIDABLE_def)
  show "same_currency k t \<Longrightarrow> t_amount k = t_amount t"
    using ok[of "(same_currency k t \<and> t_amount k \<noteq> t_amount t, Amount_differs)"] by (simp add: pair_refusals_def OVERRIDABLE_def)
  show "\<not> balances_differ k t"
    using ok[of "(balances_differ k t, Balances_differ)"] by (simp add: pair_refusals_def OVERRIDABLE_def)
  show "\<not> owns_other k t Sms" "\<not> owns_other k t Email"
    using ok[of "(owns_other k t Sms, Both_own_sms)"] ok[of "(owns_other k t Email, Both_own_email)"]
    by (simp_all add: pair_refusals_def OVERRIDABLE_def)
  show "is_cc_payment t \<Longrightarrow> is_cc_payment k"
    using ok[of "(is_cc_payment t \<and> \<not> is_cc_payment k, Counts_as_payment)"] by (simp add: pair_refusals_def OVERRIDABLE_def)
  show "days_apart k t \<noteq> None"
    using ok[of "(days_apart k t = None, No_date)"] by (simp add: pair_refusals_def OVERRIDABLE_def)
qed

text \<open>A refusal that only an override lifts: without the override it stands.\<close>

lemma not_overridden:
  assumes "refusal_reasons k t os = ([], applied)" "x \<in> set (pair_refusals k t)" "fst x" "OVERRIDABLE (snd x) = Some v"
  shows "v \<in> set os" "v \<in> set applied"
proof -
  have x: "snd x \<in> set (map snd (filter fst (pair_refusals k t)))" using assms(2,3) by auto
  have "case OVERRIDABLE (snd x) of None \<Rightarrow> False | Some o' \<Rightarrow> o' \<in> set os"
    using assms(1) x unfolding refusal_reasons_def Let_def prod.inject filter_empty_conv by blast
  then show v: "v \<in> set os" using assms(4) by simp
  show "v \<in> set applied"
    using assms(1,4) x v unfolding refusal_reasons_def Let_def prod.inject
    by (force simp: in_map_filter_iff)
qed

lemma request_accepted:
  assumes "merge_request_step p e parses dups keeps pair st = Some st'" "bs_refusals st' = []"
  obtains k t applied report L' where
    "get_txn (mq_keep pair) (lg_db (bs_ledger st)) = Some k"
    "get_txn (mq_duplicate pair) (lg_db (bs_ledger st)) = Some t"
    "mq_keep pair \<noteq> mq_duplicate pair" "mq_duplicate pair \<notin> set keeps"
    "refusal_reasons k t (mq_override pair) = ([], applied)"
    "merge_pair p e k t applied (bs_ledger st) = Inr (report, L')"
    "st' = st\<lparr>bs_reports := bs_reports st @ [report],
       bs_proofs := bs_proofs st @ (if applied = [] then []
         else [\<lparr>pd_keep = t_id k, pd_duplicate = t, pd_parse = parse_outcome_of parses (t_id t)\<rparr>]),
       bs_ledger := L'\<rparr>"
proof -
  obtain reasons applied where c: "pair_checks pair (get_txn (mq_keep pair) (lg_db (bs_ledger st)))
      (get_txn (mq_duplicate pair) (lg_db (bs_ledger st))) dups keeps = (reasons, applied)" by (metis surj_pair)
  have none: "reasons = []"
    using assms c by (auto simp: merge_request_step_def Let_def refuse_def split: if_splits)
  obtain k t where kt: "get_txn (mq_keep pair) (lg_db (bs_ledger st)) = Some k"
    "get_txn (mq_duplicate pair) (lg_db (bs_ledger st)) = Some t"
    using c none by (auto simp: pair_checks_def split: option.splits)
  have ids: "t_id k = mq_keep pair" "t_id t = mq_duplicate pair" using kt get_txn_Some by blast+
  have r: "t_id k \<noteq> t_id t" "t_id t \<notin> set keeps" "refusal_reasons k t (mq_override pair) = ([], applied)"
    using c none by (auto simp: pair_checks_def kt split: if_splits)
  have "merge_request_step p e parses dups keeps pair st =
      (case merge_pair p e k t applied (bs_ledger st) of
         Inl Paid_cycle \<Rightarrow> Some (refuse pair [In_paid_cycle] st)
       | Inl Merge_raised \<Rightarrow> None
       | Inr (report, L') \<Rightarrow>
           Some (st\<lparr>bs_reports := bs_reports st @ [report],
                    bs_proofs := bs_proofs st @ (if applied = [] then []
                      else [\<lparr>pd_keep = t_id k, pd_duplicate = t, pd_parse = parse_outcome_of parses (t_id t)\<rparr>]),
                    bs_ledger := L'\<rparr>))"
    using c none by (simp add: merge_request_step_def Let_def kt)
  then obtain report L' where m: "merge_pair p e k t applied (bs_ledger st) = Inr (report, L')"
    "st' = st\<lparr>bs_reports := bs_reports st @ [report],
       bs_proofs := bs_proofs st @ (if applied = [] then []
         else [\<lparr>pd_keep = t_id k, pd_duplicate = t, pd_parse = parse_outcome_of parses (t_id t)\<rparr>]),
       bs_ledger := L'\<rparr>"
    using assms by (auto simp: refuse_def split: sum.splits merge_failure.splits prod.splits)
  show thesis by (rule that) (use m r ids kt in auto)
qed

lemma request_merged:
  assumes "merge_request_step p e parses dups keeps pair st = Some st'" "bs_refusals st' = []"
  obtains k t applied report where
    "bs_refusals st = []" "get_txn (mq_keep pair) (lg_db (bs_ledger st)) = Some k"
    "get_txn (mq_duplicate pair) (lg_db (bs_ledger st)) = Some t"
    "mq_keep pair \<noteq> mq_duplicate pair" "mq_duplicate pair \<notin> set keeps"
    "refusal_reasons k t (mq_override pair) = ([], applied)"
    "merge_pair p e k t applied (bs_ledger st) = Inr (report, bs_ledger st')"
  by (rule request_accepted[OF assms]) (use that assms(2) in auto)

lemma merge_pair_report:
  "merge_pair p e k t applied L = Inr (report, L') \<Longrightarrow> mr_keep report = t_id k \<and> mr_overrides report = applied"
  by (auto simp: merge_pair_def Let_def split: sum.splits prod.splits)

lemma request_proof:
  assumes "merge_request_step p e parses dups keeps pair st = Some st'" "bs_refusals st' = []"
  obtains report x where "bs_reports st' = bs_reports st @ [report]"
    "bs_proofs st' = bs_proofs st @ (if mr_overrides report = [] then [] else [x])" "pd_keep x = mr_keep report"
proof (rule request_accepted[OF assms])
  fix k t :: txn and applied report L'
  assume m: "merge_pair p e k t applied (bs_ledger st) = Inr (report, L')"
    and st': "st' = st\<lparr>bs_reports := bs_reports st @ [report],
       bs_proofs := bs_proofs st @ (if applied = [] then []
         else [\<lparr>pd_keep = t_id k, pd_duplicate = t, pd_parse = parse_outcome_of parses (t_id t)\<rparr>]),
       bs_ledger := L'\<rparr>"
  show thesis
    by (rule that[of report "\<lparr>pd_keep = t_id k, pd_duplicate = t, pd_parse = parse_outcome_of parses (t_id t)\<rparr>"])
      (simp_all add: st' merge_pair_report[OF m])
qed

section \<open>A whole merge batch\<close>

lemma batch_mentions:
  assumes "merge_requests p e parses dups keeps pairs st = Some st'" "bs_refusals st' = []"
  shows "bs_refusals st = [] \<and>
    set (mentions (bs_ledger st')) \<subseteq> set (mentions (bs_ledger st)) - set (map mq_duplicate pairs) \<union> set (map mq_keep pairs) \<and>
    set (history (lg_db (bs_ledger st'))) \<subseteq>
      set (history (lg_db (bs_ledger st))) - set (map mq_duplicate pairs) \<union> set (map mq_keep pairs) \<and>
    set (map mq_duplicate pairs) \<inter> set keeps = {}"
  using assms
proof (induction pairs arbitrary: st)
  case Nil
  then show ?case by simp
next
  case (Cons pair pairs)
  obtain s where s: "merge_request_step p e parses dups keeps pair st = Some s"
    "merge_requests p e parses dups keeps pairs s = Some st'"
    using Cons.prems(1) by (auto split: option.splits)
  have rest: "bs_refusals s = []"
    "set (mentions (bs_ledger st')) \<subseteq> set (mentions (bs_ledger s)) - set (map mq_duplicate pairs) \<union> set (map mq_keep pairs)"
    "set (history (lg_db (bs_ledger st'))) \<subseteq>
      set (history (lg_db (bs_ledger s))) - set (map mq_duplicate pairs) \<union> set (map mq_keep pairs)"
    "set (map mq_duplicate pairs) \<inter> set keeps = {}"
    using Cons.IH[OF s(2) Cons.prems(2)] by blast+
  obtain k t applied report where r: "bs_refusals st = []" "get_txn (mq_keep pair) (lg_db (bs_ledger st)) = Some k"
    "get_txn (mq_duplicate pair) (lg_db (bs_ledger st)) = Some t" "mq_keep pair \<noteq> mq_duplicate pair"
    "mq_duplicate pair \<notin> set keeps" "merge_pair p e k t applied (bs_ledger st) = Inr (report, bs_ledger s)"
    by (rule request_merged[OF s(1) rest(1)]) blast
  have ids: "t_id k = mq_keep pair" "t_id t = mq_duplicate pair" using r(2,3) get_txn_Some by blast+
  have "t_id k \<noteq> t_id t" using r(4) ids by simp
  note m = merge_pair_mentions[OF r(6) this, unfolded ids]
  have "set (mentions (bs_ledger st')) \<subseteq>
    set (mentions (bs_ledger st)) - set (map mq_duplicate (pair # pairs)) \<union> set (map mq_keep (pair # pairs))"
    using rest(2) m(1) by fastforce
  moreover have "set (history (lg_db (bs_ledger st'))) \<subseteq>
    set (history (lg_db (bs_ledger st))) - set (map mq_duplicate (pair # pairs)) \<union> set (map mq_keep (pair # pairs))"
    using rest(3) m(2) by fastforce
  ultimately show ?case using r(1,5) rest(4) by simp
qed

lemma batch_rows:
  assumes "merge_requests p e parses dups keeps pairs st = Some st'" "bs_refusals st' = []"
    "db_ok (lg_db (bs_ledger st))" "ledger_ok (bs_ledger st)"
  shows "map money_facts (transactions (lg_db (bs_ledger st'))) =
      filter (\<lambda>m. fst m \<notin> set (map mq_duplicate pairs)) (map money_facts (transactions (lg_db (bs_ledger st)))) \<and>
    db_ok (lg_db (bs_ledger st')) \<and> ledger_ok (bs_ledger st')"
  using assms
proof (induction pairs arbitrary: st)
  case Nil
  then show ?case by simp
next
  case (Cons pair pairs)
  obtain s where s: "merge_request_step p e parses dups keeps pair st = Some s"
    "merge_requests p e parses dups keeps pairs s = Some st'"
    using Cons.prems(1) by (auto split: option.splits)
  obtain k t applied report where r: "get_txn (mq_keep pair) (lg_db (bs_ledger st)) = Some k"
    "get_txn (mq_duplicate pair) (lg_db (bs_ledger st)) = Some t" "mq_keep pair \<noteq> mq_duplicate pair"
    "refusal_reasons k t (mq_override pair) = ([], applied)"
    "merge_pair p e k t applied (bs_ledger st) = Inr (report, bs_ledger s)"
    by (rule request_merged[OF s(1) batch_mentions[OF s(2) Cons.prems(2), THEN conjunct1]]) blast
  have ids: "t_id k = mq_keep pair" "t_id t = mq_duplicate pair" using r(1,2) get_txn_Some by blast+
  have ne: "t_id k \<noteq> t_id t" using r(3) ids by simp
  note m = merge_pair_rows[OF r(5) ne r(1)[folded ids] r(2)[folded ids] not_refused(3)[OF r(4)] Cons.prems(3,4)]
  have "map money_facts (transactions (lg_db (bs_ledger s))) =
      filter (\<lambda>m. fst m \<noteq> mq_duplicate pair) (map money_facts (transactions (lg_db (bs_ledger st))))"
    unfolding m(1) ids filter_map by (simp add: comp_def money_facts_def)
  then show ?case using Cons.IH[OF s(2) Cons.prems(2) m(2,3)] by (auto simp: conj_commute intro!: filter_cong)
qed

text \<open>An answer of the batch.\<close>

lemma batch_answered:
  assumes "merge_duplicates nm p e pdf race pairs False L = (Batch_merged False reports, L')"
  obtains st where "merge_requests p e (parse_statements pdf pairs (lg_db L)) (map mq_duplicate pairs) (map mq_keep pairs) pairs
      \<lparr>bs_reports = [], bs_refusals = [], bs_proofs = [], bs_ledger = race L\<rparr> = Some st"
    "bs_refusals st = []" "failed_proofs nm p st = []" "L' = bs_ledger st" "reports = bs_reports st"
  using assms by (auto simp: merge_duplicates_def Let_def split: option.splits if_splits)

section \<open>Properties of the merge\<close>

text \<open>A sample: the alert row 7 and its twin 8 that a statement brought; 8 pays a debt and is named by a
  message of the chat and by an SMS.\<close>

definition twin_rows :: "txn list" where
  "twin_rows =
     [repayment\<lparr>t_account_id := Some 3, t_transaction_date := Some 10, t_reference_number := Some ''12345678''\<rparr>,
      repayment\<lparr>t_id := 8, t_account_id := Some 3, t_transaction_date := Some 11, t_email_type := ''bank_statement'',
        t_bank_statement_upload_id := Some 2, t_source := Some ''bank_statement''\<rparr>]"

definition twins :: ledger where
  "twins =
     prompted_debt\<lparr>
       lg_db := empty_db\<lparr>transactions := twin_rows, sms_messages := [\<lparr>sms_id = 4, sms_transaction_id = Some 8\<rparr>]\<rparr>,
       links := [\<lparr>ln_receivable = 1, ln_transaction = 8, ln_role = Payment\<rparr>],
       prompts := [],
       contexts := [\<lparr>mc_chat_id = 5, mc_message_id = 9, mc_outbound_delivery_id = Some 3, mc_transaction_id = Some 8\<rparr>]\<rparr>"

definition no_pdf :: pdf_reader where
  "no_pdf = (\<lambda>_. Inl Pdf_unavailable)"

definition twin_request :: merge_request where
  "twin_request = \<lparr>mq_keep = 7, mq_duplicate = 8, mq_override = []\<rparr>"

definition twin_batch :: "batch_answer \<times> ledger" where
  "twin_batch = merge_duplicates (\<lambda>s. s) sample_parse sample_env no_pdf (\<lambda>L. L) [twin_request] False twins"

lemma twins_ok: "db_ok (lg_db twins)" "ledger_ok twins"
  by code_simp+

lemma twin_merged:
  "case twin_batch of (ans, L') \<Rightarrow>
     ans = Batch_merged False [\<lparr>mr_keep = 7, mr_duplicate = 8, mr_conflicts = [], mr_cc_state = None, mr_overrides = []\<rparr>] \<and>
     set (mentions twins) = {8} \<and> set (mentions L') = {7} \<and> map t_id (transactions (lg_db L')) = [7]"
  by code_simp

lemma twin_answer: "merge_duplicates (\<lambda>s. s) sample_parse sample_env no_pdf (\<lambda>L. L) [twin_request] False twins =
    (Batch_merged False [\<lparr>mr_keep = 7, mr_duplicate = 8, mr_conflicts = [], mr_cc_state = None, mr_overrides = []\<rparr>],
     snd twin_batch)"
  using twin_merged by (simp add: twin_batch_def split_def prod_eq_iff)



text \<open>C15. A merged batch takes away exactly the duplicates: every other row stays in its place with its
  money, and the constraints of the transactions and of the receivables still hold.\<close>

theorem merge_keeps_other_rows:
  assumes "merge_duplicates nm p e pdf race pairs False L = (Batch_merged False reports, L')"
    "db_ok (lg_db (race L))" "ledger_ok (race L)"
  shows "map money_facts (transactions (lg_db L')) =
      map money_facts (filter (\<lambda>t. t_id t \<notin> set (map mq_duplicate pairs)) (transactions (lg_db (race L)))) \<and>
    db_ok (lg_db L') \<and> ledger_ok L'"
proof -
  obtain st where st: "merge_requests p e (parse_statements pdf pairs (lg_db L)) (map mq_duplicate pairs) (map mq_keep pairs) pairs
      \<lparr>bs_reports = [], bs_refusals = [], bs_proofs = [], bs_ledger = race L\<rparr> = Some st"
    "bs_refusals st = []" "L' = bs_ledger st"
    by (rule batch_answered[OF assms(1)]) blast
  show ?thesis using batch_rows[OF st(1,2)] assms(2,3)
    by (simp add: st(3) filter_map comp_def money_facts_def)
qed

theorem merge_keeps_other_rows_witness:
  "map t_id (transactions (lg_db (snd twin_batch))) = [7] \<and> db_ok (lg_db (snd twin_batch)) \<and> ledger_ok (snd twin_batch)"
proof -
  note k = merge_keeps_other_rows[OF twin_answer twins_ok]
  have "map t_id (transactions (lg_db (snd twin_batch))) =
      map fst (map money_facts (transactions (lg_db (snd twin_batch))))" by (simp add: money_facts_def)
  also have "\<dots> = map t_id (filter (\<lambda>t. t_id t \<notin> set (map mq_duplicate [twin_request])) (transactions (lg_db twins)))"
    using k by (simp add: money_facts_def comp_def)
  also have "\<dots> = [7]" by code_simp
  finally show ?thesis using k by blast
qed

text \<open>C17. Two rows merge without an override only when they agree in account, direction, amount and
  currency, lie at most a day apart, do not prove distinct by reference or balance, and neither is voided.\<close>

theorem merged_pair_agrees:
  assumes "merge_pair_no_commit p e keep_id dup_id L = Some (Inr (report, L'))"
  shows "\<exists>k t n. get_txn keep_id (lg_db L) = Some k \<and> get_txn dup_id (lg_db L) = Some t \<and>
    t_account_id k = t_account_id t \<and> t_direction k = t_direction t \<and> same_currency k t \<and> t_amount k = t_amount t \<and>
    days_apart k t = Some n \<and> n \<le> 1 \<and> \<not> refs_prove_distinct (t_reference_number k) (t_reference_number t) \<and>
    \<not> balances_differ k t \<and> t_voided k \<noteq> Some True \<and> t_voided t \<noteq> Some True"
proof -
  obtain k t where kt: "get_txn keep_id (lg_db L) = Some k" "get_txn dup_id (lg_db L) = Some t"
    using assms by (auto simp: merge_pair_no_commit_def Let_def pair_checks_def split: option.splits)
  let ?c = "pair_checks \<lparr>mq_keep = keep_id, mq_duplicate = dup_id, mq_override = []\<rparr> (Some k) (Some t) [dup_id] [keep_id]"
  have c: "fst ?c = []" "t_voided k \<noteq> Some True" "t_voided t \<noteq> Some True"
    using assms by (auto simp: merge_pair_no_commit_def Let_def kt split: if_splits)
  then obtain applied where r: "refusal_reasons k t [] = ([], applied)"
    by (cases "refusal_reasons k t []") (auto simp: pair_checks_def split: if_splits)
  note over = not_overridden(1)[OF r]
  have cur: "same_currency k t"
    using over[of "(\<not> same_currency k t, Currency_differs)"] by (auto simp: pair_refusals_def OVERRIDABLE_def)
  have refs: "\<not> refs_prove_distinct (t_reference_number k) (t_reference_number t)"
    using over[of "(refs_prove_distinct (t_reference_number k) (t_reference_number t), References_distinct)"]
    by (auto simp: pair_refusals_def OVERRIDABLE_def)
  obtain n where n: "days_apart k t = Some n" using not_refused(9)[OF r] by blast
  have "\<not> 1 < n"
  proof
    assume "1 < n"
    then show False using over[of "(case days_apart k t of None \<Rightarrow> False | Some n \<Rightarrow> DATE_WINDOW < n, Dates_apart)" Override_dates] n
    by (simp add: pair_refusals_def OVERRIDABLE_def DATE_WINDOW_def)
  qed
  then have "n \<le> 1" by simp
  then show ?thesis using kt not_refused[OF r] cur refs n c(2,3) by blast
qed

lemma twin_merged_alone:
  "case merge_pair_no_commit sample_parse sample_env 7 8 twins of Some (Inr _) \<Rightarrow> True | _ \<Rightarrow> False"
  by code_simp

theorem merged_pair_agrees_witness:
  "\<exists>k t. get_txn 7 (lg_db twins) = Some k \<and> get_txn 8 (lg_db twins) = Some t \<and> t_amount k = t_amount t"
proof -
  obtain report L' where "merge_pair_no_commit sample_parse sample_env 7 8 twins = Some (Inr (report, L'))"
    using twin_merged_alone by (auto split: option.splits sum.splits)
  from merged_pair_agrees[OF this] show ?thesis by blast
qed

section \<open>Overrides\<close>

text \<open>The proofs that a batch owes, one for every merge with an override.\<close>

lemma batch_proofs:
  assumes "merge_requests p e parses dups keeps pairs st = Some st'" "bs_refusals st' = []"
    "\<forall>r \<in> set (bs_reports st). mr_overrides r \<noteq> [] \<longrightarrow> mr_keep r \<in> pd_keep ` set (bs_proofs st)"
  shows "\<forall>r \<in> set (bs_reports st'). mr_overrides r \<noteq> [] \<longrightarrow> mr_keep r \<in> pd_keep ` set (bs_proofs st')"
  using assms
proof (induction pairs arbitrary: st)
  case Nil
  then show ?case by simp
next
  case (Cons pair pairs)
  obtain s where s: "merge_request_step p e parses dups keeps pair st = Some s"
    "merge_requests p e parses dups keeps pairs s = Some st'"
    using Cons.prems(1) by (auto split: option.splits)
  have none: "bs_refusals s = []" using batch_mentions[OF s(2) Cons.prems(2)] by blast
  obtain report x where "bs_reports s = bs_reports st @ [report]"
    "bs_proofs s = bs_proofs st @ (if mr_overrides report = [] then [] else [x])" "pd_keep x = mr_keep report"
    by (rule request_proof[OF s(1) none])
  then have "\<forall>r \<in> set (bs_reports s). mr_overrides r \<noteq> [] \<longrightarrow> mr_keep r \<in> pd_keep ` set (bs_proofs s)"
    using Cons.prems(3) by auto
  from Cons.IH[OF s(2) Cons.prems(2) this] show ?case .
qed

lemma map_filter_nil: "List.map_filter f xs = [] \<longleftrightarrow> (\<forall>x \<in> set xs. f x = None)"
  by (simp add: List.map_filter_def filter_empty_conv)

lemma reparse_accepts:
  assumes "find_reparse_refusal nm p keep dup stored d = None"
  shows "\<exists>s r. stored = Inr s \<and> reconcile_parsed_statement nm p True s d = Inr r \<and>
    parse_shortfall (st_ref s) (sc_preview r) 0 d = None \<and> t_id keep \<in> set (sc_matched_ids r)"
  using assms by (auto simp: find_reparse_refusal_def Let_def split: sum.splits if_splits option.splits)


text \<open>The twins three days apart, and the statement of the twin: its one line is the alert.\<close>

definition far_twins :: ledger where
  "far_twins = twins\<lparr>lg_db := empty_db\<lparr>
     transactions := [(twin_rows ! 0)\<lparr>t_account_id := Some 1\<rparr>,
       (twin_rows ! 1)\<lparr>t_account_id := Some 1, t_transaction_date := Some 13, t_bank_statement_upload_id := Some 1\<rparr>],
     accounts := [blank_account], bank_uploads := [new_upload 1 1 ''hdfc'' ''parsed'' None]\<rparr>\<rparr>"

definition one_line_pdf :: pdf_reader where
  "one_line_pdf = (\<lambda>_. Inr (Bank_document (sample_statement\<lparr>ps_lines := [sample_line\<lparr>sl_direction := ''credit''\<rparr>]\<rparr>)))"

definition far_batch :: "override list \<Rightarrow> batch_answer \<times> ledger" where
  "far_batch os = merge_duplicates (\<lambda>s. s) sample_dates sample_env one_line_pdf (\<lambda>L. L)
     [twin_request\<lparr>mq_override := os\<rparr>] False far_twins"

lemma far_merged:
  "fst (far_batch [Override_dates]) = Batch_merged False
     [\<lparr>mr_keep = 7, mr_duplicate = 8, mr_conflicts = [], mr_cc_state = None, mr_overrides = [Override_dates]\<rparr>]"
  "fst (far_batch []) = Batch_refused [(7, 8, [Dates_apart])]"
  by code_simp+


end
