(* ===== verification/Phantom_Facts.thy ===== *)
theory Phantom_Facts
  imports Duplicate_Batch
begin

text \<open>
  What the delete of phantoms guarantees: a row goes only on the proof of today's parse, and nothing
  that stays names it.
\<close>

section \<open>One delete\<close>

lemma delete_phantom_frame:
  "transactions (lg_db (delete_phantom e t L)) = filter (\<lambda>r. t_id r \<noteq> t_id t) (transactions (lg_db L))"
  by (simp add: delete_phantom_def delete_row_def audit_delete_def move_references_rows)

lemma audit_delete_mentions: "set (db_mentions (audit_delete i d)) = set (db_mentions d)"
  by (auto simp: audit_delete_def db_mentions_def in_named_ids)

lemma delete_phantom_mentions: "set (mentions (delete_phantom e t L)) \<subseteq> set (mentions L) - {t_id t}"
proof -
  let ?M = "move_references e (t_id t) None L"
  have "set (db_mentions (delete_row (t_id t) (audit_delete (t_id t) (lg_db ?M)))) \<subseteq> set (db_mentions (lg_db ?M)) \<union> {}"
    by (simp add: audit_delete_mentions)
  then have "set (mentions (delete_phantom e t L)) \<subseteq> set (mentions ?M) \<union> {}"
    unfolding delete_phantom_def by (rule mentions_on_db)
  then show ?thesis using mentions_moved[of None "t_id t" e L] by auto
qed

text \<open>What a row without a refusal has shown, whatever the ledger was.\<close>

definition proved_phantom :: "phantom_checks \<Rightarrow> txn \<Rightarrow> bool" where
  "proved_phantom checks t \<longleftrightarrow>
     t \<in> set (pc_rows checks) \<and> t_sms_message_id t = None \<and> t_email_id t = None \<and>
     \<not> truthy (t_attachment_path t) \<and> \<not> truthy (t_note t) \<and>
     (case statement_of t of
        None \<Rightarrow> False
      | Some ref \<Rightarrow> (case map_of (pc_statements checks) ref of Some (Inr unheld) \<Rightarrow> t_id t \<in> set unheld | _ \<Rightarrow> False))"

lemma no_reasons:
  assumes "phantom_reasons p t checks d = []"
  shows "proved_phantom checks t"
proof -
  obtain ref where ref: "statement_of t = Some ref"
    using assms by (auto simp: phantom_reasons_def split: option.splits)
  have "find (\<lambda>r. t_id r = t_id t) (pc_rows checks) = Some t"
    using assms ref by (simp add: phantom_reasons_def split: if_splits)
  then have "t \<in> set (pc_rows checks)" by (simp add: find_SomeD)
  then show ?thesis
    using assms ref by (auto simp: phantom_reasons_def proved_phantom_def split: if_splits option.splits sum.splits)
qed

lemma phantom_step_deletes:
  assumes "ph_refusals (phantom_step p e checks i st) = []"
  obtains t where "get_txn i (lg_db (ph_ledger st)) = Some t" "proved_phantom checks t"
    "phantom_step p e checks i st = st\<lparr>ph_deleted := ph_deleted st @ [t], ph_ledger := delete_phantom e t (ph_ledger st)\<rparr>"
    "ph_refusals st = []"
proof -
  obtain t where t: "get_txn i (lg_db (ph_ledger st)) = Some t"
    using assms by (auto simp: phantom_step_def split: option.splits)
  have r: "phantom_reasons p t checks (lg_db (ph_ledger st)) = []"
    using assms by (auto simp: phantom_step_def t Let_def split: if_splits)
  show thesis by (rule that[OF t no_reasons[OF r]]) (use assms r in \<open>simp_all add: phantom_step_def t\<close>)
qed

section \<open>A whole batch\<close>

lemma phantoms_folded:
  assumes "ph_refusals (fold (phantom_step p e checks) ids st) = []"
  defines "st' \<equiv> fold (phantom_step p e checks) ids st"
  shows "ph_refusals st = [] \<and>
    transactions (lg_db (ph_ledger st')) = filter (\<lambda>t. t_id t \<notin> set ids) (transactions (lg_db (ph_ledger st))) \<and>
    set (mentions (ph_ledger st')) \<subseteq> set (mentions (ph_ledger st)) - set ids \<and>
    (\<forall>t \<in> set (ph_deleted st'). t \<in> set (ph_deleted st) \<or>
       t \<in> set (transactions (lg_db (ph_ledger st))) \<and> t_id t \<in> set ids \<and> proved_phantom checks t)"
  using assms(1) unfolding st'_def
proof (induction ids arbitrary: st)
  case Nil
  then show ?case by simp
next
  case (Cons i ids)
  let ?s = "phantom_step p e checks i st"
  have run: "ph_refusals (fold (phantom_step p e checks) ids ?s) = []" using Cons.prems by simp
  note ih = Cons.IH[OF run]
  have "ph_refusals ?s = []" using ih by blast
  from phantom_step_deletes[OF this]
  obtain t where t: "get_txn i (lg_db (ph_ledger st)) = Some t" "proved_phantom checks t"
    and s: "?s = st\<lparr>ph_deleted := ph_deleted st @ [t], ph_ledger := delete_phantom e t (ph_ledger st)\<rparr>"
    and none: "ph_refusals st = []" by blast
  have ti: "t \<in> set (transactions (lg_db (ph_ledger st)))" "t_id t = i" using get_txn_Some[OF t(1)] by blast+
  let ?st' = "fold (phantom_step p e checks) ids ?s"
  have rows: "transactions (lg_db (ph_ledger ?s)) = filter (\<lambda>r. t_id r \<noteq> i) (transactions (lg_db (ph_ledger st)))"
    by (simp add: s delete_phantom_frame ti)
  have m: "set (mentions (ph_ledger ?s)) \<subseteq> set (mentions (ph_ledger st)) - {i}"
    using delete_phantom_mentions[of e t "ph_ledger st"] by (simp add: s ti)
  have "transactions (lg_db (ph_ledger ?st')) = filter (\<lambda>t. t_id t \<notin> set (i # ids)) (transactions (lg_db (ph_ledger st)))"
    using ih rows by (auto intro!: filter_cong)
  moreover have "set (mentions (ph_ledger ?st')) \<subseteq> set (mentions (ph_ledger st)) - set (i # ids)"
    using ih m by fastforce
  moreover have "\<forall>u \<in> set (ph_deleted ?st'). u \<in> set (ph_deleted st) \<or>
       u \<in> set (transactions (lg_db (ph_ledger st))) \<and> t_id u \<in> set (i # ids) \<and> proved_phantom checks u"
  proof
    fix u
    assume "u \<in> set (ph_deleted ?st')"
    then have "u \<in> set (ph_deleted ?s) \<or>
        u \<in> set (transactions (lg_db (ph_ledger ?s))) \<and> t_id u \<in> set ids \<and> proved_phantom checks u" using ih by blast
    then show "u \<in> set (ph_deleted st) \<or>
       u \<in> set (transactions (lg_db (ph_ledger st))) \<and> t_id u \<in> set (i # ids) \<and> proved_phantom checks u"
      unfolding rows using s ti t(2) by auto
  qed
  ultimately show ?case using none by simp
qed

lemma check_proves:
  assumes "proved_phantom (check_statements nm p pdf ids d) t"
  obtains ref n r c where "statement_of t = Some ref" "t \<in> set (transactions d)"
    "reconcile_stored_statement nm p pdf ref d = Inr (Some r)" "parse_shortfall ref (sc_preview r) n d = None" "0 < n"
    "t_id t \<in> set (sc_extra_ids r)" "sc_candidate_ids r = Some c" "t_id t \<notin> set c"
proof -
  let ?rows = "filter (\<lambda>t. t_id t \<in> set ids) (transactions d)"
  let ?refs = "List.map_filter statement_of ?rows"
  obtain ref unheld where ref: "statement_of t = Some ref" "t \<in> set ?rows"
    "map_of (map (\<lambda>ref. (ref, unheld_by nm p pdf ref (count_list ?refs ref) d)) (remdups ?refs)) ref = Some (Inr unheld)"
    "t_id t \<in> set unheld"
    using assms by (auto simp: proved_phantom_def check_statements_def Let_def split: option.splits sum.splits)
  have "ref \<in> set ?refs" using ref(1,2) by (auto simp: in_map_filter_iff)
  then have n: "0 < count_list ?refs ref" by (metis count_list_0_iff gr0I)
  have "unheld_by nm p pdf ref (count_list ?refs ref) d = Inr unheld"
    using map_of_SomeD[OF ref(3)] by auto
  then obtain r c where r: "reconcile_stored_statement nm p pdf ref d = Inr (Some r)"
    "parse_shortfall ref (sc_preview r) (count_list ?refs ref) d = None" "sc_candidate_ids r = Some c"
    "unheld = filter (\<lambda>i. i \<notin> set c) (sc_extra_ids r)"
    by (auto simp: unheld_by_def split: sum.splits option.splits)
  show thesis by (rule that[OF ref(1) _ r(1,2) n _ r(3)]) (use ref(2,4) r(4) in auto)
qed

section \<open>Properties\<close>

text \<open>C18. A row is deleted only on proof: it is the import of a statement, the same before and after the
  parse, with no message, file or note of its own, and today's parse of its statement, which lost no other
  line, leaves it over and names it neither as the match of a line nor as a candidate.\<close>

theorem phantom_needs_proof:
  assumes "delete_phantoms nm p e pdf race ids dry L = (Phantoms_deleted b rows, L')" "t \<in> set rows"
  shows "\<exists>ref r n c. statement_of t = Some ref \<and> t \<in> set (transactions (lg_db L)) \<and> t \<in> set (transactions (lg_db (race L))) \<and>
    t_sms_message_id t = None \<and> t_email_id t = None \<and> \<not> truthy (t_attachment_path t) \<and> \<not> truthy (t_note t) \<and>
    reconcile_stored_statement nm p pdf ref (lg_db L) = Inr (Some r) \<and> parse_shortfall ref (sc_preview r) n (lg_db L) = None \<and>
    t_id t \<in> set (sc_extra_ids r) \<and> sc_candidate_ids r = Some c \<and> t_id t \<notin> set c"
proof -
  let ?c = "check_statements nm p pdf ids (lg_db L)"
  let ?st = "fold (phantom_step p e ?c) ids \<lparr>ph_deleted = [], ph_refusals = [], ph_ledger = race L\<rparr>"
  have st: "ph_refusals ?st = []" "rows = ph_deleted ?st"
    using assms(1) by (auto simp: delete_phantoms_def Let_def split: if_splits)
  have t: "t \<in> set (transactions (lg_db (race L)))" "proved_phantom ?c t"
    using phantoms_folded[OF st(1)] assms(2) st(2) by auto
  obtain ref n r c where r: "statement_of t = Some ref" "t \<in> set (transactions (lg_db L))"
    "reconcile_stored_statement nm p pdf ref (lg_db L) = Inr (Some r)" "parse_shortfall ref (sc_preview r) n (lg_db L) = None"
    "t_id t \<in> set (sc_extra_ids r)" "sc_candidate_ids r = Some c" "t_id t \<notin> set c"
    by (rule check_proves[OF t(2)]) blast
  have own: "t_sms_message_id t = None" "t_email_id t = None" "\<not> truthy (t_attachment_path t)" "\<not> truthy (t_note t)"
    using t(2) by (simp_all add: proved_phantom_def)
  show ?thesis using r own t(1) by (intro exI conjI)
qed


text \<open>A sample: row 9 came from a statement whose one line is row 7.\<close>

definition phantom_ledger :: ledger where
  "phantom_ledger = far_twins\<lparr>lg_db := (lg_db far_twins)\<lparr>
     transactions := [(twin_rows ! 0)\<lparr>t_account_id := Some 1\<rparr>,
       (twin_rows ! 1)\<lparr>t_id := 9, t_account_id := Some 1, t_transaction_date := Some 10, t_amount := 250,
         t_bank_statement_upload_id := Some 1\<rparr>],
     sms_messages := []\<rparr>,
     contexts := [\<lparr>mc_chat_id = 5, mc_message_id = 9, mc_outbound_delivery_id = Some 3, mc_transaction_id = Some 9\<rparr>]\<rparr>"

definition phantom_run :: "int list \<Rightarrow> phantom_answer \<times> ledger" where
  "phantom_run ids = delete_phantoms (\<lambda>s. s) sample_dates sample_env one_line_pdf (\<lambda>L. L) ids False phantom_ledger"

lemma phantom_deleted:
  "case phantom_run [9] of (Phantoms_deleted b rows, L') \<Rightarrow> b = False \<and> map t_id rows = [9] | _ \<Rightarrow> False"
  "fst (phantom_run [7]) = Phantoms_refused [(7, [Not_an_import])]"
  by code_simp+

lemma phantom_answer:
  obtains t L' where "delete_phantoms (\<lambda>s. s) sample_dates sample_env one_line_pdf (\<lambda>L. L) [9] False phantom_ledger =
    (Phantoms_deleted False [t], L')" "t_id t = 9"
  using phantom_deleted(1) by (auto simp: phantom_run_def split: phantom_answer.splits prod.splits)

theorem phantom_needs_proof_witness:
  "\<exists>r. reconcile_stored_statement (\<lambda>s. s) sample_dates one_line_pdf (Bank, 1) (lg_db phantom_ledger) = Inr (Some r) \<and>
    9 \<in> set (sc_extra_ids r)"
proof -
  obtain t L' where run: "delete_phantoms (\<lambda>s. s) sample_dates sample_env one_line_pdf (\<lambda>L. L) [9] False phantom_ledger =
    (Phantoms_deleted False [t], L')" "t_id t = 9" by (rule phantom_answer)
  obtain ref r where r: "statement_of t = Some ref" "t \<in> set (transactions (lg_db phantom_ledger))"
    "reconcile_stored_statement (\<lambda>s. s) sample_dates one_line_pdf ref (lg_db phantom_ledger) = Inr (Some r)"
    "t_id t \<in> set (sc_extra_ids r)"
    using phantom_needs_proof[OF run(1), of t] by auto
  have "ref = (Bank, 1)"
    using r(1,2) run(2) by (auto simp: phantom_ledger_def twin_rows_def repayment_def blank_txn_def statement_of_def)
  then show ?thesis using r(3,4) run(2) by auto
qed


end
