(* ===== verification/Category_Rules.thy ===== *)
theory Category_Rules
  imports Category_Followups Buckets "HOL-Library.Product_Lexorder" "HOL-Library.Sublist"
begin

text \<open>
  The deterministic rules that run before the model: \<^verbatim>\<open>categorization/rules.py\<close> with its markers,
  the table of merchant rules of \<^verbatim>\<open>categorization/merchant_rules.py\<close> and the built-in rules of
  \<^verbatim>\<open>categorization/merchant_defaults.py\<close> that \<open>init_db\<close> seeds. The cache of active rules and the settings
  of the owner's names are arguments.
\<close>

section \<open>The table of merchant rules\<close>

text \<open>\<open>MIN_PATTERN_LENGTH\<close>: a shorter pattern matches almost every row.\<close>

definition MIN_PATTERN_LENGTH :: nat where
  "MIN_PATTERN_LENGTH = 3"

definition rule_order :: "merchant_rule \<Rightarrow> int \<times> int \<times> int" where
  "rule_order r = (ml_priority r, - int (length (ml_pattern r)), ml_id r)"

definition load_merchant_rules :: "merchant_rule list \<Rightarrow> (string \<times> string) list" where
  "load_merchant_rules rows =
     map (\<lambda>r. (ml_pattern r, ml_category r))
       (filter (\<lambda>r. py_strip (ml_pattern r) \<noteq> []) (sort_key rule_order (filter ml_active rows)))"

datatype rule_error = Pattern_too_short | Slug_invalid | Category_unknown

text \<open>\<open>INSERT ... ON CONFLICT(pattern) DO UPDATE\<close>.\<close>

definition upsert_rule :: "string \<Rightarrow> string \<Rightarrow> int \<Rightarrow> merchant_rule list \<Rightarrow> merchant_rule list" where
  "upsert_rule pattern category priority rows =
     (if list_ex (\<lambda>r. ml_pattern r = pattern) rows
      then update_where (\<lambda>r. ml_pattern r = pattern)
        (\<lambda>r. r\<lparr>ml_category := category, ml_active := True, ml_priority := priority\<rparr>) rows
      else rows @ [\<lparr>ml_id = next_id (map ml_id rows), ml_pattern = pattern, ml_category = category,
        ml_active = True, ml_priority = priority\<rparr>])"

definition add_merchant_rule :: "string \<Rightarrow> string \<Rightarrow> int \<Rightarrow> db \<Rightarrow> rule_error + string \<times> db" where
  "add_merchant_rule raw category priority d =
     (let pattern = normalize_text (Some raw) in
      if length pattern < MIN_PATTERN_LENGTH then Inl Pattern_too_short
      else if \<not> is_valid_slug category then Inl Slug_invalid
      else if \<not> list_ex (\<lambda>c. k_slug c = category \<and> k_active c) (categories d) then Inl Category_unknown
      else Inr (pattern, d\<lparr>merchant_rules := upsert_rule pattern category priority (merchant_rules d)\<rparr>))"

definition save_merchant_rule :: "string \<Rightarrow> string \<Rightarrow> int \<Rightarrow> db \<Rightarrow> rule_error + merchant_rule option \<times> db" where
  "save_merchant_rule raw category priority d =
     (case add_merchant_rule raw category priority d of
        Inl err \<Rightarrow> Inl err
      | Inr (stored, d') \<Rightarrow> Inr (the_single (filter (\<lambda>r. ml_pattern r = stored) (merchant_rules d')), d'))"

text \<open>The row stays as a tombstone, so that the seeding does not bring it back.\<close>

definition deactivate_merchant_rule :: "int \<Rightarrow> db \<Rightarrow> bool \<times> db" where
  "deactivate_merchant_rule i d =
     (list_ex (\<lambda>r. ml_id r = i \<and> ml_active r) (merchant_rules d),
      d\<lparr>merchant_rules := update_where (\<lambda>r. ml_id r = i \<and> ml_active r) (\<lambda>r. r\<lparr>ml_active := False\<rparr>) (merchant_rules d)\<rparr>)"

definition DEFAULT_MERCHANT_RULES :: "(string \<times> string list) list" where
  "DEFAULT_MERCHANT_RULES =
     [(''credit_card_payment'',
         [''credit card bill payment'', ''bppy cc payment'', ''cc payment'', ''credit card payment'',
          ''bill repayment'', ''bbps pmt'', ''innopay'', ''cred club'', ''payment on cred'',
          ''bbps payment received'', ''payment received'', ''repayment thank you'', ''cheq digit'',
          ''vi ind rt'', ''paid via navi'', ''navitechnologie'', ''navircbp'', ''cf navitechnolo'',
          ''bajaj finance'', ''bajajfinance'', ''bajajfinserv'']),
      (''salary'',
         [''rippling'', ''people center inc'', ''nium pte'', ''payroll'']),
      (''investment'',
         [''zerodha'', ''iccl'', ''raise securities'', ''raise se'', ''raisesecurities'',
          ''employee provident fund'', ''epfo'']),
      (''dining'',
         [''swiggy'', ''zomato'', ''eazydiner'', ''gustoso'', ''mcdonald'', ''kfc'',
          ''california burrito'', ''two good sisters'']),
      (''cafe'',
         [''the coffee machine'', ''coffee nation'', ''blue tokai'', ''bluetokai'', ''starbucks'',
          ''tim hortons'']),
      (''groceries'',
         [''blinkit'', ''zepto'', ''instamart'', ''bigbasket'', ''jp2100001'']),
      (''shopping'',
         [''ishop'', ''asspl'', ''amazon'', ''flipkart'', ''myntra'', ''ajio'', ''nykaa'', ''croma'',
          ''uniqlo'', ''reward 360'', ''reward360'', ''cred voucher'']),
      (''transport'',
         [''uber'', ''pune metro'', ''careem'', ''taxi'', ''limousine'']),
      (''car_maintenance'',
         [''skoda'', ''wonder cars'']),
      (''healthcare'',
         [''noble plus'', ''reliance foundat'', ''apollo'']),
      (''fuel'',
         [''bharat petroleu'']),
      (''travel'',
         [''makemytrip'', ''irctc'', ''loungeone'', ''pay www lou'', ''pax innovat'']),
      (''entertainment'',
         [''bookmyshow'', ''orbgen'']),
      (''cashback_rewards'',
         [''supermoney1'', ''converted to statement credit'', ''cashback'', ''poweraccess pa'',
          ''poweraccess on'']),
      (''refund'',
         [''poweraccess cr'']),
      (''utilities'',
         [''hathway'', ''airtel'']),
      (''self_transfer'',
         [''addmoney'', ''walletwithd'', ''revolutpayments'']),
      (''gift'',
         [''shaadi'', ''shagun'', ''birthday'', ''anniversary'', ''belated'']),
      (''tax'',
         [''tin2'', ''dtax'']),
      (''tax_refund'',
         [''itdtax refund''])]"

text \<open>The seeding of \<^verbatim>\<open>db/init_db.py\<close>, \<open>INSERT OR IGNORE\<close>.\<close>

definition seed_rule :: "string \<times> string \<Rightarrow> merchant_rule list \<Rightarrow> merchant_rule list" where
  "seed_rule x rows =
     (case x of (category, pattern) \<Rightarrow>
        if list_ex (\<lambda>r. ml_pattern r = pattern) rows then rows
        else rows @ [\<lparr>ml_id = next_id (map ml_id rows), ml_pattern = pattern, ml_category = category,
          ml_active = True, ml_priority = 100\<rparr>])"

definition seed_default_rules :: "merchant_rule list \<Rightarrow> merchant_rule list" where
  "seed_default_rules rows =
     fold seed_rule (concat (map (\<lambda>(category, patterns). map (Pair category) patterns) DEFAULT_MERCHANT_RULES)) rows"

section \<open>Markers\<close>

definition CARD_BILL_PAYMENT_MARKERS :: "string list" where
  "CARD_BILL_PAYMENT_MARKERS =
     [''cc payment'', ''credit card payment'', ''card payment'', ''bill payment'',
      ''bill repayment'', ''bppy'', ''bbps pmt'', ''payment received'']"

definition CARD_REFUND_MARKERS :: "string list" where
  "CARD_REFUND_MARKERS =
     [''refund'', ''refunded'', ''reversal'', ''reversed'', ''chargeback'', ''cancellation'']"

definition FEE_REVERSAL_MARKERS :: "string list" where
  "FEE_REVERSAL_MARKERS =
     [''fee reversal'', ''fee reversed'', ''fee refund'', ''fee waived'', ''fees reversed'',
      ''fees refund'', ''fees waived'', ''annual fee reversal'', ''annual fee reversed'',
      ''annual fee refund'', ''annual charges reversal'', ''annual charges reversed'',
      ''joining fee reversal'', ''joining fee reversed'', ''card fee reversal'',
      ''card fee reversed'', ''late fee reversal'', ''late fee reversed'',
      ''finance charges reversal'', ''finance charges reversed'']"

definition DIVIDEND_MARKERS :: "string list" where
  "DIVIDEND_MARKERS =
     [''dividend'', ''div'', ''divd'']"

definition has_marker :: "string \<Rightarrow> string list \<Rightarrow> bool" where
  "has_marker text_norm markers \<longleftrightarrow>
     list_ex (\<lambda>m. sublist ('' '' @ m @ '' '') ('' '' @ text_norm @ '' '')) markers"

section \<open>The rules\<close>

record rule_config =
  self_name_tokens :: "string list"
  rule_cache :: "(string \<times> string) list"

definition default_rule_config :: rule_config where
  "default_rule_config = \<lparr>self_name_tokens = [''self''], rule_cache = []\<rparr>"

text \<open>\<open>tokens\<close> are the owner's names of the settings.\<close>

definition load_rule_config :: "string list \<Rightarrow> (string \<times> string) list \<Rightarrow> rule_config" where
  "load_rule_config tokens cache =
     \<lparr>self_name_tokens =
        rev (remdups (rev (self_name_tokens default_rule_config @
          map py_lower (filter (\<lambda>t. 3 \<le> length t) tokens)))),
      rule_cache = cache\<rparr>"

record rule_fields =
  rf_counterparty :: "string option"
  rf_raw_description :: "string option"
  rf_channel :: "string option"
  rf_email_type :: "string option"
  rf_direction :: "string option"
  rf_bank :: "string option"
  rf_account_type :: "string option"

type_synonym rule_result = "string \<times> decimal"

definition narration :: "rule_fields \<Rightarrow> string" where
  "narration f =
     normalize_text (Some (join_words (filter (\<lambda>s. s \<noteq> []) [or_empty (rf_counterparty f), or_empty (rf_raw_description f)])))"

definition f_direction :: "rule_fields \<Rightarrow> string" where
  "f_direction f = py_lower (or_empty (rf_direction f))"

definition f_channel :: "rule_fields \<Rightarrow> string" where
  "f_channel f = py_lower (or_empty (rf_channel f))"

definition is_card_credit :: "rule_fields \<Rightarrow> bool" where
  "is_card_credit f \<longleftrightarrow> f_direction f = ''credit'' \<and> rf_account_type f = Some ''credit_card''"

text \<open>The rules before the merchant rules, in their order.\<close>

definition structural_rules :: "rule_fields \<Rightarrow> rule_result option" where
  "structural_rules f =
     (let text_norm = narration f; direction = f_direction f; email_type = py_lower (or_empty (rf_email_type f)) in
      if is_fd_counterparty (rf_counterparty f) (rf_bank f) then
        Some (if direction = ''credit'' then ''investment_redemption'' else ''investment'', 95/100)
      else if f_channel f = ''interest'' \<and> direction \<noteq> ''debit'' then Some (''interest'', 1)
      else if sublist ''cc_refund'' email_type \<or> suffix ''refund_screenshot'' email_type then Some (''refund'', 9/10)
      else if sublist ''cc_payment'' email_type \<or> sublist ''cc_bill_paid'' email_type \<or> sublist ''cc_smartpay'' email_type
      then Some (''credit_card_payment'', 95/100)
      else if direction = ''credit'' \<and> has_marker text_norm FEE_REVERSAL_MARKERS then Some (''fees_charges'', 9/10)
      else if is_card_credit f \<and> has_marker text_norm CARD_REFUND_MARKERS then Some (''refund'', 9/10)
      else if is_card_credit f \<and> (has_marker text_norm CARD_BILL_PAYMENT_MARKERS \<or> prefix ''payment '' text_norm)
      then Some (''credit_card_payment'', 95/100)
      else if direction = ''credit'' \<and> \<not> is_card_credit f \<and> has_marker text_norm DIVIDEND_MARKERS
      then Some (''other_income'', 9/10)
      else None)"

text \<open>Whether the direction or a card purchase alert rules a merchant rule out.\<close>

definition rule_applies :: "user_slugs \<Rightarrow> rule_fields \<Rightarrow> string \<times> string \<Rightarrow> bool" where
  "rule_applies us f x \<longleftrightarrow>
     (case x of (pattern, category) \<Rightarrow>
        \<not> (sublist ''spent on'' (narration f) \<and> sublist ''credit card'' (narration f) \<and> category = ''credit_card_payment'') \<and>
        \<not> (f_direction f = ''credit'' \<and> is_expense_slug us category) \<and>
        \<not> (f_direction f = ''debit'' \<and> is_income_slug us category) \<and>
        sublist pattern (narration f))"

definition merchant_rule_hit :: "user_slugs \<Rightarrow> rule_fields \<Rightarrow> (string \<times> string) list \<Rightarrow> rule_result option" where
  "merchant_rule_hit us f rules =
     map_option (\<lambda>(pattern, category).
         (if category = ''investment'' \<and> f_direction f = ''credit'' then ''investment_redemption'' else category, 9/10))
       (find (rule_applies us f) rules)"

definition fallback_rules :: "rule_config \<Rightarrow> rule_fields \<Rightarrow> rule_result option" where
  "fallback_rules cfg f =
     (let cp_norm = normalize_counterparty (rf_counterparty f) in
      if f_direction f = ''credit'' \<and> \<not> is_card_credit f \<and>
         (f_channel f = ''ach_credit'' \<or> prefix ''ach c '' (narration f))
      then Some (''other_income'', 9/10)
      else if list_ex (\<lambda>t. normalize_counterparty (Some t) \<noteq> [] \<and> sublist (normalize_counterparty (Some t)) cp_norm)
        (self_name_tokens cfg)
      then Some (''self_transfer'', 9/10)
      else if is_card_credit f then Some (''credit_card_payment'', 7/10)
      else None)"

definition match_rules :: "user_slugs \<Rightarrow> rule_config \<Rightarrow> rule_fields \<Rightarrow> rule_result option" where
  "match_rules us cfg f =
     (case structural_rules f of
        Some r \<Rightarrow> Some r
      | None \<Rightarrow>
          (case merchant_rule_hit us f (rule_cache cfg) of Some r \<Rightarrow> Some r | None \<Rightarrow> fallback_rules cfg f))"

end
