(* ===== verification/Category_Review.thy ===== *)
theory Category_Review
  imports Category_Rules Outbox Sequence_Matcher
begin

text \<open>
  The answer of the model and the questions to the owner: \<open>parse_result\<close> of \<^verbatim>\<open>categorization/llm.py\<close>,
  \<^verbatim>\<open>categorization/manual.py\<close> and \<^verbatim>\<open>categorization/review_decisions.py\<close>. The cached vocabulary version is
  the stored one.
\<close>

section \<open>The answer of the model\<close>

text \<open>The decoded JSON: \<open>None\<close> is a confidence that is no finite number, or candidates that are no list.
  An item that is no object is left out.\<close>

record llm_json =
  lj_category :: string
  lj_confidence :: "decimal option"
  lj_reason :: string
  lj_candidates :: "(string \<times> decimal option) list option"

record merchant_search =
  ms_status :: string
  ms_urls :: "string list"

record llm_result =
  lr_slug :: string
  lr_confidence :: decimal
  lr_reason :: string
  lr_candidates :: "(string \<times> decimal) list"
  lr_search :: "merchant_search option"

definition NEEDS_REVIEW :: string where
  "NEEDS_REVIEW = ''needs_review''"

definition clamp :: "decimal option \<Rightarrow> decimal" where
  "clamp c = (case c of None \<Rightarrow> 0 | Some x \<Rightarrow> max 0 (min 1 x))"

fun parse_candidates :: "string list \<Rightarrow> (string \<times> decimal option) list \<Rightarrow> (string \<times> decimal) list \<Rightarrow> (string \<times> decimal) list" where
  "parse_candidates active [] found = found"
| "parse_candidates active ((raw, c) # items) found =
     (let slug = py_strip raw in
      if slug \<notin> set active \<or> slug \<in> fst ` set found then parse_candidates active items found
      else let found' = found @ [(slug, clamp c)] in
           if length found' = 3 then found' else parse_candidates active items found')"

definition parse_result :: "llm_json \<Rightarrow> string list \<Rightarrow> llm_result" where
  "parse_result j active =
     (let slug = py_strip (lj_category j); conf = clamp (lj_confidence j) in
      if slug \<noteq> NEEDS_REVIEW \<and> slug \<notin> set active
      then \<lparr>lr_slug = NEEDS_REVIEW, lr_confidence = conf, lr_reason = ''invalid model category slug: '' @ slug,
             lr_candidates = [], lr_search = None\<rparr>
      else \<lparr>lr_slug = slug, lr_confidence = conf, lr_reason = take 300 (lj_reason j),
             lr_candidates = (case lj_candidates j of None \<Rightarrow> [] | Some items \<Rightarrow> parse_candidates active items []),
             lr_search = None\<rparr>)"

section \<open>Manual assignment\<close>

datatype direction_policy = Inferred_strict | Explicit_manual_override

definition find_manual_category :: "string \<Rightarrow> category list \<Rightarrow> category option" where
  "find_manual_category raw cs =
     (let slug = canonicalize_slug (py_strip raw) in
      if \<not> is_valid_slug slug then None else find (\<lambda>c. k_slug c = slug) cs)"

definition resolve_assistant_category_slug :: "string \<Rightarrow> category list \<Rightarrow> string option \<times> bool" where
  "resolve_assistant_category_slug raw cs =
     (let slug = canonicalize_slug raw; active = map k_slug (filter k_active cs) in
      if slug \<in> set active then (Some slug, False)
      else case rev (sort (map (\<lambda>c. (sequence_ratio slug c, c)) active)) of
        [] \<Rightarrow> (None, False)
      | (best, c) # rest \<Rightarrow>
          if best < 82/100 then (None, False)
          else (case rest of
                  (second, _) # _ \<Rightarrow> if best - second < 8/100 then (None, False) else (Some c, True)
                | [] \<Rightarrow> (Some c, True)))"

definition assign_category_no_commit ::
    "user_slugs \<Rightarrow> env \<Rightarrow> int \<Rightarrow> string option \<Rightarrow> string \<Rightarrow> direction_policy \<Rightarrow> int option \<Rightarrow> db \<Rightarrow> (bool \<times> string option) \<times> db" where
  "assign_category_no_commit us e tid raw actor policy preserve d =
     (case get_txn tid d of
        None \<Rightarrow> ((False, None), d)
      | Some t \<Rightarrow>
          let cleaned = py_strip (or_empty raw) in
          if cleaned = [] then
            ((True, None),
             supersede_active_decisions e tid preserve
               (write_txn tid (\<lambda>t. t\<lparr>t_category := None, t_category_method := Some ''manual'', t_category_confidence := Some 1,
                  t_categorized_at := Some (e_now e), t_review_status := Some ''resolved''\<rparr>) d))
          else case find_manual_category cleaned (categories d) of
            None \<Rightarrow> ((False, None), d)
          | Some c \<Rightarrow>
              if policy = Inferred_strict \<and>
                 (\<not> k_active c \<or> fst (resolve_direction us (k_slug c) (t_direction t) (account_type d t)) \<noteq> k_slug c)
              then ((False, None), d)
              else
                ((True, Some (k_slug c)),
                 supersede_active_decisions e tid preserve
                   (write_txn tid (\<lambda>t. t\<lparr>t_category := Some (k_slug c), t_category_method := Some ''manual'',
                      t_category_confidence := Some 1, t_category_model := Some (''manual:'' @ actor),
                      t_category_vocab_version := Some (e_vocab_version e), t_categorized_at := Some (e_now e),
                      t_review_status := Some ''resolved''\<rparr>) d)))"

text \<open>The commit is the end of the operation; a refusal changes nothing.\<close>

definition assign_category_manual :: "user_slugs \<Rightarrow> env \<Rightarrow> int \<Rightarrow> string option \<Rightarrow> string \<Rightarrow> db \<Rightarrow> (bool \<times> string option) \<times> db" where
  "assign_category_manual us e tid raw actor d =
     assign_category_no_commit us e tid raw actor Explicit_manual_override None d"

section \<open>Decisions\<close>

text \<open>Seven days.\<close>

definition DECISION_TTL :: int where
  "DECISION_TTL = minutes (7 * 24 * 60)"

definition ensure_decision_delivery :: "review_decision \<Rightarrow> int \<Rightarrow> int \<Rightarrow> int \<Rightarrow> db \<Rightarrow> (delivery \<times> db) option" where
  "ensure_decision_delivery r chat tid ordinal d =
     (if rd_source_interaction_id r \<noteq> None then None
      else case find (\<lambda>m. od_category_review_decision_id m = Some (rd_id r) \<and> od_ordinal m = ordinal) (deliveries d) of
        Some m \<Rightarrow> Some (m, d)
      | None \<Rightarrow>
          map_option (\<lambda>m. (m, d\<lparr>deliveries := deliveries d @ [m]\<rparr>))
            (make_delivery (next_id (map od_id (deliveries d))) chat ordinal None (Some (rd_id r)) (Some tid)))"

definition candidates_from_result :: "llm_result \<Rightarrow> string list" where
  "candidates_from_result r =
     (let slugs = (if lr_candidates r = [] \<and> lr_slug r \<noteq> NEEDS_REVIEW then [lr_slug r] else map fst (lr_candidates r))
      in take 3 (rev (remdups (rev (filter (\<lambda>s. s \<noteq> []) slugs)))))"

definition shows_same_prompt :: "review_decision \<Rightarrow> txn \<Rightarrow> string list \<Rightarrow> string option \<Rightarrow> bool" where
  "shows_same_prompt r t candidates proposed \<longleftrightarrow>
     Some (rd_category_input_hash r) = t_category_input_hash t \<and> rd_proposed_slug r = proposed \<and>
     set (rd_candidates r) = set candidates"

text \<open>\<open>ORDER BY id DESC LIMIT 1\<close> over a table in the order of its ids.\<close>

definition newest :: "'a list \<Rightarrow> 'a option" where
  "newest xs = (if xs = [] then None else Some (last xs))"

definition unexpired :: "datetime \<Rightarrow> review_decision \<Rightarrow> bool" where
  "unexpired now r \<longleftrightarrow> (case rd_expires_at r of None \<Rightarrow> True | Some x \<Rightarrow> now < x)"

definition blank_decision :: "int \<Rightarrow> int \<Rightarrow> review_decision" where
  "blank_decision i tid =
     \<lparr>rd_id = i, rd_transaction_id = tid, rd_source_interaction_id = None, rd_category_input_hash = [],
      rd_candidates = [], rd_proposed_slug = None, rd_confidence = None, rd_threshold = None, rd_gate_reason = None,
      rd_status = ''active'', rd_expires_at = None, rd_selected_slug = None, rd_consumed_at = None,
      rd_superseded_at = None\<rparr>"

definition add_decision :: "review_decision \<Rightarrow> db \<Rightarrow> db" where
  "add_decision r d = d\<lparr>review_decisions := review_decisions d @ [r]\<rparr>"

definition create_or_reuse_decision ::
    "env \<Rightarrow> txn \<Rightarrow> string list \<Rightarrow> review_gate option \<Rightarrow> string option \<Rightarrow> decimal option \<Rightarrow> decimal option \<Rightarrow>
     int option \<Rightarrow> db \<Rightarrow> review_decision \<times> db" where
  "create_or_reuse_decision e t candidates gate proposed confidence threshold source d =
     (let existing = newest (filter (active_decision (t_id t) None) (review_decisions d));
          d1 = (if existing = None then d else supersede_active_decisions e (t_id t) None d);
          new = (blank_decision (next_id (map rd_id (review_decisions d1))) (t_id t))
            \<lparr>rd_source_interaction_id := source, rd_category_input_hash := or_empty (t_category_input_hash t),
              rd_candidates := candidates, rd_proposed_slug := proposed, rd_confidence := confidence,
              rd_threshold := threshold, rd_gate_reason := gate, rd_expires_at := Some (e_now e + DECISION_TTL)\<rparr>
      in case existing of
           Some r \<Rightarrow>
             if shows_same_prompt r t candidates proposed \<and> unexpired (e_now e) r then (r, d) else (new, add_decision new d1)
         | None \<Rightarrow> (new, add_decision new d1))"

text \<open>For rows that predate the decisions.\<close>

definition ensure_legacy_decision :: "txn \<Rightarrow> db \<Rightarrow> review_decision \<times> db" where
  "ensure_legacy_decision t d =
     (case newest (filter (\<lambda>r. active_decision (t_id t) None r \<and> rd_source_interaction_id r = None) (review_decisions d)) of
        Some r \<Rightarrow> (r, d)
      | None \<Rightarrow>
          let new = (blank_decision (next_id (map rd_id (review_decisions d))) (t_id t))
            \<lparr>rd_category_input_hash := (if truthy (t_category_input_hash t) then or_empty (t_category_input_hash t) else ''legacy''),
              rd_gate_reason := map_option Gate_text (t_review_reason t)\<rparr>
          in (new, add_decision new d))"

text \<open>The delivery the button was on belongs to the decision.\<close>

definition owns_delivery :: "review_decision \<Rightarrow> int \<Rightarrow> db \<Rightarrow> bool" where
  "owns_delivery r i d \<longleftrightarrow>
     list_ex (\<lambda>m. od_id m = i \<and> od_transaction_id m = Some (rd_transaction_id r) \<and>
       (case rd_source_interaction_id r of
          None \<Rightarrow> od_category_review_decision_id m = Some (rd_id r)
        | Some src \<Rightarrow> od_interaction_id m = Some src)) (deliveries d)"

definition get_decision :: "int \<Rightarrow> db \<Rightarrow> review_decision option" where
  "get_decision i d = find (\<lambda>r. rd_id r = i) (review_decisions d)"

text \<open>The conditional update that claims the decision.\<close>

definition claimable_decision :: "env \<Rightarrow> int \<Rightarrow> string \<Rightarrow> review_decision \<Rightarrow> bool" where
  "claimable_decision e i hash r \<longleftrightarrow>
     rd_id r = i \<and> rd_status r = ''active'' \<and> rd_category_input_hash r = hash \<and> unexpired (e_now e) r"

definition consume_decision ::
    "user_slugs \<Rightarrow> env \<Rightarrow> int \<Rightarrow> string \<Rightarrow> string \<Rightarrow> int option \<Rightarrow> db \<Rightarrow> (audit_action \<times> db) option" where
  "consume_decision us e i selected hash delivery_id d =
     (case get_decision i d of
        None \<Rightarrow> None
      | Some r \<Rightarrow>
          if rd_status r \<noteq> ''active'' then None
          else case get_txn (rd_transaction_id r) d of
            None \<Rightarrow> None
          | Some t \<Rightarrow>
              let fresh = compute_input_hash e (build_input_payload t (account_type d t)) in
              if selected \<notin> set (rd_candidates r) then None
              else if rd_source_interaction_id r = None \<and> t_review_status t \<notin> {Some ''pending'', Some ''notified''} then None
              else if fresh \<noteq> hash \<or> fresh \<noteq> rd_category_input_hash r then None
              else if (case delivery_id of None \<Rightarrow> False | Some m \<Rightarrow> \<not> owns_delivery r m d) then None
              else
                (case assign_category_no_commit us e (t_id t) (Some selected) ''assistant_button'' Inferred_strict (Some i) d of
                   ((True, Some category), d1) \<Rightarrow>
                     if length (filter (claimable_decision e i hash) (review_decisions d1)) \<noteq> 1 then None
                     else
                       let d2 = d1\<lparr>review_decisions := update_where (claimable_decision e i hash)
                             (\<lambda>r. r\<lparr>rd_status := ''consumed'', rd_selected_slug := Some selected, rd_consumed_at := Some (e_now e)\<rparr>)
                             (review_decisions d1)\<rparr>;
                           action = \<lparr>aa_id = next_id (map aa_id (audit_actions d2)), aa_transaction_id = None,
                             aa_action_type = ''set_category'', aa_target_type = ''transaction'', aa_target_id = t_id t\<rparr>
                       in Some (action, d2\<lparr>audit_actions := audit_actions d2 @ [action]\<rparr>)
                 | _ \<Rightarrow> None))"

end
