(* ===== verification/Categorize.thy ===== *)
theory Categorize
  imports Category_Review
begin

text \<open>
  \<^verbatim>\<open>categorization/engine.py\<close>, the sweeps of \<^verbatim>\<open>categorization/sweep.py\<close> and \<^verbatim>\<open>scripts/categorize_backfill.py\<close>:
  a row goes through the reference-pair rule, the rules and the model. The provider of the model, its
  prompt and the examples it is shown are one parameter, which may raise. What other sessions
  commit during the call is the argument \<open>race\<close>. The contents of the audit records are left out.
\<close>

section \<open>Configuration\<close>

record confirmation_payload =
  cp_category :: "string option"
  cp_note :: "string option"
  cp_exclude_from_cashflow :: "bool option"
  cp_voided :: "bool option"
  cp_transaction_date :: "date option"
  cp_account_id :: "int option"
  cp_card_id :: "int option"
  cp_reference_number :: "string option"
  cp_category_input_hash :: "string option"
  cp_input_state :: input_payload

record category_config =
  cg_user_slugs :: user_slugs
  cg_rules :: rule_config
  cg_threshold :: decimal
  cg_model :: string
  cg_digest :: "confirmation_payload \<Rightarrow> string"

type_synonym provider = "db \<Rightarrow> txn \<Rightarrow> string list \<Rightarrow> llm_result option"

definition build_confirmation_payload :: "txn \<Rightarrow> string option \<Rightarrow> confirmation_payload" where
  "build_confirmation_payload t acct =
     \<lparr>cp_category = t_category t, cp_note = t_note t, cp_exclude_from_cashflow = t_exclude_from_cashflow t,
      cp_voided = t_voided t, cp_transaction_date = t_transaction_date t, cp_account_id = t_account_id t,
      cp_card_id = t_card_id t, cp_reference_number = t_reference_number t,
      cp_category_input_hash = t_category_input_hash t, cp_input_state = build_input_payload t acct\<rparr>"

definition compute_transaction_confirmation_hash :: "category_config \<Rightarrow> txn \<Rightarrow> string option \<Rightarrow> string" where
  "compute_transaction_confirmation_hash c t acct = cg_digest c (build_confirmation_payload t acct)"

definition fields_of :: "txn \<Rightarrow> string option \<Rightarrow> rule_fields" where
  "fields_of t acct =
     \<lparr>rf_counterparty = t_counterparty t, rf_raw_description = t_raw_description t, rf_channel = t_channel t,
      rf_email_type = Some (t_email_type t), rf_direction = Some (t_direction t), rf_bank = Some (t_bank t),
      rf_account_type = acct\<rparr>"

text \<open>The slugs only the owner can set are never offered.\<close>

definition MANUAL_ONLY_SLUGS :: "string list" where
  "MANUAL_ONLY_SLUGS = [''passthrough'', ''personal_loan'']"

definition get_active_slugs :: "category list \<Rightarrow> string list" where
  "get_active_slugs cs = sort (map k_slug (filter k_active cs))"

definition offered_slugs :: "db \<Rightarrow> string list" where
  "offered_slugs d = filter (\<lambda>s. s \<noteq> ''self_transfer'' \<and> s \<notin> set MANUAL_ONLY_SLUGS) (get_active_slugs (categories d))"

section \<open>One row\<close>

datatype outcome = Ruled | Skipped | Classified

definition stamp :: "env \<Rightarrow> string \<Rightarrow> txn \<Rightarrow> txn" where
  "stamp e hash t =
     t\<lparr>t_category_input_hash := Some hash, t_category_vocab_version := Some (e_vocab_version e),
       t_categorized_at := Some (e_now e)\<rparr>"

definition set_rule_category :: "env \<Rightarrow> string \<Rightarrow> rule_result \<Rightarrow> txn \<Rightarrow> txn" where
  "set_rule_category e hash hit t =
     (stamp e hash t)\<lparr>t_category := Some (fst hit), t_category_method := Some ''rule'',
       t_category_confidence := Some (snd hit), t_category_model := Some ''rules-v1'', t_review_status := None\<rparr>"

definition set_pending_llm :: "env \<Rightarrow> string \<Rightarrow> txn \<Rightarrow> txn" where
  "set_pending_llm e hash t =
     t\<lparr>t_category_method := Some ''pending_llm'', t_category_input_hash := Some hash,
       t_category_vocab_version := Some (e_vocab_version e)\<rparr>"

definition set_empty_input :: "env \<Rightarrow> string \<Rightarrow> txn \<Rightarrow> txn" where
  "set_empty_input e hash t =
     (stamp e hash t)\<lparr>t_category := Some ''unknown'', t_category_method := Some ''llm'',
       t_category_confidence := Some 0, t_category_model := Some ''empty-input'', t_review_status := None\<rparr>"

text \<open>What the gate makes of an answer: the row, the proposed slug and the reason to ask.\<close>

definition gate_answer ::
    "category_config \<Rightarrow> llm_result \<Rightarrow> string option \<Rightarrow> txn \<Rightarrow> txn \<times> string option \<times> review_gate option" where
  "gate_answer c r acct t =
     (let guard = (\<lambda>s. resolve_direction (cg_user_slugs c) s (t_direction t) acct) in
      if lr_slug r = NEEDS_REVIEW \<or> lr_confidence r < cg_threshold c then
        (t\<lparr>t_category := Some (fst (guard ''unknown'')),
           t_category_confidence := Some (if lr_slug r = NEEDS_REVIEW then 0 else lr_confidence r),
           t_review_status := Some ''pending'', t_review_reason := Some (lr_reason r)\<rparr>,
         (if lr_slug r \<noteq> NEEDS_REVIEW \<and> \<not> snd (guard (lr_slug r)) then Some (fst (guard (lr_slug r))) else None),
         Some (if lr_slug r = NEEDS_REVIEW \<and> prefix ''invalid model category slug:'' (lr_reason r) then Gate_text (lr_reason r)
               else if lr_slug r = NEEDS_REVIEW then Model_abstained
               else Low_confidence (lr_confidence r) (cg_threshold c)))
      else
        let (resolved, changed) = guard (lr_slug r) in
        if changed then
          (t\<lparr>t_category := Some resolved,
             t_review_reason := Some (''direction fallback: model said '' @ lr_slug r),
             t_category_confidence := Some (min (lr_confidence r) (4/10)), t_review_status := Some ''pending''\<rparr>,
           Some resolved, Some (Incompatible_slug (lr_slug r) (t_direction t)))
        else
          (t\<lparr>t_category := Some resolved, t_category_confidence := Some (lr_confidence r), t_review_status := None\<rparr>,
           Some resolved, None))"

text \<open>The search evidence goes to the reason and to the audit.\<close>

definition with_evidence :: "llm_result \<Rightarrow> txn \<Rightarrow> txn" where
  "with_evidence r t =
     (case lr_search r of
        None \<Rightarrow> t
      | Some s \<Rightarrow>
          if t_review_status t = Some ''pending'' then
            t\<lparr>t_review_reason := Some ((if truthy (t_review_reason t) then or_empty (t_review_reason t) else lr_reason r) @
               CHR 10 # ''Merchant lookup: '' @ ms_status s @ concat (map (\<lambda>u. CHR 10 # ''Source: '' @ u) (ms_urls s)))\<rparr>
          else t)"

definition record_lookup :: "env \<Rightarrow> llm_result \<Rightarrow> bool \<Rightarrow> txn \<Rightarrow> db \<Rightarrow> db" where
  "record_lookup e r stale t d =
     (case lr_search r of
        None \<Rightarrow> d
      | Some _ \<Rightarrow>
          d\<lparr>interactions := interactions d @
              [\<lparr>ai_id = next_id (map ai_id (interactions d)), ai_inbound_chat_id = 0, ai_trigger = ''merchant_lookup'',
                ai_transaction_id = Some (t_id t), ai_status = ''completed'',
                ai_outcome = Some (if stale then ''stale'' else if t_review_status t = Some ''pending'' then ''needs_review'' else ''classified''),
                ai_worker_token = None, ai_processing_lease_until = None, ai_completed_at = Some (e_now e)\<rparr>],
            audit_actions := (if stale then audit_actions d else audit_actions d @
              [\<lparr>aa_id = next_id (map aa_id (audit_actions d)), aa_transaction_id = Some (t_id t),
                aa_action_type = ''categorize_transaction'', aa_target_type = ''transaction'', aa_target_id = t_id t\<rparr>])\<rparr>)"

text \<open>The prompt of the decision was never sent.\<close>

definition never_sent :: "review_decision \<Rightarrow> db \<Rightarrow> bool" where
  "never_sent r d \<longleftrightarrow>
     list_ex (\<lambda>m. od_status m \<in> {''abandoned'', ''cancelled''} \<and>
       (case rd_source_interaction_id r of
          None \<Rightarrow> od_category_review_decision_id m = Some (rd_id r)
        | Some src \<Rightarrow> od_interaction_id m = Some src)) (deliveries d)"

definition guarded_candidates :: "category_config \<Rightarrow> llm_result \<Rightarrow> txn \<Rightarrow> string option \<Rightarrow> string list" where
  "guarded_candidates c r t acct =
     filter (\<lambda>s. fst (resolve_direction (cg_user_slugs c) s (t_direction t) acct) = s) (candidates_from_result r)"

text \<open>A row that needs a review keeps its prompt when the prompt still says the same.\<close>

definition ask_owner ::
    "category_config \<Rightarrow> env \<Rightarrow> llm_result \<Rightarrow> bool \<Rightarrow> review_decision option \<Rightarrow> string option \<Rightarrow> review_gate option \<Rightarrow>
     string option \<Rightarrow> txn \<Rightarrow> db \<Rightarrow> txn \<times> db" where
  "ask_owner c e r was_notified active proposed gate acct t d =
     (let candidates = guarded_candidates c r t acct in
      case active of
        Some a \<Rightarrow>
          if was_notified \<and> shows_same_prompt a t candidates proposed then
            (t\<lparr>t_review_status := Some ''notified''\<rparr>,
             d\<lparr>review_decisions := update_where (\<lambda>x. rd_id x = rd_id a \<and> \<not> unexpired (e_now e) x)
                 (\<lambda>x. x\<lparr>rd_expires_at := Some (e_now e + DECISION_TTL)\<rparr>) (review_decisions d)\<rparr>)
          else
            let (decision, d') = create_or_reuse_decision e t candidates gate proposed (Some (lr_confidence r))
                  (Some (cg_threshold c)) None d
            in (if was_notified \<and> rd_id a = rd_id decision then t\<lparr>t_review_status := Some ''notified''\<rparr>
                else t\<lparr>t_notify_attempts := Some 0\<rparr>, d')
      | None \<Rightarrow>
          let (decision, d') = create_or_reuse_decision e t candidates gate proposed (Some (lr_confidence r))
                (Some (cg_threshold c)) None d
          in (if was_notified then t\<lparr>t_review_status := Some ''notified''\<rparr> else t\<lparr>t_notify_attempts := Some 0\<rparr>, d'))"

text \<open>The answer is applied to the row as it is after the call.\<close>

definition apply_answer :: "category_config \<Rightarrow> env \<Rightarrow> string \<Rightarrow> llm_result \<Rightarrow> txn \<Rightarrow> db \<Rightarrow> db" where
  "apply_answer c e hash r t d =
     (let acct = account_type d t;
          active = find (active_decision (t_id t) None) (review_decisions d);
          unsent = (case active of None \<Rightarrow> False | Some a \<Rightarrow> never_sent a d);
          d1 = (if unsent then supersede_active_decisions e (t_id t) None d else d);
          was_notified = (t_review_status t = Some ''notified'' \<and> \<not> unsent);
          t1 = (stamp e hash t)\<lparr>t_category_method := Some ''llm'', t_category_model := Some (cg_model c)\<rparr>;
          (t2, proposed, gate) = gate_answer c r acct t1;
          d2 = (if t_review_status t2 = None then supersede_active_decisions e (t_id t) None d1 else d1);
          t3 = with_evidence r t2;
          d3 = record_lookup e r False t3 d2;
          (t4, d4) = (if t_review_status t3 = Some ''pending'' then ask_owner c e r was_notified active proposed gate acct t3 d3
                      else (t3, d3))
      in write_txn (t_id t) (\<lambda>_. t4) d4)"

definition classify_row ::
    "category_config \<Rightarrow> env \<Rightarrow> provider \<Rightarrow> (db \<Rightarrow> db) \<Rightarrow> string \<Rightarrow> txn \<Rightarrow> db \<Rightarrow> (outcome \<times> db) option" where
  "classify_row c e ask race hash t d =
     (case ask d t (offered_slugs d) of
        None \<Rightarrow> None
      | Some r \<Rightarrow>
          let d1 = race d in
          case get_txn (t_id t) d1 of
            None \<Rightarrow> Some (Skipped, d1)
          | Some cur \<Rightarrow>
              if t_category_method cur \<noteq> t_category_method t \<or>
                 compute_transaction_confirmation_hash c cur (account_type d1 cur) \<noteq>
                 compute_transaction_confirmation_hash c t (account_type d t)
              then Some (Skipped, record_lookup e r True cur d1)
              else Some (Classified, apply_answer c e hash r cur d1))"

definition categorize_one ::
    "category_config \<Rightarrow> env \<Rightarrow> provider \<Rightarrow> (db \<Rightarrow> db) \<Rightarrow> bool \<Rightarrow> txn \<Rightarrow> db \<Rightarrow> (outcome \<times> db) option" where
  "categorize_one c e ask race use_llm t d =
     (let (paired, d1) = apply_reference_self_transfer_rule e t d in
      if paired then Some (Ruled, d1)
      else
        let acct = account_type d t; hash = compute_input_hash e (build_input_payload t acct) in
        case match_rules (cg_user_slugs c) (cg_rules c) (fields_of t acct) of
          Some hit \<Rightarrow>
            Some (Ruled, supersede_active_decisions e (t_id t) None (write_txn (t_id t) (set_rule_category e hash hit) d))
        | None \<Rightarrow>
            if \<not> use_llm then Some (Skipped, write_txn (t_id t) (set_pending_llm e hash) d)
            else if \<not> (truthy (t_counterparty t) \<or> truthy (t_raw_description t) \<or> truthy (t_note t))
            then Some (Classified, write_txn (t_id t) (set_empty_input e hash) d)
            else classify_row c e ask race hash t d)"

section \<open>The sweeps\<close>

definition stale_answer :: "env \<Rightarrow> txn \<Rightarrow> bool" where
  "stale_answer e t \<longleftrightarrow>
     (t_category t = Some ''unknown'' \<or> t_review_status t \<in> {Some ''pending'', Some ''notified''}) \<and>
     t_category_method t = Some ''llm'' \<and>
     (case t_category_vocab_version t of None \<Rightarrow> True | Some v \<Rightarrow> v < e_vocab_version e)"

definition untouched :: "txn \<Rightarrow> bool" where
  "untouched t \<longleftrightarrow> t_category_method t = None"

definition needs_work :: "bool \<Rightarrow> env \<Rightarrow> txn \<Rightarrow> bool" where
  "needs_work llm e t \<longleftrightarrow>
     (if llm then untouched t \<or> t_category_method t = Some ''pending_llm'' \<or> stale_answer e t else untouched t)"

text \<open>The rows of \<open>select_needs_work_stmt\<close>, in the order of their ids.\<close>

definition select_needs_work :: "bool \<Rightarrow> env \<Rightarrow> nat \<Rightarrow> db \<Rightarrow> int list" where
  "select_needs_work llm e n d = map t_id (take n (filter (needs_work llm e) (transactions d)))"

definition needs_llm :: "txn \<Rightarrow> bool" where
  "needs_llm t \<longleftrightarrow>
     t_category_method t \<in> {None, Some ''pending_llm''} \<or>
     t_category_method t = Some ''llm'' \<and>
       (t_category t = Some ''unknown'' \<or> t_review_status t \<in> {Some ''pending'', Some ''notified''})"

definition load_config :: "category_config \<Rightarrow> db \<Rightarrow> category_config" where
  "load_config c d = c\<lparr>cg_user_slugs := load_user_buckets (categories d)\<rparr>"

definition no_provider :: provider where
  "no_provider = (\<lambda>_ _ _. None)"

text \<open>One row of the rule sweep, as it is when its turn comes. Without the model nothing raises.\<close>

definition rule_row :: "category_config \<Rightarrow> env \<Rightarrow> int \<Rightarrow> db \<Rightarrow> db" where
  "rule_row c e i d =
     (case get_txn i d of
        None \<Rightarrow> d
      | Some t \<Rightarrow> (case categorize_one c e no_provider (\<lambda>d. d) False t d of None \<Rightarrow> d | Some (_, d') \<Rightarrow> d'))"

definition run_rule_sweep :: "category_config \<Rightarrow> env \<Rightarrow> nat \<Rightarrow> db \<Rightarrow> nat \<times> db" where
  "run_rule_sweep c e n d =
     (let ids = select_needs_work False e n d in (length ids, fold (rule_row (load_config c d) e) ids d))"

definition MAX_CONSECUTIVE_FAILURES :: nat where
  "MAX_CONSECUTIVE_FAILURES = 5"

text \<open>One row after another, each in a session of its own; \<open>before\<close> is what the others committed meanwhile.\<close>

fun llm_rows ::
    "category_config \<Rightarrow> env \<Rightarrow> provider \<Rightarrow> (int \<Rightarrow> db \<Rightarrow> db) \<Rightarrow> (int \<Rightarrow> db \<Rightarrow> db) \<Rightarrow> int list \<Rightarrow> nat \<Rightarrow> nat \<Rightarrow> db \<Rightarrow> nat \<times> db" where
  "llm_rows c e ask before race [] k failures d = (k, d)"
| "llm_rows c e ask before race (i # ids) k failures d =
     (let d0 = before i d in
      case get_txn i d0 of
        None \<Rightarrow> llm_rows c e ask before race ids k failures d0
      | Some t \<Rightarrow>
          if \<not> needs_llm t then llm_rows c e ask before race ids k failures d0
          else case categorize_one c e ask (race i) True t d0 of
            Some (_, d') \<Rightarrow> llm_rows c e ask before race ids (Suc k) 0 d'
          | None \<Rightarrow>
              if MAX_CONSECUTIVE_FAILURES \<le> Suc failures then (k, d0)
              else llm_rows c e ask before race ids k (Suc failures) d0)"

text \<open>\<open>enabled\<close>: the setting is on and a provider has a key.\<close>

definition run_llm_sweep ::
    "category_config \<Rightarrow> env \<Rightarrow> bool \<Rightarrow> provider \<Rightarrow> (int \<Rightarrow> db \<Rightarrow> db) \<Rightarrow> (int \<Rightarrow> db \<Rightarrow> db) \<Rightarrow> nat \<Rightarrow> db \<Rightarrow> nat \<times> db" where
  "run_llm_sweep c e enabled ask before race n d =
     (if \<not> enabled then (0, d)
      else llm_rows (load_config c d) e ask before race (select_needs_work True e n d) 0 0 d)"

text \<open>\<open>_drain\<close> of the backfill, which may run for ever.\<close>

partial_function (option) drain :: "(db \<Rightarrow> nat \<times> db) \<Rightarrow> db \<Rightarrow> (nat \<times> db) option" where
  "drain sweep d =
     (case sweep d of (n, d') \<Rightarrow>
        if n = 0 then Some (0, d')
        else Option.bind (drain sweep d') (\<lambda>r. Some (n + fst r, snd r)))"

text \<open>The backfill: the rules, then the model unless it is left out. The settings are those of the start.\<close>

definition backfill ::
    "category_config \<Rightarrow> env \<Rightarrow> bool \<Rightarrow> provider \<Rightarrow> nat \<Rightarrow> bool \<Rightarrow> db \<Rightarrow> (nat \<times> nat \<times> db) option" where
  "backfill c e enabled ask batch_size rules_only d =
     Option.bind (drain (run_rule_sweep c e (max batch_size 500)) d) (\<lambda>(n, d1).
       if rules_only then Some (n, 0, d1)
       else Option.bind (drain (run_llm_sweep c e enabled ask (\<lambda>_ d. d) (\<lambda>_ d. d) batch_size) d1) (\<lambda>(m, d2).
         Some (n, m, d2)))"

end
