(* ===== verification/Category_Facts.thy ===== *)
theory Category_Facts
  imports Categorize
begin

text \<open>
  What one step of the categorization writes, what the answer of the model leaves behind, and why the
  loops of the backfill end.
\<close>

section \<open>What a step writes\<close>

text \<open>Every row keeps its id and its place; a row is the same, or a rule has decided it, or it is the row \<open>i\<close>.\<close>

definition decided_by_rule :: "txn \<Rightarrow> bool" where
  "decided_by_rule t \<longleftrightarrow> t_category_method t = Some ''rule''"

definition row_step :: "int \<Rightarrow> txn \<Rightarrow> txn \<Rightarrow> bool" where
  "row_step i r r' \<longleftrightarrow> t_id r' = t_id r \<and> (r' = r \<or> decided_by_rule r' \<or> t_id r = i)"

abbreviation rows_step :: "int \<Rightarrow> txn list \<Rightarrow> txn list \<Rightarrow> bool" where
  "rows_step i \<equiv> list_all2 (row_step i)"

lemma row_step_refl [simp]: "row_step i r r"
  by (simp add: row_step_def)

lemma rows_step_refl [simp]: "rows_step i rows rows"
  by (rule list_all2_refl) simp

lemma rows_step_trans: "rows_step i a b \<Longrightarrow> rows_step i b c \<Longrightarrow> rows_step i a c"
  by (rule list_all2_trans[of "row_step i" "row_step i" "row_step i"]) (auto simp: row_step_def)

lemma rows_step_update: "(\<And>r. P r \<Longrightarrow> row_step i r (f r)) \<Longrightarrow> rows_step i rows (update_where P f rows)"
  by (induction rows) auto

lemma rows_step_ids: "rows_step i rows rows' \<Longrightarrow> map t_id rows' = map t_id rows"
  by (induction rows rows' rule: list_all2_induct) (auto simp: row_step_def)

lemma marked_rule: "decided_by_rule (mark_self_transfer e d t)"
  by (simp add: mark_self_transfer_def Let_def decided_by_rule_def already_current_def)

lemma marked_id [simp]: "t_id (mark_self_transfer e d t) = t_id t"
  by (simp add: mark_self_transfer_def Let_def)

lemma mark_leg_step: "rows_step i (transactions d) (transactions (mark_leg e j d))"
  by (auto simp: mark_leg_def write_txn_def row_step_def marked_rule intro!: rows_step_update)

lemma fold_mark_step: "rows_step i (transactions d) (transactions (fold (mark_leg e) js d))"
  by (induction js arbitrary: d) (auto intro: rows_step_trans[OF mark_leg_step])

lemma paired_step: "rows_step i (transactions d) (transactions (snd (apply_reference_self_transfer_rule e t d)))"
  by (auto simp: apply_reference_self_transfer_rule_def Let_def intro: rows_step_trans[OF mark_leg_step fold_mark_step])

lemma unpaired_same: "\<not> fst (apply_reference_self_transfer_rule e t d) \<Longrightarrow> snd (apply_reference_self_transfer_rule e t d) = d"
  by (auto simp: apply_reference_self_transfer_rule_def Let_def split: if_splits)

lemma write_step: "(\<And>r. t_id (f r) = t_id r) \<Longrightarrow> rows_step i (transactions d) (transactions (write_txn i f d))"
  by (auto simp: write_txn_def row_step_def intro!: rows_step_update)

text \<open>The row itself, after a step.\<close>

lemma get_row_step:
  assumes "rows_step i (transactions d) (transactions d')" "get_txn j d = Some t"
  obtains t' where "get_txn j d' = Some t'" "row_step i t t'"
proof -
  have "\<exists>t'. find (\<lambda>r. t_id r = j) ts' = Some t' \<and> row_step i t t'"
    if "list_all2 (row_step i) ts ts'" "find (\<lambda>r. t_id r = j) ts = Some t" for ts ts'
    using that by (induction ts ts' rule: list_all2_induct) (auto simp: row_step_def split: if_splits)
  then show thesis using assms that by (auto simp: get_txn_def)
qed

lemma get_write: "get_txn i d = Some t \<Longrightarrow> (\<And>r. t_id (f r) = t_id r) \<Longrightarrow> get_txn i (write_txn i f d) = Some (f t)"
proof -
  have "find (\<lambda>r. t_id r = i) ts = Some t \<Longrightarrow> (\<And>r. t_id (f r) = t_id r) \<Longrightarrow>
      find (\<lambda>r. t_id r = i) (update_where (\<lambda>r. t_id r = i) f ts) = Some (f t)" for ts
    by (induction ts) (auto split: if_splits)
  then show "get_txn i d = Some t \<Longrightarrow> (\<And>r. t_id (f r) = t_id r) \<Longrightarrow> ?thesis"
    by (simp add: get_txn_def write_txn_def)
qed

lemma get_supersede [simp]: "get_txn i (supersede_active_decisions e tid p d) = get_txn i d"
  by (simp add: get_txn_def)

lemma get_marked:
  assumes "get_txn i d = Some t"
  shows "\<exists>t'. get_txn i (fold (mark_leg e) js (mark_leg e i d)) = Some t' \<and> decided_by_rule t'"
proof -
  have "get_txn i (mark_leg e i d) = Some (mark_self_transfer e d t)"
    using get_write[OF assms, of "mark_self_transfer e d"] by (simp add: mark_leg_def)
  then obtain t' where "get_txn i (fold (mark_leg e) js (mark_leg e i d)) = Some t'" "row_step (i + 1) (mark_self_transfer e d t) t'"
    by (rule get_row_step[OF fold_mark_step[of "i + 1"]]) blast
  moreover have "t_id t = i" using assms get_txn_Some by blast
  ultimately show ?thesis using marked_rule[of e d t] by (auto simp: row_step_def)
qed

text \<open>What a row has to show after its turn.\<close>

definition has_had_turn :: "bool \<Rightarrow> env \<Rightarrow> txn \<Rightarrow> bool" where
  "has_had_turn llm e t \<longleftrightarrow>
     t_category_method t \<in> {Some ''rule''} \<or>
     (if llm then t_category_method t = Some ''llm'' \<and> t_category_vocab_version t = Some (e_vocab_version e)
      else t_category_method t = Some ''pending_llm'')"

lemma turn_done: "has_had_turn llm e t \<Longrightarrow> \<not> needs_work llm e t"
  by (auto simp: has_had_turn_def needs_work_def untouched_def stale_answer_def split: if_splits)

lemma rule_done: "decided_by_rule t \<Longrightarrow> has_had_turn llm e t"
  by (simp add: decided_by_rule_def has_had_turn_def)

lemma paired_done:
  assumes "fst (apply_reference_self_transfer_rule e t d)" "get_txn (t_id t) d = Some t"
  shows "\<exists>t'. get_txn (t_id t) (snd (apply_reference_self_transfer_rule e t d)) = Some t' \<and> has_had_turn llm e t'"
  using assms get_marked[OF assms(2), of e "map t_id (self_transfer_matches d t)"] rule_done
  by (auto simp: apply_reference_self_transfer_rule_def Let_def split: if_splits)

lemma categorize_rule_only:
  assumes "categorize_one c e ask race False t d = Some (out, d')" "get_txn (t_id t) d = Some t"
  shows "rows_step (t_id t) (transactions d) (transactions d')"
    "\<exists>t'. get_txn (t_id t) d' = Some t' \<and> has_had_turn False e t'"
proof -
  let ?a = "apply_reference_self_transfer_rule e t d"
  consider "fst ?a" "d' = snd ?a"
    | hash hit where "d' = supersede_active_decisions e (t_id t) None (write_txn (t_id t) (set_rule_category e hash hit) d)"
    | hash where "d' = write_txn (t_id t) (set_pending_llm e hash) d"
    using assms(1) by (auto simp: categorize_one_def Let_def split: prod.splits if_splits option.splits)
  then have "rows_step (t_id t) (transactions d) (transactions d') \<and> (\<exists>t'. get_txn (t_id t) d' = Some t' \<and> has_had_turn False e t')"
  proof cases
    case 1
    then show ?thesis using paired_step paired_done[OF _ assms(2)] by simp
  next
    case 2
    have "t_id (set_rule_category e hash hit r) = t_id r" for r by (simp add: set_rule_category_def stamp_def)
    then show ?thesis using 2 write_step[of "set_rule_category e hash hit"] get_write[OF assms(2)]
      by (simp add: has_had_turn_def set_rule_category_def)
  next
    case 3
    have "t_id (set_pending_llm e hash r) = t_id r" for r by (simp add: set_pending_llm_def)
    then show ?thesis using 3 write_step[of "set_pending_llm e hash"] get_write[OF assms(2)]
      by (simp add: has_had_turn_def set_pending_llm_def)
  qed
  then show "rows_step (t_id t) (transactions d) (transactions d')"
    "\<exists>t'. get_txn (t_id t) d' = Some t' \<and> has_had_turn False e t'" by blast+
qed

section \<open>The backfill ends\<close>

lemma not_needs_step:
  assumes "rows_step i rows rows'" "r' \<in> set rows'" "needs_work llm e r'" "t_id r' \<noteq> i"
  shows "r' \<in> set rows"
  using assms
proof (induction rows rows' rule: list_all2_induct)
  case Nil
  then show ?case by simp
next
  case (Cons r rs q qs)
  show ?case
  proof (cases "r' = q")
    case True
    then have "q = r" using Cons turn_done[OF rule_done[of q llm e]] by (auto simp: row_step_def)
    then show ?thesis using True by simp
  next
    case False
    then show ?thesis using Cons by simp
  qed
qed

definition work_ids :: "bool \<Rightarrow> env \<Rightarrow> db \<Rightarrow> int list" where
  "work_ids llm e d = map t_id (filter (needs_work llm e) (transactions d))"

lemma in_work_ids: "j \<in> set (work_ids llm e d) \<longleftrightarrow> (\<exists>r \<in> set (transactions d). t_id r = j \<and> needs_work llm e r)"
  by (auto simp: work_ids_def)

lemma distinct_work: "distinct (map t_id (transactions d)) \<Longrightarrow> distinct (work_ids llm e d)"
  by (simp add: work_ids_def distinct_map_filter)

lemma get_unique:
  "distinct (map t_id (transactions d)) \<Longrightarrow> r \<in> set (transactions d) \<Longrightarrow> get_txn (t_id r) d = Some r"
  by (rule get_txn_distinct)

text \<open>A turn of row \<open>i\<close> takes it out of the work and brings no other row in.\<close>

lemma turn_work:
  assumes "rows_step i (transactions d) (transactions d')" "get_txn i d' = Some t'" "has_had_turn llm e t'"
    "distinct (map t_id (transactions d))"
  shows "set (work_ids llm e d') \<subseteq> set (work_ids llm e d) - {i}"
    "map t_id (transactions d') = map t_id (transactions d)"
proof -
  show ids: "map t_id (transactions d') = map t_id (transactions d)" using assms(1) by (rule rows_step_ids)
  show "set (work_ids llm e d') \<subseteq> set (work_ids llm e d) - {i}"
  proof
    fix j
    assume "j \<in> set (work_ids llm e d')"
    then obtain r where r: "r \<in> set (transactions d')" "t_id r = j" "needs_work llm e r" by (auto simp: in_work_ids)
    have "j \<noteq> i"
    proof
      assume "j = i"
      then have "get_txn i d' = Some r" using get_unique[of d' r] r(1,2) ids assms(4) by simp
      then show False using assms(2,3) r(3) turn_done by simp
    qed
    then show "j \<in> set (work_ids llm e d) - {i}"
      using not_needs_step[OF assms(1) r(1,3)] r(2,3) by (auto simp: in_work_ids)
  qed
qed

lemma rule_row_work:
  assumes "distinct (map t_id (transactions d))" "i \<in> set (map t_id (transactions d))"
  shows "set (work_ids False e (rule_row c e i d)) \<subseteq> set (work_ids False e d) - {i}"
    "map t_id (transactions (rule_row c e i d)) = map t_id (transactions d)"
proof -
  obtain t where t: "get_txn i d = Some t" "t_id t = i" using assms get_unique by fastforce
  have "categorize_one c e no_provider (\<lambda>d. d) False t d \<noteq> None"
    by (simp add: categorize_one_def Let_def split: prod.split option.split)
  then obtain out d' where d': "categorize_one c e no_provider (\<lambda>d. d) False t d = Some (out, d')" by auto
  have row: "rule_row c e i d = d'" by (simp add: rule_row_def t d')
  note step = categorize_rule_only[OF d', unfolded t(2), OF t(1)]
  obtain t' where "get_txn i d' = Some t'" "has_had_turn False e t'" using step(2) by blast
  from turn_work[OF step(1) this assms(1)]
  show "set (work_ids False e (rule_row c e i d)) \<subseteq> set (work_ids False e d) - {i}"
    "map t_id (transactions (rule_row c e i d)) = map t_id (transactions d)"
    unfolding row by blast+
qed

lemma rule_rows_work:
  assumes "distinct (map t_id (transactions d))" "set ids \<subseteq> set (map t_id (transactions d))"
  shows "set (work_ids False e (fold (rule_row c e) ids d)) \<subseteq> set (work_ids False e d) - set ids \<and>
    map t_id (transactions (fold (rule_row c e) ids d)) = map t_id (transactions d)"
  using assms
proof (induction ids arbitrary: d)
  case Nil
  then show ?case by simp
next
  case (Cons i ids)
  have i: "i \<in> set (map t_id (transactions d))" using Cons.prems(2) by simp
  note r = rule_row_work[OF Cons.prems(1) i, where e = e and c = c]
  have "distinct (map t_id (transactions (rule_row c e i d)))" "set ids \<subseteq> set (map t_id (transactions (rule_row c e i d)))"
    using Cons.prems unfolding r(2) by simp_all
  from Cons.IH[OF this] show ?case using r by auto
qed

lemma select_work: "select_needs_work llm e n d = take n (work_ids llm e d)"
  by (simp add: select_needs_work_def work_ids_def take_map)

text \<open>A sweep that takes a row out of the work for every row it counts drains.\<close>

lemma fewer_work:
  assumes "set (work_ids llm e d') \<subseteq> set (work_ids llm e d) - A" "A \<inter> set (work_ids llm e d) \<noteq> {}"
    "distinct (map t_id (transactions d))" "map t_id (transactions d') = map t_id (transactions d)"
  shows "length (work_ids llm e d') < length (work_ids llm e d)"
proof -
  have "card (set (work_ids llm e d')) < card (set (work_ids llm e d))"
    by (rule psubset_card_mono) (use assms(1,2) in auto)
  moreover have "distinct (work_ids llm e d')" "distinct (work_ids llm e d)"
    using assms(3,4) by (simp_all add: distinct_work)
  ultimately show ?thesis by (simp add: distinct_card)
qed

text \<open>The contract between a sweep and the loop that drains it: a sweep keeps the state sound, and one that
  reports rows leaves fewer behind.\<close>

locale drained_sweep =
  fixes sweep :: "db \<Rightarrow> nat \<times> db"
    and ok :: "db \<Rightarrow> bool"
    and left :: "db \<Rightarrow> nat"
  assumes sweep_ok: "ok d \<Longrightarrow> sweep d = (n, d') \<Longrightarrow> ok d'"
    and sweep_progress: "ok d \<Longrightarrow> sweep d = (n, d') \<Longrightarrow> n = 0 \<or> left d' < left d"
begin

lemma returns:
  assumes "ok d"
  shows "\<exists>n d0 d'. drain sweep d = Some (n, d') \<and> ok d0 \<and> sweep d0 = (0, d') \<and> ok d'"
  using assms
proof (induction "left d" arbitrary: d rule: less_induct)
  case less
  obtain n d1 where s: "sweep d = (n, d1)" by (metis surj_pair)
  note next_state = sweep_ok[OF less.prems s] sweep_progress[OF less.prems s]
  show ?case
  proof (cases "n = 0")
    case True
    then have "drain sweep d = Some (0, d1)" by (simp add: drain.simps[of sweep d] s)
    then show ?thesis using s True less.prems next_state(1) by blast
  next
    case False
    then obtain k d0 d' where r: "drain sweep d1 = Some (k, d')" "ok d0" "sweep d0 = (0, d')" "ok d'"
      using less.hyps[of d1] next_state by blast
    have "drain sweep d = Some (n + k, d')" using False r(1) by (simp add: drain.simps[of sweep d] s)
    then show ?thesis using r(2-4) by blast
  qed
qed

end

text \<open>The state of a backfill: the rows are those it started with.\<close>

definition rows_are :: "int list \<Rightarrow> db \<Rightarrow> bool" where
  "rows_are ids d \<longleftrightarrow> distinct ids \<and> map t_id (transactions d) = ids"

definition rows_ruled :: "int list \<Rightarrow> db \<Rightarrow> bool" where
  "rows_ruled ids d \<longleftrightarrow> rows_are ids d \<and> (\<forall>t \<in> set (transactions d). \<not> untouched t)"

lemma rule_sweep_step:
  assumes "distinct (map t_id (transactions d))" "run_rule_sweep c e n d = (k, d')"
  shows "map t_id (transactions d') = map t_id (transactions d)" "k = length (take n (work_ids False e d))"
    "k = 0 \<Longrightarrow> d' = d" "k = 0 \<or> length (work_ids False e d') < length (work_ids False e d)"
proof -
  let ?ids = "take n (work_ids False e d)"
  have d': "d' = fold (rule_row (load_config c d) e) ?ids d" and k: "k = length ?ids"
    using assms(2) by (simp_all add: run_rule_sweep_def Let_def select_work)
  have sub: "set ?ids \<subseteq> set (map t_id (transactions d))"
    by (rule order_trans[OF set_take_subset]) (auto simp: work_ids_def)
  note r = rule_rows_work[OF assms(1) sub, where e = e and c = "load_config c d"]
  show "map t_id (transactions d') = map t_id (transactions d)" "k = length ?ids" using r d' k by simp_all
  have none: "k = 0 \<longleftrightarrow> ?ids = []" by (simp only: k length_0_conv)
  show "d' = d" if "k = 0"
  proof -
    have "?ids = []" using none that by blast
    then show ?thesis unfolding d' by (simp only: fold_simps)
  qed
  show "k = 0 \<or> length (work_ids False e d') < length (work_ids False e d)"
  proof (cases "?ids = []")
    case True
    then show ?thesis using none by blast
  next
    case False
    then have "set ?ids \<inter> set (work_ids False e d) \<noteq> {}" using set_take_subset[of n "work_ids False e d"] by (cases ?ids) auto
    then show ?thesis using fewer_work[of False e d' d "set ?ids"] r assms(1) d' by simp
  qed
qed

text \<open>An answer of the model writes its row only.\<close>

definition same_stamp :: "txn \<Rightarrow> txn \<Rightarrow> bool" where
  "same_stamp t t' \<longleftrightarrow> t_id t' = t_id t \<and> t_category_method t' = t_category_method t \<and>
     t_category_vocab_version t' = t_category_vocab_version t \<and> t_direction t' = t_direction t \<and>
     t_account_id t' = t_account_id t"

lemma gate_stamp: "same_stamp t (fst (gate_answer c r acct t))"
  by (simp add: gate_answer_def same_stamp_def Let_def split_def)

lemma evidence_stamp: "same_stamp t (with_evidence r t)" "t_category (with_evidence r t) = t_category t"
  "t_review_status (with_evidence r t) = t_review_status t"
  by (simp_all add: with_evidence_def same_stamp_def split: option.split)

lemma ask_owner_row:
  "same_stamp t (fst (ask_owner c e r w active proposed gate acct t d))"
  "t_category (fst (ask_owner c e r w active proposed gate acct t d)) = t_category t"
  by (simp_all add: ask_owner_def same_stamp_def Let_def split_def split: option.split)

lemma create_transactions [simp]:
  "transactions (snd (create_or_reuse_decision e t cs gate proposed conf thr src d)) = transactions d"
  by (simp add: create_or_reuse_decision_def Let_def add_decision_def split: option.split)

lemma ask_owner_transactions [simp]:
  "transactions (snd (ask_owner c e r w active proposed gate acct t d)) = transactions d"
  by (simp add: ask_owner_def Let_def split_def split: option.split)

lemma record_lookup_transactions [simp]: "transactions (record_lookup e r stale t d) = transactions d"
  by (simp add: record_lookup_def split: option.split)

lemma lookup_frames [simp]:
  "review_decisions (record_lookup e r stale t d) = review_decisions d" "accounts (record_lookup e r stale t d) = accounts d"
  by (simp_all add: record_lookup_def split: option.split)

lemma ask_owner_accounts [simp]: "accounts (snd (ask_owner c e r w active proposed gate acct t d)) = accounts d"
  by (simp add: ask_owner_def create_or_reuse_decision_def add_decision_def Let_def split_def split: option.split)

lemma gate_status: "t_review_status (fst (gate_answer c r acct t)) \<in> {None, Some ''pending''}"
  by (simp add: gate_answer_def Let_def split_def)

lemma gate_category:
  "\<exists>s. t_category (fst (gate_answer c r acct t)) = Some (fst (resolve_direction (cg_user_slugs c) s (t_direction t) acct))"
proof (cases "lr_slug r = NEEDS_REVIEW \<or> lr_confidence r < cg_threshold c")
  case True
  then show ?thesis by (intro exI[of _ "''unknown''"]) (simp add: gate_answer_def Let_def)
next
  case False
  then show ?thesis by (intro exI[of _ "lr_slug r"]) (simp add: gate_answer_def Let_def split_def)
qed

text \<open>A row that is left to the owner has an active decision.\<close>

lemma newest_in: "newest (filter P xs) = Some x \<Longrightarrow> x \<in> set xs \<and> P x"
  using last_in_set[of "filter P xs"] by (auto simp: newest_def split: if_splits)

lemma list_ex_update: "(\<And>x. Q (f x) = Q x) \<Longrightarrow> list_ex Q (update_where P f xs) = list_ex Q xs"
  by (induction xs) auto

lemma create_cases:
  obtains (reuse) r where "create_or_reuse_decision e t cs gate p conf thr src d = (r, d)" "r \<in> set (review_decisions d)"
    "active_decision (t_id t) None r"
  | (new) r d1 where "create_or_reuse_decision e t cs gate p conf thr src d = (r, add_decision r d1)"
    "active_decision (t_id t) None r" "filter (active_decision (t_id t) None) (review_decisions d1) = []"
proof -
  let ?old = "newest (filter (active_decision (t_id t) None) (review_decisions d))"
  define d1 where "d1 = (if ?old = None then d else supersede_active_decisions e (t_id t) None d)"
  define r where "r = (blank_decision (next_id (map rd_id (review_decisions d1))) (t_id t))
    \<lparr>rd_source_interaction_id := src, rd_category_input_hash := or_empty (t_category_input_hash t),
     rd_candidates := cs, rd_proposed_slug := p, rd_confidence := conf,
     rd_threshold := thr, rd_gate_reason := gate, rd_expires_at := Some (e_now e + DECISION_TTL)\<rparr>"
  have new: "active_decision (t_id t) None r" by (simp add: r_def blank_decision_def active_decision_def)
  have none: "filter (active_decision (t_id t) None) (review_decisions d1) = []"
    by (auto simp: d1_def newest_def filter_empty_conv dest: supersede_no_active split: if_splits)
  have run: "create_or_reuse_decision e t cs gate p conf thr src d =
      (case ?old of
         Some q \<Rightarrow> if shows_same_prompt q t cs p \<and> unexpired (e_now e) q then (q, d) else (r, add_decision r d1)
       | None \<Rightarrow> (r, add_decision r d1))"
    unfolding create_or_reuse_decision_def Let_def r_def d1_def by (rule refl)
  show thesis
  proof (cases "\<exists>q. ?old = Some q \<and> shows_same_prompt q t cs p \<and> unexpired (e_now e) q")
    case True
    then show thesis using reuse newest_in run by force
  next
    case False
    then have "create_or_reuse_decision e t cs gate p conf thr src d = (r, add_decision r d1)"
      unfolding run by (auto split: option.split)
    then show thesis using new none by (rule that(2))
  qed
qed

lemma create_active:
  "list_ex (active_decision (t_id t) None) (review_decisions (snd (create_or_reuse_decision e t cs gate p conf thr src d)))"
  by (rule create_cases[of e t cs gate p conf thr src d]) (auto simp: list_ex_iff add_decision_def)

lemma ask_owner_active:
  assumes "\<And>a. active = Some a \<Longrightarrow> w \<Longrightarrow> a \<in> set (review_decisions d) \<and> active_decision (t_id t) None a"
  shows "list_ex (active_decision (t_id t) None) (review_decisions (snd (ask_owner c e r w active proposed gate acct t d)))"
proof (cases "\<exists>a. active = Some a \<and> w \<and> shows_same_prompt a t (guarded_candidates c r t acct) proposed")
  case True
  then obtain a where a: "active = Some a" "w" "shows_same_prompt a t (guarded_candidates c r t acct) proposed" by blast
  then have "a \<in> set (review_decisions d)" "active_decision (t_id t) None a" using assms by blast+
  moreover have "active_decision (t_id t) None (x\<lparr>rd_expires_at := y\<rparr>) = active_decision (t_id t) None x" for x y
    by (simp add: active_decision_def)
  ultimately have "list_ex (active_decision (t_id t) None) (update_where P (\<lambda>x. x\<lparr>rd_expires_at := y\<rparr>) (review_decisions d))" for P y
    by (subst list_ex_update) (auto simp: list_ex_iff)
  then show ?thesis using a by (simp add: ask_owner_def Let_def)
next
  case False
  then show ?thesis using create_active by (auto simp: ask_owner_def Let_def split_def split: option.split)
qed

lemma same_stamp_trans: "same_stamp a b \<Longrightarrow> same_stamp b c \<Longrightarrow> same_stamp a c"
  by (simp add: same_stamp_def)

text \<open>The row that \<open>apply_answer\<close> writes.\<close>

lemma apply_answer_parts:
  obtains t4 d4 where "apply_answer c e hash r t d = write_txn (t_id t) (\<lambda>_. t4) d4" "transactions d4 = transactions d"
    "t_id t4 = t_id t" "t_category_method t4 = Some ''llm''" "t_category_vocab_version t4 = Some (e_vocab_version e)"
    "t_category t4 = t_category (fst (gate_answer c r (account_type d t)
       ((stamp e hash t)\<lparr>t_category_method := Some ''llm'', t_category_model := Some (cg_model c)\<rparr>)))"
    "t_direction t4 = t_direction t" "t_account_id t4 = t_account_id t" "accounts d4 = accounts d"
    "t_review_status t4 \<in> {Some ''pending'', Some ''notified''} \<Longrightarrow> list_ex (active_decision (t_id t) None) (review_decisions d4)"
proof -
  let ?t1 = "(stamp e hash t)\<lparr>t_category_method := Some ''llm'', t_category_model := Some (cg_model c)\<rparr>"
  obtain t2 proposed gate where g: "gate_answer c r (account_type d t) ?t1 = (t2, proposed, gate)" by (metis prod_cases3)
  define t3 where "t3 = with_evidence r t2"
  let ?active = "find (active_decision (t_id t) None) (review_decisions d)"
  define unsent where "unsent = (case ?active of None \<Rightarrow> False | Some a \<Rightarrow> never_sent a d)"
  define d1 where "d1 = (if unsent then supersede_active_decisions e (t_id t) None d else d)"
  define d3 where "d3 = record_lookup e r False t3 (if t_review_status t2 = None then supersede_active_decisions e (t_id t) None d1 else d1)"
  define last where "last = (if t_review_status t3 = Some ''pending''
    then ask_owner c e r (t_review_status t = Some ''notified'' \<and> \<not> unsent) ?active proposed gate (account_type d t) t3 d3
    else (t3, d3))"
  have run: "apply_answer c e hash r t d = write_txn (t_id t) (\<lambda>_. fst last) (snd last)"
    by (simp add: apply_answer_def Let_def g last_def d3_def d1_def t3_def unsent_def split_def)
  have "same_stamp ?t1 t2" using gate_stamp[of ?t1 c r "account_type d t"] g by simp
  moreover have "same_stamp t2 t3" unfolding t3_def by (rule evidence_stamp(1))
  moreover have "same_stamp t3 (fst last)" unfolding last_def using ask_owner_row(1) by (simp add: same_stamp_def)
  ultimately have "same_stamp ?t1 (fst last)" by (meson same_stamp_trans)
  moreover have cat: "t_category (fst last) = t_category (fst (gate_answer c r (account_type d t) ?t1))"
    unfolding last_def using ask_owner_row(2) evidence_stamp(2) by (simp add: t3_def g)
  moreover have "transactions (snd last) = transactions d" "accounts (snd last) = accounts d"
    by (simp_all add: last_def d3_def d1_def)
  moreover have "list_ex (active_decision (t_id t) None) (review_decisions (snd last))"
    if "t_review_status (fst last) \<in> {Some ''pending'', Some ''notified''}"
  proof -
    have status: "t_review_status t3 = t_review_status t2" by (simp add: t3_def evidence_stamp(3))
    have pending: "t_review_status t3 = Some ''pending''"
      using that gate_status[of c r "account_type d t" ?t1] g status by (auto simp: last_def split: if_splits)
    have "same_stamp ?t1 t2" using gate_stamp[of ?t1 c r "account_type d t"] unfolding g by simp
    then have "t_id t3 = t_id t" using evidence_stamp(1)[of t2 r] by (simp add: t3_def same_stamp_def stamp_def)
    moreover have "a \<in> set (review_decisions d3) \<and> active_decision (t_id t) None a"
      if "?active = Some a" "t_review_status t = Some ''notified'' \<and> \<not> unsent" for a
      using that pending status find_SomeD[OF that(1)] by (simp add: d3_def d1_def)
    ultimately show ?thesis using pending ask_owner_active[of ?active _ d3 t3] by (simp add: last_def)
  qed
  ultimately show thesis
    by (intro that[OF run _ _ _ _ cat]) (simp_all add: same_stamp_def stamp_def)
qed

lemma categorize_with_model:
  assumes "categorize_one c e ask (\<lambda>d. d) True t d = Some (out, d')" "get_txn (t_id t) d = Some t"
  shows "rows_step (t_id t) (transactions d) (transactions d') \<and>
    (\<exists>t'. get_txn (t_id t) d' = Some t' \<and> has_had_turn True e t')"
proof -
  let ?a = "apply_reference_self_transfer_rule e t d"
  consider "fst ?a" "d' = snd ?a"
    | hash hit where "d' = supersede_active_decisions e (t_id t) None (write_txn (t_id t) (set_rule_category e hash hit) d)"
    | hash where "d' = write_txn (t_id t) (set_empty_input e hash) d"
    | hash r where "d' = apply_answer c e hash r t d"
    using assms by (auto simp: categorize_one_def classify_row_def Let_def split: prod.splits if_splits option.splits)
  then show ?thesis
  proof cases
    case 1
    then show ?thesis using paired_step paired_done[OF _ assms(2)] by simp
  next
    case 2
    have "t_id (set_rule_category e hash hit r) = t_id r" for r by (simp add: set_rule_category_def stamp_def)
    then show ?thesis using 2 write_step[of "set_rule_category e hash hit"] get_write[OF assms(2)]
      by (simp add: has_had_turn_def set_rule_category_def)
  next
    case 3
    have "t_id (set_empty_input e hash r) = t_id r" for r by (simp add: set_empty_input_def stamp_def)
    then show ?thesis using 3 write_step[of "set_empty_input e hash"] get_write[OF assms(2)]
      by (simp add: has_had_turn_def set_empty_input_def stamp_def)
  next
    case 4
    obtain t4 d4 where p: "d' = write_txn (t_id t) (\<lambda>_. t4) d4" "transactions d4 = transactions d" "t_id t4 = t_id t"
      "t_category_method t4 = Some ''llm''" "t_category_vocab_version t4 = Some (e_vocab_version e)"
      using apply_answer_parts[of c e hash r t d] 4 by metis
    have w: "transactions d' = transactions (write_txn (t_id t) (\<lambda>r. t4\<lparr>t_id := t_id r\<rparr>) d)"
      using p(2,3) by (simp add: p(1) write_txn_def update_where_def)
    have g: "get_txn (t_id t) d' = Some t4"
      using get_write[OF assms(2), of "\<lambda>r. t4\<lparr>t_id := t_id r\<rparr>"] w p(3) by (simp add: get_txn_def)
    have "rows_step (t_id t) (transactions d) (transactions d')"
      unfolding w by (rule write_step) simp
    then show ?thesis using g p(4,5) by (simp add: has_had_turn_def)
  qed
qed

text \<open>Without other sessions: every row that is counted has left the work.\<close>

lemma llm_rows_work:
  assumes "llm_rows c e ask (\<lambda>_ d. d) (\<lambda>_ d. d) ids k f d = (k', d')"
    "distinct (map t_id (transactions d))" "distinct ids"
    "\<And>i t. i \<in> set ids \<Longrightarrow> get_txn i d = Some t \<Longrightarrow> needs_llm t \<Longrightarrow> needs_work True e t"
  shows "map t_id (transactions d') = map t_id (transactions d) \<and>
    set (work_ids True e d') \<subseteq> set (work_ids True e d) \<and>
    (k' = k \<or> length (work_ids True e d') < length (work_ids True e d))"
  using assms
proof (induction ids arbitrary: k f d)
  case Nil
  then show ?case by simp
next
  case (Cons i ids)
  have later: "needs_work True e t" if "j \<in> set ids" "get_txn j d = Some t" "needs_llm t" for j t
    using Cons.prems(4)[of j t] that by simp
  show ?case
  proof (cases "get_txn i d")
    case None
    then show ?thesis using Cons.IH[of k f d] Cons.prems later by simp
  next
    case (Some t)
    then have ti: "t_id t = i" "t \<in> set (transactions d)" using get_txn_Some by blast+
    show ?thesis
    proof (cases "needs_llm t")
      case False
      then show ?thesis using Some Cons.IH[of k f d] Cons.prems later by simp
    next
      case need: True
      show ?thesis
      proof (cases "categorize_one c e ask (\<lambda>d. d) True t d")
        case None
        then show ?thesis
          using Some need Cons.IH[of k "Suc f" d] Cons.prems later by (simp split: if_splits)
      next
        case (Some r)
        then obtain out d1 where d1: "categorize_one c e ask (\<lambda>d. d) True t d = Some (out, d1)" by (cases r) simp
        have got: "get_txn (t_id t) d = Some t" using \<open>get_txn i d = Some t\<close> ti by simp
        obtain t' where turn: "rows_step i (transactions d) (transactions d1)" "get_txn i d1 = Some t'" "has_had_turn True e t'"
          using categorize_with_model[OF d1 got] ti by auto
        note w = turn_work[OF turn Cons.prems(2)]
        have run: "llm_rows c e ask (\<lambda>_ d. d) (\<lambda>_ d. d) ids (Suc k) 0 d1 = (k', d')"
          using Cons.prems(1) \<open>get_txn i d = Some t\<close> need d1 by simp
        have rest: "needs_work True e u" if "j \<in> set ids" "get_txn j d1 = Some u" "needs_llm u" for j u
        proof -
          have "j \<noteq> i" using Cons.prems(3) that(1) by auto
          have "j \<in> set (map t_id (transactions d))" using get_txn_Some[OF that(2)] w(2) by (metis image_eqI list.set_map)
          then obtain v where v: "get_txn j d = Some v" using get_unique[OF Cons.prems(2)] by auto
          then obtain u' where "get_txn j d1 = Some u'" "row_step i v u'" by (rule get_row_step[OF turn(1)])
          then have "row_step i v u" using that(2) by simp
          moreover have "\<not> decided_by_rule u" using that(3) by (auto simp: decided_by_rule_def needs_llm_def)
          ultimately have "u = v" using \<open>j \<noteq> i\<close> get_txn_Some[OF v] by (auto simp: row_step_def)
          then show ?thesis using later[OF that(1) v] that(3) by simp
        qed
        have dist: "distinct (map t_id (transactions d1))" "distinct ids" using Cons.prems(2,3) w(2) by simp_all
        have ih: "map t_id (transactions d') = map t_id (transactions d1) \<and>
            set (work_ids True e d') \<subseteq> set (work_ids True e d1) \<and>
            (k' = Suc k \<or> length (work_ids True e d') < length (work_ids True e d1))"
          by (rule Cons.IH[OF run dist]) (rule rest)
        have "i \<in> set (work_ids True e d)"
          using Cons.prems(4)[of i t] \<open>get_txn i d = Some t\<close> need ti by (auto simp: in_work_ids)
        moreover have "set (work_ids True e d') \<subseteq> set (work_ids True e d) - {i}" using ih w(1) by blast
        moreover have "map t_id (transactions d') = map t_id (transactions d)" using ih w(2) by simp
        ultimately show ?thesis using fewer_work[of True e d' d "{i}"] Cons.prems(2) by auto
      qed
    qed
  qed
qed

lemma selected_needs:
  assumes "i \<in> set (select_needs_work llm e n d)" "get_txn i d = Some t" "distinct (map t_id (transactions d))"
  shows "needs_work llm e t"
proof -
  have "i \<in> set (work_ids llm e d)" using assms(1) unfolding select_work by (rule in_set_takeD)
  then obtain r where "r \<in> set (transactions d)" "t_id r = i" "needs_work llm e r" by (auto simp: in_work_ids)
  then show ?thesis using get_unique[OF assms(3), of r] assms(2) by simp
qed

lemma llm_sweep_step:
  assumes "distinct (map t_id (transactions d))" "run_llm_sweep c e enabled ask (\<lambda>_ d. d) (\<lambda>_ d. d) n d = (k, d')"
  shows "map t_id (transactions d') = map t_id (transactions d) \<and>
    set (work_ids True e d') \<subseteq> set (work_ids True e d) \<and>
    (k = 0 \<or> length (work_ids True e d') < length (work_ids True e d))"
proof (cases enabled)
  case True
  have "distinct (select_needs_work True e n d)" unfolding select_work by (rule distinct_take[OF distinct_work[OF assms(1)]])
  then show ?thesis
    using llm_rows_work[of "load_config c d" e ask "select_needs_work True e n d" 0 0 d k d'] assms True
      selected_needs[OF _ _ assms(1)] by (simp add: run_llm_sweep_def)
qed (use assms(2) in \<open>simp add: run_llm_sweep_def\<close>)

lemma untouched_work: "untouched t \<Longrightarrow> needs_work llm e t"
  by (auto simp: needs_work_def)

interpretation rule_sweep: drained_sweep "run_rule_sweep c e n" "rows_are ids" "\<lambda>d. length (work_ids False e d)"
  for c e n ids
proof
  fix d k d'
  assume "rows_are ids d" and run: "run_rule_sweep c e n d = (k, d')"
  then have "distinct (map t_id (transactions d))" "map t_id (transactions d) = ids" by (simp_all add: rows_are_def)
  from rule_sweep_step(1,4)[OF this(1) run] this(2) \<open>rows_are ids d\<close>
  show "rows_are ids d'" "k = 0 \<or> length (work_ids False e d') < length (work_ids False e d)"
    by (simp_all add: rows_are_def)
qed

lemma rule_drain:
  assumes "rows_are ids d" "0 < n"
  shows "\<exists>k d'. drain (run_rule_sweep c e n) d = Some (k, d') \<and> rows_ruled ids d'"
proof -
  obtain k d0 d' where r: "drain (run_rule_sweep c e n) d = Some (k, d')" "rows_are ids d0"
    "run_rule_sweep c e n d0 = (0, d')" "rows_are ids d'"
    using rule_sweep.returns[OF assms(1)] by blast
  have dist: "distinct (map t_id (transactions d0))" using r(2) by (simp add: rows_are_def)
  have "take n (work_ids False e d0) = []" "d' = d0"
    using rule_sweep_step(2,3)[OF dist r(3)] by (simp_all only: length_0_conv eq_commute[of 0] refl simp_thms)
  then have "work_ids False e d' = []" using assms(2) by simp
  then have "\<not> untouched t" if "t \<in> set (transactions d')" for t
    using that by (auto simp: work_ids_def filter_empty_conv needs_work_def)
  then show ?thesis using r(1,4) by (auto simp: rows_ruled_def)
qed

lemma row_before: "rows_step i rows rows' \<Longrightarrow> r' \<in> set rows' \<Longrightarrow> \<exists>r \<in> set rows. row_step i r r'"
  by (induction rows rows' rule: list_all2_induct) auto

lemma turn_touched:
  assumes "rows_step i (transactions d) (transactions d')" "get_txn i d' = Some t'" "has_had_turn True e t'"
    "distinct (map t_id (transactions d))" "\<forall>t \<in> set (transactions d). \<not> untouched t"
  shows "\<forall>t \<in> set (transactions d'). \<not> untouched t"
proof
  fix r'
  assume r': "r' \<in> set (transactions d')"
  then obtain r where r: "r \<in> set (transactions d)" "row_step i r r'"
    using row_before[OF assms(1)] by blast
  consider "r' = r" | "decided_by_rule r'" | "t_id r' = i" using r(2) by (auto simp: row_step_def)
  then show "\<not> untouched r'"
  proof cases
    case 3
    have "get_txn (t_id r') d' = Some r'" using get_unique[OF _ r'] rows_step_ids[OF assms(1)] assms(4) by simp
    then show ?thesis using 3 assms(2,3) by (auto simp: has_had_turn_def untouched_def)
  qed (use r(1) assms(5) in \<open>auto simp: decided_by_rule_def untouched_def\<close>)
qed

text \<open>The loop keeps what one row keeps, and its count only grows.\<close>

lemma llm_rows_keep:
  assumes "\<And>t d out d'. P d \<Longrightarrow> get_txn (t_id t) d = Some t \<Longrightarrow>
      categorize_one c e ask (\<lambda>d. d) True t d = Some (out, d') \<Longrightarrow> P d'"
    and "llm_rows c e ask (\<lambda>_ d. d) (\<lambda>_ d. d) ids k f d = (k', d')" "P d"
  shows "P d' \<and> k \<le> k'"
  using assms(2,3)
proof (induction ids arbitrary: k f d)
  case Nil
  then show ?case by simp
next
  case (Cons i ids)
  show ?case
  proof (cases "get_txn i d")
    case None
    then show ?thesis using Cons by simp
  next
    case (Some t)
    then have got: "get_txn (t_id t) d = Some t" using get_txn_Some by blast
    show ?thesis
    proof (cases "needs_llm t")
      case False
      then show ?thesis using Cons Some by simp
    next
      case need: True
      show ?thesis
      proof (cases "categorize_one c e ask (\<lambda>d. d) True t d")
        case None
        then show ?thesis using Cons.IH[of k "Suc f" d] Cons.prems Some need by (simp split: if_splits)
      next
        case (Some r)
        then obtain out d1 where d1: "categorize_one c e ask (\<lambda>d. d) True t d = Some (out, d1)" by (cases r) simp
        then have "P d1" using assms(1)[OF Cons.prems(2) got] by blast
        then show ?thesis using Cons.IH[of "Suc k" 0 d1] Cons.prems(1) \<open>get_txn i d = Some t\<close> need d1 by simp
      qed
    qed
  qed
qed

lemma needs_work_llm: "needs_work True e t \<Longrightarrow> needs_llm t"
  by (auto simp: needs_work_def needs_llm_def untouched_def stale_answer_def)

lemma answered:
  assumes "\<And>d t s. ask d t s \<noteq> None"
  shows "categorize_one c e ask (\<lambda>d. d) True t d \<noteq> None"
proof -
  have "ask d t (offered_slugs d) \<noteq> None" by (rule assms)
  then have "classify_row c e ask (\<lambda>d. d) hash t d \<noteq> None" for hash
    by (auto simp: classify_row_def Let_def split: option.split)
  then show ?thesis by (simp add: categorize_one_def Let_def split: prod.split option.split)
qed

lemma llm_sweep_idle:
  assumes "run_llm_sweep c e True ask (\<lambda>_ d. d) (\<lambda>_ d. d) n d = (0, d')" "distinct (map t_id (transactions d))"
    "\<And>d t s. ask d t s \<noteq> None"
  shows "take n (work_ids True e d) = [] \<and> d' = d"
proof (cases "select_needs_work True e n d")
  case Nil
  then have "d' = d" using assms(1) by (simp add: run_llm_sweep_def)
  then show ?thesis using Nil unfolding select_work by blast
next
  case (Cons i ids)
  then have "i \<in> set (work_ids True e d)" unfolding select_work using in_set_takeD[of i n "work_ids True e d"] by simp
  then obtain t where "t \<in> set (transactions d)" "t_id t = i" by (auto simp: in_work_ids)
  then have t: "get_txn i d = Some t" using get_unique[OF assms(2)] by blast
  have "needs_llm t" using selected_needs[OF _ t assms(2), of True e n] Cons needs_work_llm by simp
  moreover obtain out d1 where "categorize_one (load_config c d) e ask (\<lambda>d. d) True t d = Some (out, d1)"
    using answered[OF assms(3)] by fast
  ultimately have "llm_rows (load_config c d) e ask (\<lambda>_ d. d) (\<lambda>_ d. d) ids (Suc 0) 0 d1 = (0, d')"
    using assms(1) t by (simp add: run_llm_sweep_def Cons)
  from llm_rows_keep[where P = "\<lambda>_. True", OF _ this] show ?thesis by simp
qed

lemma llm_sweep_ruled:
  assumes "rows_ruled ids d" "run_llm_sweep c e enabled ask (\<lambda>_ d. d) (\<lambda>_ d. d) n d = (k, d')"
  shows "rows_ruled ids d'"
proof (cases enabled)
  case True
  have row: "rows_ruled ids x2" if x1: "rows_ruled ids x1" and got: "get_txn (t_id t) x1 = Some t"
    and one: "categorize_one (load_config c d) e ask (\<lambda>d. d) True t x1 = Some (out, x2)" for t x1 out x2
  proof -
    obtain t' where turn: "rows_step (t_id t) (transactions x1) (transactions x2)" "get_txn (t_id t) x2 = Some t'"
      "has_had_turn True e t'" using categorize_with_model[OF one got] by blast
    then show ?thesis using turn_touched[OF turn] rows_step_ids[OF turn(1)] x1 by (simp add: rows_ruled_def rows_are_def)
  qed
  have rows: "llm_rows (load_config c d) e ask (\<lambda>_ d. d) (\<lambda>_ d. d) (select_needs_work True e n d) 0 0 d = (k, d')"
    using assms(2) True by (simp add: run_llm_sweep_def)
  have "rows_ruled ids d' \<and> 0 \<le> k" by (rule llm_rows_keep[where P = "rows_ruled ids", OF _ rows assms(1)]) (rule row)
  then show ?thesis by blast
qed (use assms in \<open>simp add: run_llm_sweep_def\<close>)

interpretation llm_sweep: drained_sweep "run_llm_sweep c e enabled ask (\<lambda>_ d. d) (\<lambda>_ d. d) n" "rows_ruled ids"
    "\<lambda>d. length (work_ids True e d)"
  for c e enabled ask n ids
proof
  fix d k d'
  assume ok: "rows_ruled ids d" and run: "run_llm_sweep c e enabled ask (\<lambda>_ d. d) (\<lambda>_ d. d) n d = (k, d')"
  then have "distinct (map t_id (transactions d))" by (simp add: rows_ruled_def rows_are_def)
  from llm_sweep_step[OF this run] llm_sweep_ruled[OF ok run]
  show "rows_ruled ids d'" "k = 0 \<or> length (work_ids True e d') < length (work_ids True e d)" by blast+
qed

end
