(* ===== verification/Category_Properties.thy ===== *)
theory Category_Properties
  imports Category_Facts
begin

text \<open>
  The properties of the categorization: rules, answers of the model, decisions of the owner and the backfill.
\<close>

section \<open>Merchant rules\<close>

lemma upsert_patterns:
  "distinct (map ml_pattern rows) \<Longrightarrow> distinct (map ml_pattern (upsert_rule p cat prio rows))"
  by (auto simp: upsert_rule_def list_ex_iff map_update_where)

lemma seed_keeps:
  assumes "r \<in> set rows"
  shows "r \<in> set (fold seed_rule xs rows)"
  using assms
proof (induction xs arbitrary: rows)
  case (Cons x xs)
  have "r \<in> set (seed_rule x rows)" using Cons.prems by (cases x) (simp add: seed_rule_def)
  then show ?case using Cons.IH by simp
qed simp

lemma seed_patterns:
  assumes "distinct (map ml_pattern rows)"
  shows "distinct (map ml_pattern (fold seed_rule xs rows))"
  using assms
proof (induction xs arbitrary: rows)
  case (Cons x xs)
  have "distinct (map ml_pattern (seed_rule x rows))"
    using Cons.prems by (auto simp: seed_rule_def list_ex_iff split: prod.split)
  then show ?case using Cons.IH by simp
qed simp

text \<open>The first pattern that applies in the order of the table.\<close>

lemma find_sorted_first:
  assumes "sorted (map f xs)" "find P xs = Some x" "y \<in> set xs" "P y"
  shows "f x \<le> f y"
  using assms by (induction xs) (auto split: if_splits)

lemma find_map: "find P (map g xs) = map_option g (find (P \<circ> g) xs)"
  by (induction xs) auto

text \<open>C27. A rule that was switched off stays out: neither the seeding of the built-in rules at the next start
  nor the loading of the cache brings its pattern back.\<close>

theorem deactivated_rule_stays_out:
  assumes "distinct (map ml_pattern (merchant_rules d))" "r \<in> set (merchant_rules d)"
  shows "ml_pattern r \<notin> fst ` set (load_merchant_rules (seed_default_rules
    (merchant_rules (snd (deactivate_merchant_rule (ml_id r) d)))))"
proof -
  let ?rows = "merchant_rules (snd (deactivate_merchant_rule (ml_id r) d))"
  let ?P = "\<lambda>q. ml_id q = ml_id r \<and> ml_active q"
  have rows: "?rows = update_where ?P (\<lambda>q. q\<lparr>ml_active := False\<rparr>) (merchant_rules d)"
    by (simp add: deactivate_merchant_rule_def)
  have "map ml_pattern ?rows = map ml_pattern (merchant_rules d)" unfolding rows by (rule map_update_where) simp
  then have dist: "distinct (map ml_pattern (seed_default_rules ?rows))"
    using assms(1) seed_patterns unfolding seed_default_rules_def by simp
  obtain q where q: "q \<in> set ?rows" "ml_pattern q = ml_pattern r" "\<not> ml_active q"
  proof (cases "ml_active r")
    case True
    then show thesis using that[of "r\<lparr>ml_active := False\<rparr>"] assms(2) unfolding rows by (force simp: update_where_def)
  next
    case False
    then show thesis using that[of r] assms(2) unfolding rows by (force simp: update_where_def)
  qed
  then have q': "q \<in> set (seed_default_rules ?rows)" unfolding seed_default_rules_def by (rule_tac seed_keeps)
  have "\<not> (x \<in> set (seed_default_rules ?rows) \<and> ml_active x \<and> ml_pattern x = ml_pattern r)" for x
    using dist q q' by (metis distinct_map inj_onD)
  then show ?thesis by (force simp: load_merchant_rules_def)
qed

definition rule_table :: db where
  "rule_table = empty_db\<lparr>merchant_rules := [\<lparr>ml_id = 1, ml_pattern = ''swiggy'', ml_category = ''dining'', ml_active = True, ml_priority = 100\<rparr>]\<rparr>"

theorem deactivated_rule_stays_out_witness:
  "''swiggy'' \<notin> fst ` set (load_merchant_rules (seed_default_rules (merchant_rules (snd (deactivate_merchant_rule 1 rule_table)))))"
  using deactivated_rule_stays_out[of rule_table "hd (merchant_rules rule_table)"] by (simp add: rule_table_def)

text \<open>The most specific rule decides: of all active rules that apply to a row, the one that is used has
  the lowest priority number, the longest pattern among those, and the oldest id.\<close>

theorem merchant_rule_most_specific:
  assumes "merchant_rule_hit us f (load_merchant_rules rows) = Some hit"
  shows "\<exists>r \<in> set rows. ml_active r \<and> rule_applies us f (ml_pattern r, ml_category r) \<and>
    fst hit \<in> {ml_category r, ''investment_redemption''} \<and>
    (\<forall>q \<in> set rows. ml_active q \<and> py_strip (ml_pattern q) \<noteq> [] \<and> rule_applies us f (ml_pattern q, ml_category q) \<longrightarrow>
       rule_order r \<le> rule_order q)"
proof -
  let ?g = "\<lambda>r. (ml_pattern r, ml_category r)"
  let ?rows = "filter (\<lambda>r. py_strip (ml_pattern r) \<noteq> []) (sort_key rule_order (filter ml_active rows))"
  obtain x where x: "find (rule_applies us f) (map ?g ?rows) = Some x"
    "hit = (if snd x = ''investment'' \<and> f_direction f = ''credit'' then ''investment_redemption'' else snd x, 9/10)"
    using assms by (auto simp: merchant_rule_hit_def load_merchant_rules_def split: prod.splits)
  then obtain r where r: "find (rule_applies us f \<circ> ?g) ?rows = Some r" "x = ?g r" by (auto simp: find_map)
  have "r \<in> set ?rows" "rule_applies us f (?g r)" using find_SomeD[OF r(1)] by simp_all
  moreover have "rule_order r \<le> rule_order q" if "q \<in> set rows" "ml_active q" "py_strip (ml_pattern q) \<noteq> []" "rule_applies us f (?g q)" for q
    by (rule find_sorted_first[OF _ r(1)]) (use that in \<open>simp_all add: sorted_filter\<close>)
  ultimately show ?thesis using x(2) r(2) by auto
qed

definition two_rules :: "merchant_rule list" where
  "two_rules =
     [\<lparr>ml_id = 1, ml_pattern = ''amazon'', ml_category = ''shopping'', ml_active = True, ml_priority = 100\<rparr>,
      \<lparr>ml_id = 2, ml_pattern = ''amazon prime'', ml_category = ''subscriptions'', ml_active = True, ml_priority = 100\<rparr>]"

definition prime_fields :: rule_fields where
  "prime_fields =
     \<lparr>rf_counterparty = Some ''amazon prime'', rf_raw_description = None, rf_channel = None, rf_email_type = None,
      rf_direction = Some ''debit'', rf_bank = None, rf_account_type = None\<rparr>"

theorem merchant_rule_most_specific_witness:
  "\<exists>r. r \<in> set two_rules \<and> ml_category r = ''subscriptions'' \<and> rule_order r \<le> rule_order (hd two_rules)"
proof -
  have "merchant_rule_hit (load_user_buckets []) prime_fields (load_merchant_rules two_rules) = Some (''subscriptions'', 9/10)"
    by code_simp
  from merchant_rule_most_specific[OF this] obtain r where r: "r \<in> set two_rules" "fst (''subscriptions'', 9/10 :: decimal) \<in> {ml_category r, ''investment_redemption''}"
    "\<forall>q \<in> set two_rules. ml_active q \<and> py_strip (ml_pattern q) \<noteq> [] \<and>
       rule_applies (load_user_buckets []) prime_fields (ml_pattern q, ml_category q) \<longrightarrow> rule_order r \<le> rule_order q"
    by blast
  have "hd two_rules \<in> set two_rules" by (simp add: two_rules_def)
  moreover have "ml_active (hd two_rules) \<and> py_strip (ml_pattern (hd two_rules)) \<noteq> [] \<and>
      rule_applies (load_user_buckets []) prime_fields (ml_pattern (hd two_rules), ml_category (hd two_rules))"
    by code_simp
  ultimately show ?thesis using r by auto
qed

section \<open>Directions\<close>

lemma neutral_slugs:
  "list_all (\<lambda>s. s \<notin> set INCOME_SLUGS \<and> s \<notin> set EXPENSE_SLUGS \<and> s \<in> set builtin_slugs)
     [''investment'', ''self_transfer'', ''credit_card_payment'']"
  "list_all (\<lambda>s. s \<in> set INCOME_SLUGS \<and> s \<notin> set EXPENSE_SLUGS \<and> s \<in> set builtin_slugs)
     [''interest'', ''refund'', ''other_income'', ''investment_redemption'']"
  by code_simp+

lemma fixed_slugs_possible:
  assumes "us = load_user_buckets cs" "acct \<noteq> Some ''credit_card''"
  shows "s \<in> {''investment'', ''self_transfer'', ''credit_card_payment''} \<Longrightarrow> \<not> impossible_slug us dir acct s"
    "s \<in> {''interest'', ''refund'', ''other_income'', ''investment_redemption''} \<Longrightarrow> dir \<noteq> ''debit'' \<Longrightarrow> \<not> impossible_slug us dir acct s"
  using neutral_slugs user_slugs_not_builtin[of _ cs] assms
  by (auto simp: impossible_slug_def is_income_slug_def is_expense_slug_def)

definition refund_email :: "rule_fields \<Rightarrow> bool" where
  "refund_email f \<longleftrightarrow>
     sublist ''cc_refund'' (py_lower (or_empty (rf_email_type f))) \<or> suffix ''refund_screenshot'' (py_lower (or_empty (rf_email_type f)))"

text \<open>The structural rules with their conditions as variables.\<close>

lemma structural_shape:
  assumes "(if fd then Some (if credit then ''investment_redemption'' else ''investment'', n1)
      else if intr \<and> \<not> debit then Some (''interest'', n2)
      else if ref1 \<or> ref2 then Some (''refund'', n3)
      else if pay1 \<or> pay2 \<or> pay3 then Some (''credit_card_payment'', n4)
      else if credit \<and> fee then Some (''fees_charges'', n5)
      else if crd \<and> mark1 then Some (''refund'', n6)
      else if crd \<and> (mark2 \<or> lead) then Some (''credit_card_payment'', n7)
      else if credit \<and> \<not> crd \<and> divi then Some (''other_income'', n8) else None) = Some (slug, conf)" "\<not> crd"
  shows "slug \<in> {''investment'', ''credit_card_payment''} \<or>
      slug \<in> {''investment_redemption'', ''other_income''} \<and> credit \<or>
      slug = ''interest'' \<and> \<not> debit \<or> slug = ''refund'' \<and> (ref1 \<or> ref2) \<or> slug = ''fees_charges'' \<and> fee"
  using assms by (simp split: if_splits)

text \<open>C26. Off a credit card a rule never answers with a category that the direction guard calls impossible,
  save a reversed fee on a credit, a refund alert on a debit, and a merchant rule for \<open>unknown\<close>.\<close>

theorem rule_answers_possible:
  assumes "match_rules (load_user_buckets cs) cfg f = Some (slug, conf)" "rf_account_type f \<noteq> Some ''credit_card''"
  shows "\<not> impossible_slug (load_user_buckets cs) (f_direction f) (rf_account_type f) slug \<or>
    slug = ''fees_charges'' \<and> has_marker (narration f) FEE_REVERSAL_MARKERS \<or>
    slug = ''refund'' \<and> refund_email f \<or> slug = ''unknown''"
proof -
  let ?us = "load_user_buckets cs"
  note fixed = fixed_slugs_possible[OF refl assms(2), where dir = "f_direction f"]
  have card: "\<not> is_card_credit f" using assms(2) by (simp add: is_card_credit_def)
  consider "structural_rules f = Some (slug, conf)" | "merchant_rule_hit ?us f (rule_cache cfg) = Some (slug, conf)"
    | "fallback_rules cfg f = Some (slug, conf)"
    using assms(1) by (auto simp: match_rules_def split: option.splits)
  then show ?thesis
  proof cases
    case 1
    then have "slug \<in> {''investment'', ''credit_card_payment''} \<or>
        slug \<in> {''investment_redemption'', ''other_income''} \<and> f_direction f = ''credit'' \<or>
        slug = ''interest'' \<and> f_direction f \<noteq> ''debit'' \<or> slug = ''refund'' \<and> refund_email f \<or>
        slug = ''fees_charges'' \<and> has_marker (narration f) FEE_REVERSAL_MARKERS"
      unfolding structural_rules_def Let_def refund_email_def by (rule structural_shape) (rule card)
    then show ?thesis
    proof (elim disjE conjE)
      assume "slug \<in> {''investment'', ''credit_card_payment''}"
      then have "slug \<in> {''investment'', ''self_transfer'', ''credit_card_payment''}" by blast
      from fixed(1)[OF this] show ?thesis by blast
    next
      assume "slug \<in> {''investment_redemption'', ''other_income''}" "f_direction f = ''credit''"
      then have "slug \<in> {''interest'', ''refund'', ''other_income'', ''investment_redemption''}" "f_direction f \<noteq> ''debit''"
        by (blast, simp)
      from fixed(2)[OF this] show ?thesis by blast
    next
      assume "slug = ''interest''" "f_direction f \<noteq> ''debit''"
      then have "slug \<in> {''interest'', ''refund'', ''other_income'', ''investment_redemption''}" by blast
      from fixed(2)[OF this \<open>f_direction f \<noteq> ''debit''\<close>] show ?thesis by blast
    qed blast+
  next
    case 2
    then obtain x where x: "find (rule_applies ?us f) (rule_cache cfg) = Some x"
      "slug = (if snd x = ''investment'' \<and> f_direction f = ''credit'' then ''investment_redemption'' else snd x)"
      by (auto simp: merchant_rule_hit_def split: prod.splits)
    have "rule_applies ?us f x" using find_SomeD[OF x(1)] by simp
    then have "\<not> impossible_slug ?us (f_direction f) (rf_account_type f) (snd x) \<or> snd x = ''unknown''"
      using assms(2) by (auto simp: rule_applies_def impossible_slug_def split: prod.splits)
    moreover have "f_direction f = ''credit'' \<Longrightarrow> \<not> impossible_slug ?us (f_direction f) (rf_account_type f) ''investment_redemption''"
      by (rule fixed(2)) simp_all
    ultimately show ?thesis using x(2) by presburger
  next
    case 3
    then have "slug = ''self_transfer'' \<or> slug = ''other_income'' \<and> f_direction f = ''credit''"
      using card by (auto simp: fallback_rules_def Let_def split: if_splits)
    then show ?thesis
    proof (elim disjE conjE)
      assume "slug = ''self_transfer''"
      then have "slug \<in> {''investment'', ''self_transfer'', ''credit_card_payment''}" by simp
      from fixed(1)[OF this] show ?thesis by blast
    next
      assume "slug = ''other_income''" and cr: "f_direction f = ''credit''"
      then have "slug \<in> {''interest'', ''refund'', ''other_income'', ''investment_redemption''}" by blast
      from fixed(2)[OF this] cr show ?thesis by simp
    qed
  qed
qed

definition payroll_on_card :: rule_fields where
  "payroll_on_card =
     \<lparr>rf_counterparty = Some ''payroll'', rf_raw_description = None, rf_channel = None, rf_email_type = None,
      rf_direction = Some ''credit'', rf_bank = None, rf_account_type = Some ''credit_card''\<rparr>"

text \<open>On a credit card a merchant rule of an income category does answer with an impossible one.\<close>

lemma card_credit_rule_impossible:
  "match_rules (load_user_buckets []) (load_rule_config [] [(''payroll'', ''salary'')]) payroll_on_card = Some (''salary'', 9/10)"
  "resolve_direction (load_user_buckets []) ''salary'' ''credit'' (Some ''credit_card'') = (''credit_card_payment'', True)"
  by code_simp+

lemma payroll_ruled:
  "match_rules (load_user_buckets []) (load_rule_config [] [(''payroll'', ''salary'')]) (payroll_on_card\<lparr>rf_account_type := None\<rparr>)
     = Some (''salary'', 9/10)"
  "f_direction (payroll_on_card\<lparr>rf_account_type := None\<rparr>) = ''credit''"
  by code_simp+

theorem rule_answers_possible_witness:
  "\<not> impossible_slug (load_user_buckets []) ''credit'' None ''salary''"
proof -
  have acct: "rf_account_type (payroll_on_card\<lparr>rf_account_type := None\<rparr>) = None" by simp
  show ?thesis using rule_answers_possible[OF payroll_ruled(1)] unfolding acct payroll_ruled(2) by simp
qed

section \<open>The backfill\<close>

lemma backfill_ruled:
  assumes "distinct (map t_id (transactions d))"
  obtains n d1 where "drain (run_rule_sweep c e (max batch 500)) d = Some (n, d1)" "rows_ruled (map t_id (transactions d)) d1"
proof -
  have "rows_are (map t_id (transactions d)) d" "0 < max batch 500" using assms by (simp_all add: rows_are_def)
  from rule_drain[OF this, of c e] show thesis using that by blast
qed

text \<open>C23. The backfill returns: with distinct ids both of its loops end, whatever the model answers and
  however often it fails, no row is lost, and every row has been through the rules. No other session writes meanwhile.\<close>

theorem backfill_terminates:
  assumes "distinct (map t_id (transactions d))"
  shows "\<exists>n m d'. backfill c e enabled ask batch rules_only d = Some (n, m, d') \<and>
    map t_id (transactions d') = map t_id (transactions d) \<and> list_all (\<lambda>t. \<not> untouched t) (transactions d')"
proof -
  obtain n d1 where r: "drain (run_rule_sweep c e (max batch 500)) d = Some (n, d1)" "rows_ruled (map t_id (transactions d)) d1"
    by (rule backfill_ruled[OF assms])
  show ?thesis
    using llm_sweep.returns[OF r(2), of c e enabled ask batch] r
    by (cases rules_only) (auto simp: backfill_def list_all_iff rows_ruled_def rows_are_def)
qed

definition sample_config :: category_config where
  "sample_config =
     \<lparr>cg_user_slugs = load_user_buckets [], cg_rules = default_rule_config, cg_threshold = 1/2, cg_model = ''m'',
      cg_digest = (\<lambda>p. or_empty (cp_category p))\<rparr>"

definition one_row :: db where
  "one_row = empty_db\<lparr>transactions := [blank_txn\<lparr>t_counterparty := Some ''corner shop''\<rparr>]\<rparr>"

theorem backfill_terminates_witness:
  "\<exists>n m d'. backfill sample_config sample_env True no_provider 10 False one_row = Some (n, m, d') \<and>
    map t_id (transactions d') = map t_id (transactions one_row) \<and> list_all (\<lambda>t. \<not> untouched t) (transactions d')"
  by (rule backfill_terminates) (simp add: one_row_def)

text \<open>C24. When the model is reachable and answers every question, no row needs work after the backfill:
  each has a category of a rule, of the owner or of the model under the present vocabulary.\<close>

theorem backfill_leaves_no_work:
  assumes "distinct (map t_id (transactions d))" "0 < batch" "\<And>d t s. ask d t s \<noteq> None"
    "backfill c e True ask batch False d = Some (n, m, d')"
  shows "list_all (\<lambda>t. \<not> needs_work True e t) (transactions d')"
proof -
  obtain k d1 where r: "drain (run_rule_sweep c e (max batch 500)) d = Some (k, d1)" "rows_ruled (map t_id (transactions d)) d1"
    by (rule backfill_ruled[OF assms(1)])
  obtain j d0 d2 where l: "drain (run_llm_sweep c e True ask (\<lambda>_ d. d) (\<lambda>_ d. d) batch) d1 = Some (j, d2)"
    "rows_ruled (map t_id (transactions d)) d0" "run_llm_sweep c e True ask (\<lambda>_ d. d) (\<lambda>_ d. d) batch d0 = (0, d2)"
    using llm_sweep.returns[OF r(2), of c e True ask batch] by blast
  have "distinct (map t_id (transactions d0))" using l(2) by (simp add: rows_ruled_def rows_are_def)
  from llm_sweep_idle[OF l(3) this assms(3)] have "take batch (work_ids True e d0) = []" "d2 = d0" by blast+
  then have "work_ids True e d2 = []" using assms(2) by simp
  moreover have "d' = d2" using assms(4) r(1) l(1) by (simp add: backfill_def)
  ultimately show ?thesis by (simp add: work_ids_def filter_empty_conv list_all_iff)
qed

definition always_dining :: provider where
  "always_dining = (\<lambda>_ _ _. Some \<lparr>lr_slug = ''dining'', lr_confidence = 9/10, lr_reason = [], lr_candidates = [], lr_search = None\<rparr>)"

theorem backfill_leaves_no_work_witness:
  "\<exists>n m d'. backfill sample_config sample_env True always_dining 10 False one_row = Some (n, m, d') \<and>
    list_all (\<lambda>t. \<not> needs_work True sample_env t) (transactions d')"
proof -
  have dist: "distinct (map t_id (transactions one_row))" by (simp add: one_row_def)
  obtain n d1 where r: "drain (run_rule_sweep sample_config sample_env (max 10 500)) one_row = Some (n, d1)"
    "rows_ruled (map t_id (transactions one_row)) d1" by (rule backfill_ruled[OF dist])
  obtain m d' where run: "backfill sample_config sample_env True always_dining 10 False one_row = Some (n, m, d')"
    using llm_sweep.returns[OF r(2), of sample_config sample_env True always_dining 10] r(1) by (auto simp: backfill_def)
  have "list_all (\<lambda>t. \<not> needs_work True sample_env t) (transactions d')"
    by (rule backfill_leaves_no_work[OF dist _ _ run]) (simp_all add: always_dining_def)
  then show ?thesis using run by blast
qed

section \<open>The answer of the model\<close>

lemma clamp_bounds: "0 \<le> clamp c \<and> clamp c \<le> 1"
  by (simp add: clamp_def split: option.split)

lemma parse_candidates_ok:
  assumes "length found < 3" "distinct (map fst found)" "list_all (\<lambda>(s, c). s \<in> set active \<and> 0 \<le> c \<and> c \<le> 1) found"
  shows "length (parse_candidates active items found) \<le> 3 \<and> distinct (map fst (parse_candidates active items found)) \<and>
    list_all (\<lambda>(s, c). s \<in> set active \<and> 0 \<le> c \<and> c \<le> 1) (parse_candidates active items found)"
  using assms
proof (induction active items found rule: parse_candidates.induct)
  case (1 active found)
  then show ?case by simp
next
  case (2 active raw c items found)
  let ?slug = "py_strip raw"
  show ?case
  proof (cases "?slug \<notin> set active \<or> ?slug \<in> fst ` set found")
    case True
    then show ?thesis using 2 by (simp add: Let_def)
  next
    case False
    then have "distinct (map fst (found @ [(?slug, clamp c)]))"
      "list_all (\<lambda>(s, c). s \<in> set active \<and> 0 \<le> c \<and> c \<le> 1) (found @ [(?slug, clamp c)])"
      using 2(3-5) clamp_bounds[of c] by simp_all
    then show ?thesis using False 2 by (simp add: Let_def)
  qed
qed


text \<open>C22. The model never gets a category past the direction guard: the category it leaves on a row is possible
  for the direction and the account of the row as they are after the call, whatever was committed during it;
  only a row without any text keeps \<open>unknown\<close>.\<close>

theorem model_answer_possible:
  assumes "categorize_one c e ask race True t d = Some (Classified, d')" "get_txn (t_id t) d = Some t"
    "cg_user_slugs c = load_user_buckets cs"
  shows "\<exists>t' s. get_txn (t_id t) d' = Some t' \<and> t_category t' = Some s \<and>
    (\<not> impossible_slug (load_user_buckets cs) (t_direction t') (account_type d' t') s \<or>
     s = ''unknown'' \<and> t_category_model t' = Some ''empty-input'')"
proof -
  consider (empty) hash where "d' = write_txn (t_id t) (set_empty_input e hash) d"
    | (answer) hash r cur where "get_txn (t_id t) (race d) = Some cur" "d' = apply_answer c e hash r cur (race d)"
    using assms(1) by (auto simp: categorize_one_def classify_row_def Let_def split: prod.splits if_splits option.splits)
  then show ?thesis
  proof cases
    case empty
    have "get_txn (t_id t) d' = Some (set_empty_input e hash t)"
      unfolding empty by (rule get_write[OF assms(2)]) (simp add: set_empty_input_def stamp_def)
    then show ?thesis by (auto simp: set_empty_input_def stamp_def)
  next
    case answer
    let ?t1 = "(stamp e hash cur)\<lparr>t_category_method := Some ''llm'', t_category_model := Some (cg_model c)\<rparr>"
    obtain t4 d4 where p: "d' = write_txn (t_id cur) (\<lambda>_. t4) d4" "transactions d4 = transactions (race d)" "t_id t4 = t_id cur"
      "t_category t4 = t_category (fst (gate_answer c r (account_type (race d) cur) ?t1))"
      "t_direction t4 = t_direction cur" "t_account_id t4 = t_account_id cur" "accounts d4 = accounts (race d)"
      using apply_answer_parts[of c e hash r cur "race d"] answer(2) by metis
    have cur: "t_id cur = t_id t" using get_txn_Some[OF answer(1)] by simp
    have w: "transactions d' = transactions (write_txn (t_id cur) (\<lambda>r. t4\<lparr>t_id := t_id r\<rparr>) (race d))"
      using p(2,3) by (simp add: p(1) write_txn_def update_where_def)
    have "get_txn (t_id t) d' = Some t4"
      using get_write[of "t_id t" "race d" cur "\<lambda>r. t4\<lparr>t_id := t_id r\<rparr>"] answer(1) w p(3) cur by (simp add: get_txn_def)
    moreover obtain s where "t_category t4 = Some (fst (resolve_direction (load_user_buckets cs) s (t_direction cur) (account_type (race d) cur)))"
      using gate_category[of c r "account_type (race d) cur" ?t1] p(4) assms(3) by (auto simp: stamp_def)
    moreover have "account_type d' t4 = account_type (race d) cur" using p(1,6,7) by (simp add: account_type_def write_txn_def split: option.split)
    ultimately show ?thesis using resolve_direction_possible p(5) by simp
  qed
qed

definition bank_row :: txn where
  "bank_row = blank_txn\<lparr>t_counterparty := Some ''corner shop''\<rparr>"

definition says_salary :: provider where
  "says_salary = (\<lambda>_ _ _. Some \<lparr>lr_slug = ''salary'', lr_confidence = 9/10, lr_reason = [], lr_candidates = [], lr_search = None\<rparr>)"

theorem model_answer_possible_witness:
  "\<exists>d' t' s. categorize_one sample_config sample_env says_salary (\<lambda>d. d) True bank_row one_row = Some (Classified, d') \<and>
    get_txn 0 d' = Some t' \<and> t_category t' = Some s \<and>
    (\<not> impossible_slug (load_user_buckets []) (t_direction t') (account_type d' t') s \<or>
     s = ''unknown'' \<and> t_category_model t' = Some ''empty-input'')"
proof -
  have "map_option fst (categorize_one sample_config sample_env says_salary (\<lambda>d. d) True bank_row one_row) = Some Classified"
    by code_simp
  then obtain d' where run: "categorize_one sample_config sample_env says_salary (\<lambda>d. d) True bank_row one_row = Some (Classified, d')"
    by auto
  have row: "t_id bank_row = 0" "get_txn (t_id bank_row) one_row = Some bank_row"
    by (simp_all add: bank_row_def one_row_def get_txn_def blank_txn_def)
  have "cg_user_slugs sample_config = load_user_buckets []" by (simp add: sample_config_def)
  from model_answer_possible[OF run row(2) this] show ?thesis using run row(1) by auto
qed

section \<open>Questions to the owner\<close>

text \<open>C25. No row waits for the owner without a question: a row that the model's answer leaves pending or
  notified has an active decision that a button can use.\<close>

theorem pending_row_has_question:
  assumes "t' = hd (filter (\<lambda>r. t_id r = t_id t) (transactions (apply_answer c e hash r t d)))"
    "get_txn (t_id t) d = Some t" "t_review_status t' \<in> {Some ''pending'', Some ''notified''}"
  shows "list_ex (active_decision (t_id t) None) (review_decisions (apply_answer c e hash r t d))"
proof -
  obtain t4 d4 where p: "apply_answer c e hash r t d = write_txn (t_id t) (\<lambda>_. t4) d4" "transactions d4 = transactions d"
    "t_id t4 = t_id t"
    "t_review_status t4 \<in> {Some ''pending'', Some ''notified''} \<Longrightarrow> list_ex (active_decision (t_id t) None) (review_decisions d4)"
    using apply_answer_parts[of c e hash r t d] by metis
  have "find (\<lambda>r. t_id r = t_id t) rows = Some t \<Longrightarrow>
      hd (filter (\<lambda>r. t_id r = t_id t) (update_where (\<lambda>r. t_id r = t_id t) (\<lambda>_. t4) rows)) = t4" for rows
    using p(3) by (induction rows) (auto split: if_splits)
  then have "t' = t4" using assms(1,2) p(1,2) by (simp add: get_txn_def write_txn_def)
  then show ?thesis using p(1,4) assms(3) by (simp add: write_txn_def)
qed

definition unsure :: llm_result where
  "unsure = \<lparr>lr_slug = ''dining'', lr_confidence = 1/10, lr_reason = [], lr_candidates = [], lr_search = None\<rparr>"

theorem pending_row_has_question_witness:
  "list_ex (active_decision 0 None) (review_decisions (apply_answer sample_config sample_env [] unsure bank_row one_row))"
proof -
  have "t_review_status (hd (filter (\<lambda>r. t_id r = t_id bank_row)
      (transactions (apply_answer sample_config sample_env [] unsure bank_row one_row)))) = Some ''pending''"
    by code_simp
  moreover have row: "t_id bank_row = 0" "get_txn (t_id bank_row) one_row = Some bank_row"
    by (simp_all add: bank_row_def one_row_def get_txn_def blank_txn_def)
  ultimately show ?thesis
    using pending_row_has_question[OF refl row(2), of sample_config sample_env "[]" unsure] by (simp only: row(1)) simp
qed

text \<open>A new answer leaves one open question: with at most one active decision of the row before, the
  decision that is reused or created is the only active one afterwards.\<close>

theorem one_open_question:
  assumes "length (filter (active_decision (t_id t) None) (review_decisions d)) \<le> 1"
    "create_or_reuse_decision e t cs gate p conf thr src d = (r, d')"
  shows "filter (active_decision (t_id t) None) (review_decisions d') = [r]"
proof (rule create_cases[of e t cs gate p conf thr src d])
  fix q
  assume q: "create_or_reuse_decision e t cs gate p conf thr src d = (q, d)" "q \<in> set (review_decisions d)"
    "active_decision (t_id t) None q"
  then have "q \<in> set (filter (active_decision (t_id t) None) (review_decisions d))" by simp
  then have "filter (active_decision (t_id t) None) (review_decisions d) = [q]"
    using assms(1) by (cases "filter (active_decision (t_id t) None) (review_decisions d)") auto
  then show ?thesis using q(1) assms(2) by simp
next
  fix q d1
  assume "create_or_reuse_decision e t cs gate p conf thr src d = (q, add_decision q d1)"
    "active_decision (t_id t) None q" "filter (active_decision (t_id t) None) (review_decisions d1) = []"
  then show ?thesis using assms(2) by (auto simp: add_decision_def)
qed

theorem one_open_question_witness:
  "filter (active_decision 0 None) (review_decisions (snd (create_or_reuse_decision sample_env blank_txn [''dining''] None None None None None empty_db)))
     = [fst (create_or_reuse_decision sample_env blank_txn [''dining''] None None None None None empty_db)]"
  using one_open_question[of blank_txn empty_db sample_env "[''dining'']" None None None None None]
  by (cases "create_or_reuse_decision sample_env blank_txn [''dining''] None None None None None empty_db")
    (simp add: empty_db_def blank_txn_def)

text \<open>The effect of a button.\<close>

lemma assigned_strict:
  assumes "assign_category_no_commit us e tid (Some sel) actor Inferred_strict (Some i) d = ((True, Some slug), d')"
  obtains t c f where "get_txn tid d = Some t" "find_manual_category (py_strip sel) (categories d) = Some c" "slug = k_slug c"
    "k_active c" "fst (resolve_direction us slug (t_direction t) (account_type d t)) = slug"
    "d' = supersede_active_decisions e tid (Some i) (write_txn tid f d)"
    "t_category (f t) = Some slug" "t_category_method (f t) = Some ''manual''" "\<And>r. t_id (f r) = t_id r"
  using assms by (auto simp: assign_category_no_commit_def Let_def split: option.splits if_splits intro: that)

lemma consumed:
  assumes "consume_decision us e i sel hash m d = Some (a, d')"
  obtains r t slug d1 where "get_decision i d = Some r" "get_txn (rd_transaction_id r) d = Some t" "sel \<in> set (rd_candidates r)"
    "assign_category_no_commit us e (t_id t) (Some sel) ''assistant_button'' Inferred_strict (Some i) d = ((True, Some slug), d1)"
    "length (filter (claimable_decision e i hash) (review_decisions d1)) = 1"
    "transactions d' = transactions d1"
    "review_decisions d' = update_where (claimable_decision e i hash)
       (\<lambda>r. r\<lparr>rd_status := ''consumed'', rd_selected_slug := Some sel, rd_consumed_at := Some (e_now e)\<rparr>) (review_decisions d1)"
proof -
  obtain r where r: "get_decision i d = Some r" using assms by (auto simp: consume_decision_def split: option.splits)
  obtain t where t: "get_txn (rd_transaction_id r) d = Some t"
    using assms r by (auto simp: consume_decision_def split: option.splits if_splits)
  obtain ok slug d1 where as: "assign_category_no_commit us e (t_id t) (Some sel) ''assistant_button'' Inferred_strict (Some i) d = ((ok, slug), d1)"
    by (metis surj_pair)
  show thesis
    by (rule that[OF r t, of "the slug" d1])
      (use assms r t as in \<open>auto simp: consume_decision_def Let_def split: option.splits if_splits bool.splits\<close>)
qed

text \<open>C21. A button works once. Using a decision sets the row to a candidate of the decision, an active
  category that the direction guard keeps; no decision of the row stays open, and no further tap on the button,
  by anyone and for any candidate, does anything.\<close>

theorem decision_used_once:
  assumes "consume_decision us e i sel hash m d = Some (a, d')" "distinct (map rd_id (review_decisions d))"
  shows "\<exists>r t t' c. get_decision i d = Some r \<and> get_txn (rd_transaction_id r) d = Some t \<and> sel \<in> set (rd_candidates r) \<and>
    get_txn (rd_transaction_id r) d' = Some t' \<and> t_category t' = Some (k_slug c) \<and> t_category_method t' = Some ''manual'' \<and>
    find_manual_category (py_strip sel) (categories d) = Some c \<and> k_active c \<and>
    fst (resolve_direction us (k_slug c) (t_direction t) (account_type d t)) = k_slug c \<and>
    filter (active_decision (rd_transaction_id r) None) (review_decisions d') = [] \<and>
    consume_decision us' e' i sel' hash' m' d' = None"
proof -
  obtain r t slug d1 where r: "get_decision i d = Some r" and t: "get_txn (rd_transaction_id r) d = Some t"
    and sel: "sel \<in> set (rd_candidates r)"
    and as: "assign_category_no_commit us e (t_id t) (Some sel) ''assistant_button'' Inferred_strict (Some i) d = ((True, Some slug), d1)"
    and one: "length (filter (claimable_decision e i hash) (review_decisions d1)) = 1"
    and d': "transactions d' = transactions d1"
      "review_decisions d' = update_where (claimable_decision e i hash)
       (\<lambda>r. r\<lparr>rd_status := ''consumed'', rd_selected_slug := Some sel, rd_consumed_at := Some (e_now e)\<rparr>) (review_decisions d1)"
    using assms(1) by (rule consumed)
  have tid: "t_id t = rd_transaction_id r" using get_txn_Some[OF t] by simp
  obtain t0 c f where t0: "get_txn (t_id t) d = Some t0" and c: "find_manual_category (py_strip sel) (categories d) = Some c"
      "slug = k_slug c" "k_active c" "fst (resolve_direction us slug (t_direction t0) (account_type d t0)) = slug"
    and d1: "d1 = supersede_active_decisions e (t_id t) (Some i) (write_txn (t_id t) f d)"
    and f: "t_category (f t0) = Some slug" "t_category_method (f t0) = Some ''manual''" "\<And>r. t_id (f r) = t_id r"
    using as by (rule assigned_strict) blast
  have same: "t0 = t" using t0 t tid by simp
  have row: "get_txn (rd_transaction_id r) d' = Some (f t)"
    using get_write[OF t0 f(3)] d1 d'(1) tid same by (simp add: get_txn_def)
  have ids: "map rd_id (review_decisions d1) = map rd_id (review_decisions d)"
    unfolding d1 by (simp add: supersede_decisions write_txn_def map_update_where)
  have closed: "rd_status q \<noteq> ''active''" if q: "q \<in> set (review_decisions d')" "rd_id q = i" for q
  proof -
    obtain q0 where q0: "q0 \<in> set (review_decisions d1)"
      "q = (if claimable_decision e i hash q0 then q0\<lparr>rd_status := ''consumed'', rd_selected_slug := Some sel, rd_consumed_at := Some (e_now e)\<rparr> else q0)"
      using in_set_update_where[OF q(1)[unfolded d'(2)]] by blast
    have "filter (claimable_decision e i hash) (review_decisions d1) \<noteq> []" using one by auto
    then obtain x where x: "x \<in> set (review_decisions d1)" "claimable_decision e i hash x" by (auto simp: filter_empty_conv)
    have "rd_id q0 = rd_id x" using q0(2) q(2) x(2) by (auto simp: claimable_decision_def split: if_splits)
    then have "q0 = x" using q0(1) x(1) ids assms(2) by (metis distinct_map inj_onD)
    then show ?thesis using q0(2) x(2) by simp
  qed
  have none: "filter (active_decision (rd_transaction_id r) None) (review_decisions d') = []"
  proof -
    have "\<not> active_decision (rd_transaction_id r) None q" if q: "q \<in> set (review_decisions d')" for q
    proof
      assume act: "active_decision (rd_transaction_id r) None q"
      then have "rd_id q \<noteq> i" using closed[OF q] by (auto simp: active_decision_def)
      obtain q0 where q0: "q0 \<in> set (review_decisions d1)"
        "q = (if claimable_decision e i hash q0 then q0\<lparr>rd_status := ''consumed'', rd_selected_slug := Some sel, rd_consumed_at := Some (e_now e)\<rparr> else q0)"
        using in_set_update_where[OF q[unfolded d'(2)]] by blast
      then have "active_decision (t_id t) (Some i) q0"
        using act \<open>rd_id q \<noteq> i\<close> tid by (auto simp: active_decision_def split: if_splits)
      then show False using supersede_no_active q0(1) unfolding d1 by blast
    qed
    then show ?thesis by (simp add: filter_empty_conv)
  qed
  have "consume_decision us' e' i sel' hash' m' d' = None"
  proof (cases "get_decision i d'")
    case None
    then show ?thesis by (simp add: consume_decision_def)
  next
    case (Some q)
    then have "q \<in> set (review_decisions d')" "rd_id q = i" unfolding get_decision_def by (auto dest: find_SomeD)
    then show ?thesis using closed Some by (simp add: consume_decision_def)
  qed
  then show ?thesis using r t sel row f c none same by blast
qed

definition asked_row :: db where
  "asked_row =
     (let t = blank_txn\<lparr>t_review_status := Some ''pending''\<rparr>;
          hash = compute_input_hash sample_env (build_input_payload t None)
      in empty_db\<lparr>transactions := [t], categories := [\<lparr>k_slug = ''dining'', k_active = True, k_bucket = None\<rparr>],
        review_decisions := [(blank_decision 1 0)\<lparr>rd_candidates := [''dining''], rd_category_input_hash := hash\<rparr>]\<rparr>)"

theorem decision_used_once_witness:
  "\<exists>a d' t'. consume_decision (load_user_buckets []) sample_env 1 ''dining'' [] None asked_row = Some (a, d') \<and>
    get_txn 0 d' = Some t' \<and> t_category t' = Some ''dining'' \<and>
    consume_decision (load_user_buckets []) sample_env 1 ''dining'' [] None d' = None"
proof -
  have "consume_decision (load_user_buckets []) sample_env 1 ''dining'' [] None asked_row \<noteq> None"
    by code_simp
  then obtain a d' where run: "consume_decision (load_user_buckets []) sample_env 1 ''dining'' [] None asked_row = Some (a, d')"
    by auto
  have dist: "distinct (map rd_id (review_decisions asked_row))" by (simp add: asked_row_def Let_def)
  have cat: "map_option k_slug (find_manual_category (py_strip ''dining'') (categories asked_row)) = Some ''dining''" by code_simp
  have dec: "map_option rd_transaction_id (get_decision 1 asked_row) = Some 0" by code_simp
  show ?thesis
    using decision_used_once[OF run dist, of "load_user_buckets []" sample_env "''dining''" "[]" None] run cat dec by auto
qed

end
