(* ===== verification/Spec2Isabelle.thy ===== *)
theory Spec2Isabelle
  imports Merge_Facts Cc_Payments Bridge_Facts Outbox_Facts Ledger_Facts Bank_Facts Cc_Facts Phantom_Facts Category_Properties
begin

text \<open>
  A verification of the core services of the financial dashboard: the program that collects bank
  emails, SMS messages, statements and screenshots, turns them into one table of transactions, tracks
  card bills, reports cash flow and keeps a ledger of debts. The code is under
  \<^verbatim>\<open>src/financial_dashboard\<close>; file names below are relative to it.

  \<^bold>\<open>How the parts interact.\<close> The ingestion pipelines parse a message outside the modelled code and
  call \<open>merge_transaction\<close> (\<^verbatim>\<open>services/txn_merge.py\<close>) with the event. It links the event to an account
  and a card (\<^verbatim>\<open>services/linker.py\<close> over \<^verbatim>\<open>core/masks.py\<close>, and \<^verbatim>\<open>services/cc_disambiguation.py\<close> for a bill
  payment), looks for a stored row of the same event, and inserts a row or enriches the stored one;
  a change can requeue the row for categorization (\<^verbatim>\<open>services/categorization\<close>), which supersedes the open
  questions about it and cancels their Telegram messages (\<^verbatim>\<open>services/assistant/delivery.py\<close>). Card bills
  follow the rows (\<^verbatim>\<open>services/cc_cycle.py\<close>, \<^verbatim>\<open>services/reminders.py\<close>); the cash-flow report and the cash
  bridge (\<^verbatim>\<open>services/cashflow\<close>) read rows, categories and balances; the ledger of receivables
  (\<^verbatim>\<open>services/receivables.py\<close>, \<^verbatim>\<open>services/receivable_matches.py\<close>) links rows to debts and asks the owner
  over the same outbox. A bank statement (\<^verbatim>\<open>services/statements/bank.py\<close>) is reconciled with the rows of its
  account: matched rows are enriched, missing lines imported as new rows; a card statement
  (\<^verbatim>\<open>services/statements/cc.py\<close>) likewise. The sweeps of the categorization take the rows that have no
  category yet through the rules and the model, and ask the owner where the model is not sure.

  \<^bold>\<open>The theories.\<close>
  \<^item> \<open>Prelude\<close>: characters, strings, decimals, dates and times, and sums. \<open>Transitions\<close>: what an
    invariant and an order give for runs of a step relation, as locales.
  \<^item> \<open>Masks\<close>: \<^verbatim>\<open>core/masks.py\<close>. Two masks match exactly when one account number fits both.
  \<^item> \<open>Db_Model\<close>: the rows of \<^verbatim>\<open>db/models.py\<close> and the database as the record of its tables.
  \<^item> \<open>Linker\<close>: \<^verbatim>\<open>services/linker.py\<close>. The lookup tables and the cascade refine a declarative target.
  \<^item> \<open>Txn_Match\<close>, \<open>Match_Facts\<close>: the matcher of \<^verbatim>\<open>services/txn_merge.py\<close>: what a match agrees on, the
    role of the reference, the windows.
  \<^item> \<open>Enrichment\<close>, \<open>Enrichment_Facts\<close>: the enrichment of a stored row: idempotent, never moves an event
    to a later moment, loses no value, keeps the money.
  \<^item> \<open>Category_Followups\<close>: the self-transfer rule, superseding of decisions, requeueing, and the payload
    whose digest tells whether a row has changed.
  \<^item> \<open>Txn_Merge\<close>, \<open>Merge_Facts\<close>: the whole merge with the unique index, the source slots and the races of
    other sessions: it never raises on clean input, keeps the index, and redelivery creates nothing.
  \<^item> \<open>Outbox\<close>, \<open>Outbox_Facts\<close>: the durable outbox as a state machine; its invariant is an interpretation
    of the locale of monotone runs.
  \<^item> \<open>Cc_Cycle\<close>, \<open>Cc_Disambiguation\<close>, \<open>Calendar\<close>, \<open>Cc_Payments\<close>: billing cycles, which card a payment
    belongs to, the payment state of a bill, reminders and snapshots.
  \<^item> \<open>Buckets\<close>, \<open>Cashflow_Report\<close>, \<open>Report_Facts\<close>, \<open>Cash_Bridge\<close>, \<open>Bridge_Facts\<close>: categories and their
    buckets, the report, and the bridge from opening to closing balance.
  \<^item> \<open>Person_Identifiers\<close>, \<open>Receivables\<close>, \<open>Receivable_Matches\<close>, \<open>Ledger_Facts\<close>: the ledger of debts, the
    values that name a person, the matching sweep and the tap; the ledger machine and its invariant.
  \<^item> \<open>Bank_Reconcile\<close>, \<open>Bank_Import\<close>, \<open>Bank_Facts\<close>: \<^verbatim>\<open>services/statements/bank.py\<close>: the two passes that pair
    the lines of a bank statement with stored rows, contention, enrichment, import and the upload row. A
    match is sound and one-to-one, every line has one outcome, and no import stores a second copy.
  \<^item> \<open>Sequence_Matcher\<close>: the \<open>ratio\<close> of difflib, with its bounds and the termination of its queue.
    \<open>Cc_Reconcile\<close>, \<open>Cc_Import\<close>, \<open>Cc_Facts\<close>: \<^verbatim>\<open>services/statements/cc.py\<close>: the greedy pass, contested
    winners, foreign alerts, enrichment and import of a card statement. A match is sound and one-to-one,
    every line has one outcome, a new row is linked to no card, and an amount that is no number aborts
    the import.
  \<^item> \<open>Statement_Previews\<close>: \<^verbatim>\<open>services/statement_previews.py\<close>, today's parse of a stored statement
    reconciled without a write. \<open>Row_References\<close>: everything that names a row, pointed at another row.
    \<open>Duplicate_Merge\<close>, \<open>Duplicate_Facts\<close>, \<open>Duplicate_Batch\<close>: \<^verbatim>\<open>services/duplicate_merge.py\<close>: batches of
    merges, all or none; nothing names a duplicate afterwards, the other rows keep their money, and an
    override is backed by a reparse. \<open>Phantom_Delete\<close>, \<open>Phantom_Facts\<close>: \<^verbatim>\<open>services/phantom_delete.py\<close>:
    a statement row goes only on the proof of today's parse.
  \<^item> \<open>Category_Rules\<close>: the rules of \<^verbatim>\<open>categorization/rules.py\<close>, the merchant rules with their table and
    the built-in ones that a start seeds. \<open>Category_Review\<close>: the parsed answer of the model, manual
    assignment and the decisions behind the buttons. \<open>Categorize\<close>: one row through the rules and the
    model (\<^verbatim>\<open>engine.py\<close>), the sweeps (\<^verbatim>\<open>sweep.py\<close>) and \<^verbatim>\<open>scripts/categorize_backfill.py\<close>.
    \<open>Category_Facts\<close>, \<open>Category_Properties\<close>: neither a rule nor the model gets a category past the
    direction guard (with the exceptions named there), a row that is left to the owner has a question, a
    button works once, a rule that was switched off stays out, and the backfill ends: a locale states the
    contract between a sweep and the loop that drains it, and both sweeps are interpretations of it.

  \<^bold>\<open>Conventions.\<close> A table is the list of its rows in primary-key order; a nullable column is an
  option. A string is a list of characters U+0000 to U+00FF, on which lower-casing and the character
  classes of Python are written out. A \<open>Decimal\<close> is the rational number it denotes: the precision of
  the context is not reached by two-digit amounts, and texts that denote NaN or an infinity do not
  parse. A date is a day number and a datetime a number of microseconds, without bounds, so an
  \<open>OverflowError\<close> of the calendar is not modelled. JSON columns are their parsed values. An operation
  that raises is a value of an error type or \<open>None\<close>, and leaves the state it was given, which is the
  rollback. Random tokens, the clock, the configuration and the digest of a payload are arguments. The
  commits of other sessions between the first read of an operation and its first write are an
  arbitrary function, the argument \<open>race\<close>, where the code guards against them; the other operations
  run under the write lock of SQLite. Recursion is structural or on the length of a text, so no
  definition needs fuel; the loop of the backfill is a partial function, whose value \<open>None\<close> is that it
  does not return, and is proved to return.

  \<^bold>\<open>Parameters.\<close> The date parser of the dateutil package and the digest are parameters: the theorems
  hold for every such function and need no assumption about it. The language model that categorizes,
  with its prompt and its examples, is a function of the row, the database and the offered categories that may raise;
  \<open>backfill_leaves_no_work\<close> assumes that it answers, the other theorems assume nothing.

  \<^bold>\<open>Not modelled.\<close> Parsers of messages and statements (other packages), mailbox, HTTP and file I/O,
  the language model behind the assistant, the transports of the providers of the categorizer, the
  notifications of pending reviews, migrations, web pages and the read queries for them, log lines and the
  wording of messages. Net worth and the Paisa projection are not modelled.
\<close>

end
